(* ===== verification/Prelude.thy ===== *)
theory Prelude
  imports Main "HOL-Library.Word" "HOL-Library.Signed_Division"
begin

unbundle bit_operations_syntax

text \<open>
  The vocabulary every component of the model shares: Go's basic types, error values,
  the result of a call that may fail or panic, and the state-passing combinators the
  components are written with, together with the generic lemmas about them.

  \<^item> A \<open>byte\<close> is an 8-bit word and a \<open>[]byte\<close>, \<open>[32]byte\<close> or \<open>string\<close> is a list of bytes;
    the length of a fixed-size array is a conjunct of the well-formedness predicate of
    the record it stands in, and \<open>arr\<close> is Go's \<open>copy\<close> into a zeroed array.
  \<^item> \<open>uint16\<close>, \<open>uint32\<close> and \<open>uint64\<close> are words of that width, so they wrap as Go's do.
  \<^item> A Go \<open>int\<close> (64 bits) is an \<open>int\<close>; every place where its arithmetic can leave the
    range applies \<open>go_int\<close>, the two's complement wrap-around.
  \<^item> A \<open>time.Time\<close> is a number of nanoseconds and a \<open>time.Duration\<close> a 64-bit number of
    nanoseconds. Every reading of the clock is an argument of the operation that reads it.
\<close>

type_synonym byte = "8 word"
type_synonym bytes = "8 word list"
type_synonym u16 = "16 word"
type_synonym u32 = "32 word"
type_synonym u64 = "64 word"
type_synonym time = int
type_synonym duration = int

section \<open>Errors and outcomes\<close>

text \<open>
  One constructor for each message the code passes to \<open>errors.New\<close> or \<open>fmt.Errorf\<close>
  (with the numbers it formats), and one for each library error the code hands on,
  grouped by the package that reports it.
\<close>

datatype codec_error = BufferUnderflow | InvalidBool | InvalidUtf8

datatype frame_error = UnsupportedFrameVersion | PayloadTooLarge

datatype app_error = AppPayloadTooLarge | ExpectedAppMessage | NotAckNak | NotChunk

datatype cipher_error =
  EncryptAlreadyEncrypted | DecryptNotEncrypted | AeadKeyLength | AeadOpenFailed

datatype identity_error =
    RandRead | X25519LowOrder | MissingEdPrivate | EdVerifyFailed | KeyIdTooLarge
  | TrailingBundle | BundleVersionUnsupported byte | SigAlgUnsupported byte
  | OutsideValidity | NotTrusted | BundleSignature

datatype hs_message = ClientHelloMsg | ServerHelloMsg | ClientFinishMsg

datatype wire_error =
    UnexpectedMsgType | InvalidKind | TrailingWrapper | TrailingBody | BodyTooLarge
  | BundleTooLarge | InvalidRoleHint byte

datatype handshake_error =
    ClientHelloNotBuilt | NoCommonCapabilities | InvalidAcceptedMaxPayload | ServerSignature
  | ServerHelloNotProcessed | ClientHelloMissing | ServerHelloMissing
  | InvalidNegotiatedMaxPayload | ClientSignature | HkdfExpand

datatype session_error =
    ReplayOutsideWindow | ReplayDuplicate | FrameAlreadyEncrypted | OutboundCounterOverflow
  | FrameNotEncrypted | OrderedModeRequired | InboundCounterOverflow | DecryptOrReplay
  | UdpModeRequired | DecryptFailed

datatype client_error =
    NoHandler byte | UnexpectedServerHello byte | NoSession | HeartbeatTimeout
  | NoSecureSession | IoEOF | IoUnexpectedEOF | IoWrite | IoClose | IoClosed | DialFailed

datatype env_error =
    IdentityEnvUnset | IdentityEnvTogether | OddHex | InvalidHex | EdSeedLength nat
  | XPrivLength nat | TrustPinsUnset | PinInvalid nat env_error | PinLength nat nat
  | NoValidPin | NotUnsigned

datatype go_error =
    CodecError codec_error | FrameError frame_error | AppError app_error
  | CipherError cipher_error | IdentityError identity_error
  | WireError hs_message wire_error | HandshakeError handshake_error
  | SessionError session_error | ClientError client_error | EnvError env_error

text \<open>What a Go call gives back: a value, a non-nil error, or a run-time panic.\<close>

datatype 'a outcome = Ok 'a | Err go_error | Panic

fun is_Ok :: "'a outcome \<Rightarrow> bool" where
  "is_Ok (Ok x) = True"
| "is_Ok (Err e) = False"
| "is_Ok Panic = False"

fun obind :: "'a outcome \<Rightarrow> ('a \<Rightarrow> 'b outcome) \<Rightarrow> 'b outcome" where
  "obind (Ok x) k = k x"
| "obind (Err e) k = Err e"
| "obind Panic k = Panic"

text \<open>\<open>if cond { return error }\<close>, the guard most functions of the code start with.\<close>

definition ocheck :: "bool \<Rightarrow> go_error \<Rightarrow> unit outcome" where
  "ocheck c e = (if c then Ok () else Err e)"

text \<open>A method that reads and updates a state: the outcome and the state it leaves.\<close>

type_synonym ('s, 'a) go_method = "'s \<Rightarrow> 'a outcome \<times> 's"

definition sret :: "'a \<Rightarrow> ('s, 'a) go_method" where
  "sret x = (\<lambda>s. (Ok x, s))"

definition sfail :: "go_error \<Rightarrow> ('s, 'a) go_method" where
  "sfail e = (\<lambda>s. (Err e, s))"

definition slift :: "'a outcome \<Rightarrow> ('s, 'a) go_method" where
  "slift r = (\<lambda>s. (r, s))"

definition sbind :: "('s, 'a) go_method \<Rightarrow> ('a \<Rightarrow> ('s, 'b) go_method) \<Rightarrow> ('s, 'b) go_method" where
  "sbind m k = (\<lambda>s. case m s of
      (Ok x, s') \<Rightarrow> k x s'
    | (Err e, s') \<Rightarrow> (Err e, s')
    | (Panic, s') \<Rightarrow> (Panic, s'))"

named_theorems method_simps \<open>unfolding of the state-passing combinators\<close>

declare sret_def [method_simps] sfail_def [method_simps] slift_def [method_simps]

lemma sbind_apply [method_simps]:
  "sbind m k s = (case m s of (Ok x, s') \<Rightarrow> k x s' | (Err e, s') \<Rightarrow> (Err e, s')
     | (Panic, s') \<Rightarrow> (Panic, s'))"
  by (simp add: sbind_def)

lemma obind_eq_Ok: "obind m k = Ok y \<longleftrightarrow> (\<exists>x. m = Ok x \<and> k x = Ok y)"
  by (cases m) auto

lemma obind_eq_Err: "obind m k = Err e \<longleftrightarrow> m = Err e \<or> (\<exists>x. m = Ok x \<and> k x = Err e)"
  by (cases m) auto

lemma obind_eq_Panic: "obind m k = Panic \<longleftrightarrow> m = Panic \<or> (\<exists>x. m = Ok x \<and> k x = Panic)"
  by (cases m) auto

lemma ocheck_eq_Ok [simp]: "ocheck c e = Ok u \<longleftrightarrow> c"
  by (simp add: ocheck_def)

lemma ocheck_True [simp]: "ocheck True e = Ok ()"
  by (simp add: ocheck_def)

lemma ocheck_False [simp]: "ocheck False e = Err e"
  by (simp add: ocheck_def)

lemma ocheck_not_Panic [simp]: "ocheck c e \<noteq> Panic"
  by (simp add: ocheck_def)

lemma is_Ok_iff: "is_Ok r \<longleftrightarrow> (\<exists>x. r = Ok x)"
  by (cases r) auto

lemma sbind_eq_Ok:
  "sbind m k s = (Ok y, s'') \<longleftrightarrow> (\<exists>x s'. m s = (Ok x, s') \<and> k x s' = (Ok y, s''))"
  by (auto simp: sbind_def split: prod.splits outcome.splits)

section \<open>Integers and arrays\<close>

text \<open>The wrap-around of a 64-bit Go \<open>int\<close>.\<close>

definition go_int :: "int \<Rightarrow> int" where
  "go_int i = (i + 2 ^ 63) mod 2 ^ 64 - 2 ^ 63"

lemma go_int_id: "- (2 ^ 63) \<le> i \<Longrightarrow> i < 2 ^ 63 \<Longrightarrow> go_int i = i"
  by (simp add: go_int_def)

lemma go_int_range: "- (2 ^ 63) \<le> go_int i \<and> go_int i < 2 ^ 63"
  by (simp add: go_int_def)

lemma go_int_overflow: "2 ^ 63 \<le> i \<Longrightarrow> i < 2 ^ 64 \<Longrightarrow> go_int i = i - 2 ^ 64"
proof -
  assume i: "2 ^ 63 \<le> i" "i < 2 ^ 64"
  have "(i + 2 ^ 63) mod 2 ^ 64 = (i + 2 ^ 63 - 2 ^ 64) mod 2 ^ 64"
    by (rule minus_mod_self2 [symmetric])
  also have "\<dots> = i + 2 ^ 63 - 2 ^ 64" using i by (intro mod_pos_pos_trivial) auto
  finally show ?thesis by (simp add: go_int_def)
qed

text \<open>\<open>copy(out[:], b)\<close> into a zeroed \<open>[n]byte\<close>.\<close>

definition arr :: "nat \<Rightarrow> bytes \<Rightarrow> bytes" where
  "arr n b = take n (b @ replicate n 0)"

lemma length_arr [simp]: "length (arr n b) = n"
  by (simp add: arr_def)

lemma arr_id [simp]: "length b = n \<Longrightarrow> arr n b = b"
  by (simp add: arr_def)

text \<open>\<open>t.Sub(u)\<close>, which saturates at the ends of the \<open>Duration\<close> range.\<close>

definition time_since :: "time \<Rightarrow> time \<Rightarrow> duration" where
  "time_since now t = max (- (2 ^ 63)) (min (2 ^ 63 - 1) (now - t))"

definition second_ns :: duration where
  "second_ns = 1000000000"

text \<open>Big-endian conversions of \<open>encoding/binary\<close>; reading from too short a slice panics.\<close>

definition be16 :: "u16 \<Rightarrow> bytes" where
  "be16 v = [ucast (drop_bit 8 v), ucast v]"

definition be32 :: "u32 \<Rightarrow> bytes" where
  "be32 v = [ucast (drop_bit 24 v), ucast (drop_bit 16 v), ucast (drop_bit 8 v), ucast v]"

definition be64 :: "u64 \<Rightarrow> bytes" where
  "be64 v = [ucast (drop_bit 56 v), ucast (drop_bit 48 v), ucast (drop_bit 40 v),
     ucast (drop_bit 32 v), ucast (drop_bit 24 v), ucast (drop_bit 16 v),
     ucast (drop_bit 8 v), ucast v]"

fun be_Uint16 :: "bytes \<Rightarrow> u16 outcome" where
  "be_Uint16 (b0 # b1 # _) = Ok (ucast b1 OR push_bit 8 (ucast b0))"
| "be_Uint16 _ = Panic"

fun be_Uint32 :: "bytes \<Rightarrow> u32 outcome" where
  "be_Uint32 (b0 # b1 # b2 # b3 # _) =
     Ok (ucast b3 OR push_bit 8 (ucast b2) OR push_bit 16 (ucast b1) OR push_bit 24 (ucast b0))"
| "be_Uint32 _ = Panic"

fun be_Uint64 :: "bytes \<Rightarrow> u64 outcome" where
  "be_Uint64 (b0 # b1 # b2 # b3 # b4 # b5 # b6 # b7 # _) =
     Ok (ucast b7 OR push_bit 8 (ucast b6) OR push_bit 16 (ucast b5) OR push_bit 24 (ucast b4)
       OR push_bit 32 (ucast b3) OR push_bit 40 (ucast b2) OR push_bit 48 (ucast b1)
       OR push_bit 56 (ucast b0))"
| "be_Uint64 _ = Panic"

lemma length_be16 [simp]: "length (be16 v) = 2"
  by (simp add: be16_def)

lemma length_be32 [simp]: "length (be32 v) = 4"
  by (simp add: be32_def)

lemma length_be64 [simp]: "length (be64 v) = 8"
  by (simp add: be64_def)

text \<open>Reading back what was written, and writing back what was read.\<close>

lemma byte_bit_ge [simp]: "8 \<le> n \<Longrightarrow> \<not> bit (b :: byte) n"
  using bit_imp_le_length [of b n] by auto

lemma byte_slot:
  assumes "n < 64"
  obtains r where "r < 8" "n = r \<or> n = 8 + r \<or> n = 16 + r \<or> n = 24 + r \<or> n = 32 + r
    \<or> n = 40 + r \<or> n = 48 + r \<or> n = 56 + (r :: nat)"
proof -
  define q r where "q = n div 8" and "r = n mod 8"
  have n: "n = 8 * q + r" "r < 8" by (simp_all add: q_def r_def)
  have "q < 8" using assms by (simp add: q_def)
  then have "q \<in> {0, 1, 2, 3, 4, 5, 6, 7}" by auto
  then show thesis using n by (intro that [of r]) auto
qed

lemma be_Uint16_be16 [simp]: "be_Uint16 (be16 v @ r) = Ok v"
  by (auto simp: be16_def bit_simps not_less intro!: bit_word_eqI)

lemma be_Uint32_be32 [simp]: "be_Uint32 (be32 v @ r) = Ok v"
  apply (simp add: be32_def)
  apply (rule bit_word_eqI)
  apply (simp add: bit_simps)
  subgoal for n
    by (cases "n < 8"; cases "n < 16"; cases "n < 24") auto
  done

lemma be_Uint64_be64 [simp]: "be_Uint64 (be64 v @ r) = Ok v"
  apply (simp add: be64_def)
  apply (rule bit_word_eqI)
  apply (simp add: bit_simps)
  subgoal for n
    apply (rule byte_slot [of n], assumption)
    apply (elim disjE; clarsimp)
    done
  done

lemmas be_Uint_exact [simp] =
  be_Uint16_be16 [of _ "[]", simplified] be_Uint32_be32 [of _ "[]", simplified]
  be_Uint64_be64 [of _ "[]", simplified]

lemma be16_Uint16: "be_Uint16 b = Ok v \<Longrightarrow> length b = 2 \<Longrightarrow> be16 v = b"
  by (cases b rule: be_Uint16.cases) (auto simp: be16_def bit_simps intro!: bit_word_eqI)

lemma be32_Uint32: "be_Uint32 b = Ok v \<Longrightarrow> length b = 4 \<Longrightarrow> be32 v = b"
  by (cases b rule: be_Uint32.cases) (auto simp: be32_def bit_simps intro!: bit_word_eqI)

lemma be64_Uint64: "be_Uint64 b = Ok v \<Longrightarrow> length b = 8 \<Longrightarrow> be64 v = b"
  by (cases b rule: be_Uint64.cases) (auto simp: be64_def bit_simps intro!: bit_word_eqI)

lemma be_Uint16_total: "length b = 2 \<Longrightarrow> \<exists>v. be_Uint16 b = Ok v"
  by (cases b rule: be_Uint16.cases) auto

lemma be_Uint32_total: "length b = 4 \<Longrightarrow> \<exists>v. be_Uint32 b = Ok v"
  by (cases b rule: be_Uint32.cases) auto

lemma be_Uint64_total: "length b = 8 \<Longrightarrow> \<exists>v. be_Uint64 b = Ok v"
  by (cases b rule: be_Uint64.cases) auto

lemma be16_inject [simp]: "be16 v = be16 w \<longleftrightarrow> v = w"
  by (metis be_Uint_exact(1) outcome.inject(1))

lemma be32_inject [simp]: "be32 v = be32 w \<longleftrightarrow> v = w"
  by (metis be_Uint_exact(2) outcome.inject(1))

lemma be64_inject [simp]: "be64 v = be64 w \<longleftrightarrow> v = w"
  by (metis be_Uint_exact(3) outcome.inject(1))

lemma unat16_less: "unat (h :: u16) < 2 ^ 16"
  using unsigned_less [of h, where ?'a = nat] by simp

lemma unat32_less: "unat (w :: u32) < 2 ^ 32"
  using unsigned_less [of w, where ?'a = nat] by simp

lemma unat64_less: "unat (w :: u64) < 2 ^ 64"
  using unsigned_less [of w, where ?'a = nat] by simp

end
