(* ===== verification/Go_Text.thy ===== *)
theory Go_Text
  imports Prelude
begin

unbundle bit_operations_syntax

text \<open>
  The parts of Go's standard library for text that the code calls: \<open>utf8.Valid\<close>,
  \<open>strings.TrimSpace\<close>, \<open>strings.Split\<close> on a comma, \<open>hex.DecodeString\<close> and
  \<open>strconv.ParseUint(s, 10, 64)\<close>. A Go string is its list of UTF-8 bytes.
\<close>

section \<open>UTF-8\<close>

text \<open>The accepted range of the second byte depends on the first: no overlong forms, no
  surrogates, nothing above U+10FFFF.\<close>

definition utf8_cont :: "byte \<Rightarrow> bool" where
  "utf8_cont b \<longleftrightarrow> 0x80 \<le> b \<and> b \<le> 0xBF"

fun utf8_Valid :: "bytes \<Rightarrow> bool" where
  "utf8_Valid [] = True"
| "utf8_Valid (b0 # r) =
     (if b0 < 0x80 then utf8_Valid r
      else if 0xC2 \<le> b0 \<and> b0 \<le> 0xDF then
        (case r of b1 # r1 \<Rightarrow> utf8_cont b1 \<and> utf8_Valid r1 | _ \<Rightarrow> False)
      else if 0xE0 \<le> b0 \<and> b0 \<le> 0xEF then
        (case r of b1 # b2 # r2 \<Rightarrow>
            (if b0 = 0xE0 then 0xA0 \<le> b1 \<and> b1 \<le> 0xBF
             else if b0 = 0xED then 0x80 \<le> b1 \<and> b1 \<le> 0x9F
             else utf8_cont b1) \<and> utf8_cont b2 \<and> utf8_Valid r2
         | _ \<Rightarrow> False)
      else if 0xF0 \<le> b0 \<and> b0 \<le> 0xF4 then
        (case r of b1 # b2 # b3 # r3 \<Rightarrow>
            (if b0 = 0xF0 then 0x90 \<le> b1 \<and> b1 \<le> 0xBF
             else if b0 = 0xF4 then 0x80 \<le> b1 \<and> b1 \<le> 0x8F
             else utf8_cont b1) \<and> utf8_cont b2 \<and> utf8_cont b3 \<and> utf8_Valid r3
         | _ \<Rightarrow> False)
      else False)"

lemma utf8_Valid_ascii: "\<forall>b\<in>set s. b < 0x80 \<Longrightarrow> utf8_Valid s"
  by (induction s) auto

text \<open>The ASCII text of a string literal of the source, as bytes.\<close>

definition str :: "string \<Rightarrow> bytes" where
  "str s = map of_char s"

lemma length_str [simp]: "length (str s) = length s"
  by (simp add: str_def)

section \<open>Trimming and splitting\<close>

text \<open>
  The UTF-8 encodings of the characters \<open>unicode.IsSpace\<close> accepts. \<open>TrimSpace\<close> drops such
  encodings from both ends; none is a proper prefix or suffix of another.
\<close>

definition space_encodings :: "bytes list" where
  "space_encodings =
     [[0x09], [0x0A], [0x0B], [0x0C], [0x0D], [0x20], [0xC2, 0x85], [0xC2, 0xA0],
      [0xE1, 0x9A, 0x80],
      [0xE2, 0x80, 0x80], [0xE2, 0x80, 0x81], [0xE2, 0x80, 0x82], [0xE2, 0x80, 0x83],
      [0xE2, 0x80, 0x84], [0xE2, 0x80, 0x85], [0xE2, 0x80, 0x86], [0xE2, 0x80, 0x87],
      [0xE2, 0x80, 0x88], [0xE2, 0x80, 0x89], [0xE2, 0x80, 0x8A],
      [0xE2, 0x80, 0xA8], [0xE2, 0x80, 0xA9], [0xE2, 0x80, 0xAF], [0xE2, 0x81, 0x9F],
      [0xE3, 0x80, 0x80]]"

fun strip_prefix :: "bytes list \<Rightarrow> bytes \<Rightarrow> bytes option" where
  "strip_prefix [] s = None"
| "strip_prefix (e # es) s =
     (if take (length e) s = e \<and> e \<noteq> [] then Some (drop (length e) s) else strip_prefix es s)"

lemma strip_prefix_shorter: "strip_prefix es s = Some s' \<Longrightarrow> length s' < length s"
proof (induction es s rule: strip_prefix.induct)
  case (2 e es s)
  show ?case
  proof (cases "take (length e) s = e \<and> e \<noteq> []")
    case True
    then have "length e \<le> length s" "0 < length e" by (metis length_take min.cobounded1, simp)
    then have "length s - length e < length s" by (intro diff_less) auto
    with 2 True show ?thesis by auto
  next
    case False
    with 2 show ?thesis by simp
  qed
qed simp

function trim_left :: "bytes list \<Rightarrow> bytes \<Rightarrow> bytes" where
  "trim_left es s = (case strip_prefix es s of None \<Rightarrow> s | Some s' \<Rightarrow> trim_left es s')"
  by pat_completeness auto
termination
  by (relation "measure (\<lambda>(es, s). length s)") (auto dest: strip_prefix_shorter)

declare trim_left.simps [simp del]

definition TrimSpace :: "bytes \<Rightarrow> bytes" where
  "TrimSpace s =
     rev (trim_left (map rev space_encodings) (rev (trim_left space_encodings s)))"

lemma trim_left_length: "length (trim_left es s) \<le> length s"
proof (induction es s rule: trim_left.induct)
  case (1 es s)
  show ?case
  proof (cases "strip_prefix es s")
    case None
    then show ?thesis by (simp add: trim_left.simps [of es s])
  next
    case (Some s')
    then have "length s' < length s" by (rule strip_prefix_shorter)
    with 1 Some show ?thesis by (fastforce simp: trim_left.simps [of es s])
  qed
qed

lemma TrimSpace_length: "length (TrimSpace s) \<le> length s"
proof -
  have "length (TrimSpace s) \<le> length (trim_left space_encodings s)"
    unfolding TrimSpace_def by (metis length_rev trim_left_length)
  also have "\<dots> \<le> length s" by (rule trim_left_length)
  finally show ?thesis .
qed

lemma TrimSpace_Nil [simp]: "TrimSpace [] = []"
  using TrimSpace_length [of "[]"] by simp

text \<open>\<open>strings.Split(s, sep)\<close> for a one-byte separator: always at least one piece.\<close>

fun Split :: "byte \<Rightarrow> bytes \<Rightarrow> bytes list" where
  "Split sep [] = [[]]"
| "Split sep (b # s) =
     (if b = sep then [] # Split sep s
      else (case Split sep s of [] \<Rightarrow> [[b]] | w # ws \<Rightarrow> (b # w) # ws))"

lemma Split_not_Nil [simp]: "Split sep s \<noteq> []"
  by (cases s) (auto split: list.splits)

lemma Split_no_sep: "w \<in> set (Split sep s) \<Longrightarrow> sep \<notin> set w"
  by (induction s arbitrary: w) (fastforce split: if_splits list.splits)+

section \<open>Numbers\<close>

definition hex_digit :: "byte \<Rightarrow> byte option" where
  "hex_digit c =
     (if 0x30 \<le> c \<and> c \<le> 0x39 then Some (c - 0x30)
      else if 0x61 \<le> c \<and> c \<le> 0x66 then Some (c - 0x61 + 10)
      else if 0x41 \<le> c \<and> c \<le> 0x46 then Some (c - 0x41 + 10)
      else None)"

text \<open>\<open>hex.DecodeString\<close>: None on a character that is no digit or on odd length.\<close>

fun hex_DecodeString :: "bytes \<Rightarrow> bytes option" where
  "hex_DecodeString [] = Some []"
| "hex_DecodeString [c] = None"
| "hex_DecodeString (c # d # s) =
     (case (hex_digit c, hex_digit d) of
        (Some h, Some l) \<Rightarrow> map_option ((#) (push_bit 4 h OR l)) (hex_DecodeString s)
      | _ \<Rightarrow> None)"

lemma hex_DecodeString_length: "hex_DecodeString s = Some b \<Longrightarrow> length s = 2 * length b"
  by (induction s arbitrary: b rule: hex_DecodeString.induct) (auto split: option.splits)

text \<open>\<open>strconv.ParseUint(s, 10, 64)\<close>: decimal digits only, no sign, below \<open>2 ^ 64\<close>.\<close>

definition dec_digit :: "byte \<Rightarrow> nat option" where
  "dec_digit c = (if 0x30 \<le> c \<and> c \<le> 0x39 then Some (unat (c - 0x30)) else None)"

fun dec_value :: "bytes \<Rightarrow> nat \<Rightarrow> nat option" where
  "dec_value [] acc = Some acc"
| "dec_value (c # s) acc =
     (case dec_digit c of None \<Rightarrow> None | Some v \<Rightarrow> dec_value s (10 * acc + v))"

definition ParseUint :: "bytes \<Rightarrow> u64 option" where
  "ParseUint s =
     (if s = [] then None
      else case dec_value s 0 of
          None \<Rightarrow> None
        | Some n \<Rightarrow> if n < 2 ^ 64 then Some (of_nat n) else None)"

end
