(* ===== verification/Codec.thy ===== *)
theory Codec
  imports Go_Text
begin

text \<open>
  Package \<open>binary\<close> (\<open>binary/encoder.go\<close>, \<open>binary/decoder.go\<close>): the big-endian primitive
  writers and the bounds-checked readers all wire formats are built from. A \<open>Decoder\<close> is a
  buffer with a position; each reader is a method on it that either moves the position past
  what it read or reports an error.

  The second half is the contract of a wire format: \<open>parses\<close> (a reader gives back what a
  writer wrote and leaves what follows), \<open>exact\<close> (a reader accepts nothing but what the
  writer writes) and \<open>bounded\<close> (a reader never panics and never leaves the buffer), each
  with the rules that compose it along a method, and the locale \<open>codec\<close> that states the
  contract once.
\<close>

section \<open>Encoder\<close>

record encoder =
  e_buf :: bytes

definition NewEncoder :: encoder where
  "NewEncoder = \<lparr>e_buf = []\<rparr>"

definition WriteBytes :: "bytes \<Rightarrow> encoder \<Rightarrow> encoder" where
  "WriteBytes b e = e\<lparr>e_buf := e_buf e @ b\<rparr>"

definition WriteU8 :: "byte \<Rightarrow> encoder \<Rightarrow> encoder" where
  "WriteU8 v e = e\<lparr>e_buf := e_buf e @ [v]\<rparr>"

definition WriteBool :: "bool \<Rightarrow> encoder \<Rightarrow> encoder" where
  "WriteBool v e = (if v then WriteU8 1 e else WriteU8 0 e)"

definition WriteU16 :: "u16 \<Rightarrow> encoder \<Rightarrow> encoder" where
  "WriteU16 v e = e\<lparr>e_buf := e_buf e @ be16 v\<rparr>"

definition WriteU32 :: "u32 \<Rightarrow> encoder \<Rightarrow> encoder" where
  "WriteU32 v e = e\<lparr>e_buf := e_buf e @ be32 v\<rparr>"

definition WriteU64 :: "u64 \<Rightarrow> encoder \<Rightarrow> encoder" where
  "WriteU64 v e = e\<lparr>e_buf := e_buf e @ be64 v\<rparr>"

definition WriteVarBytes :: "bytes \<Rightarrow> encoder \<Rightarrow> encoder" where
  "WriteVarBytes b e = WriteBytes b (WriteU32 (of_nat (length b)) e)"

definition WriteString :: "bytes \<Rightarrow> encoder \<Rightarrow> encoder" where
  "WriteString s e = WriteVarBytes s e"

definition Encoder_Bytes :: "encoder \<Rightarrow> bytes" where
  "Encoder_Bytes e = e_buf e"

named_theorems encode_simps \<open>what each writer appends\<close>

lemma e_buf_writers [encode_simps]:
  "e_buf NewEncoder = []"
  "e_buf (WriteBytes b e) = e_buf e @ b"
  "e_buf (WriteU8 v e) = e_buf e @ [v]"
  "e_buf (WriteBool t e) = e_buf e @ [if t then 1 else 0]"
  "e_buf (WriteU16 h e) = e_buf e @ be16 h"
  "e_buf (WriteU32 w e) = e_buf e @ be32 w"
  "e_buf (WriteU64 q e) = e_buf e @ be64 q"
  "e_buf (WriteVarBytes b e) = e_buf e @ be32 (of_nat (length b)) @ b"
  "e_buf (WriteString b e) = e_buf e @ be32 (of_nat (length b)) @ b"
  "Encoder_Bytes e = e_buf e"
  by (simp_all add: NewEncoder_def WriteBytes_def WriteU8_def WriteBool_def WriteU16_def
      WriteU32_def WriteU64_def WriteVarBytes_def WriteString_def Encoder_Bytes_def)

section \<open>Decoder\<close>

record decoder =
  d_buf :: bytes
  d_pos :: int

type_synonym 'a reader = "(decoder, 'a) go_method"

definition NewDecoder :: "bytes \<Rightarrow> decoder" where
  "NewDecoder buf = \<lparr>d_buf = buf, d_pos = 0\<rparr>"

definition remaining :: "decoder \<Rightarrow> int" where
  "remaining d = go_int (int (length (d_buf d)) - d_pos d)"

text \<open>
  \<open>d.pos + n\<close> is 64-bit arithmetic, and the slice expression panics unless its bounds are
  ordered; both matter for a caller that passes a negative or huge \<open>n\<close> to \<open>ReadBytes\<close>.
\<close>

definition readExact :: "int \<Rightarrow> bytes reader" where
  "readExact n d =
     (let e = go_int (d_pos d + n) in
      if e > int (length (d_buf d)) then (Err (CodecError BufferUnderflow), d)
      else if 0 \<le> d_pos d \<and> d_pos d \<le> e
        then (Ok (take (nat (e - d_pos d)) (drop (nat (d_pos d)) (d_buf d))), d\<lparr>d_pos := e\<rparr>)
        else (Panic, d))"

definition ReadU8 :: "byte reader" where
  "ReadU8 = sbind (readExact 1) (\<lambda>b. slift (case b of [] \<Rightarrow> Panic | x # _ \<Rightarrow> Ok x))"

definition ReadBool :: "bool reader" where
  "ReadBool = sbind ReadU8 (\<lambda>b.
     if b = 0 then sret False else if b = 1 then sret True
     else sfail (CodecError InvalidBool))"

definition ReadU16 :: "u16 reader" where
  "ReadU16 = sbind (readExact 2) (\<lambda>b. slift (be_Uint16 b))"

definition ReadU32 :: "u32 reader" where
  "ReadU32 = sbind (readExact 4) (\<lambda>b. slift (be_Uint32 b))"

definition ReadU64 :: "u64 reader" where
  "ReadU64 = sbind (readExact 8) (\<lambda>b. slift (be_Uint64 b))"

definition ReadBytes :: "int \<Rightarrow> bytes reader" where
  "ReadBytes n = readExact n"

definition ReadVarBytes :: "bytes reader" where
  "ReadVarBytes = sbind ReadU32 (\<lambda>l. readExact (uint l))"

definition ReadString :: "bytes reader" where
  "ReadString = sbind ReadVarBytes (\<lambda>b.
     if \<not> utf8_Valid b then sfail (CodecError InvalidUtf8) else sret b)"

definition Remaining :: "decoder \<Rightarrow> int" where
  "Remaining d = remaining d"

section \<open>The contract of a reader\<close>

text \<open>A position inside the buffer; no Go slice is longer than \<open>2 ^ 62\<close> bytes, so that the
  position arithmetic of a reader of at most \<open>2 ^ 62\<close> bytes cannot wrap.\<close>

definition decoder_ok :: "decoder \<Rightarrow> bool" where
  "decoder_ok d \<longleftrightarrow> 0 \<le> d_pos d \<and> d_pos d \<le> int (length (d_buf d)) \<and> length (d_buf d) < 2 ^ 62"

definition unread :: "decoder \<Rightarrow> bytes" where
  "unread d = drop (nat (d_pos d)) (d_buf d)"

definition advanced :: "decoder \<Rightarrow> decoder \<Rightarrow> bool" where
  "advanced d d' \<longleftrightarrow> decoder_ok d' \<and> d_buf d' = d_buf d \<and> d_pos d \<le> d_pos d'"

definition reads :: "'a reader \<Rightarrow> (bytes \<Rightarrow> 'a \<Rightarrow> bool) \<Rightarrow> bool" where
  "reads p R \<longleftrightarrow> (\<forall>d. decoder_ok d \<longrightarrow> (case p d of
       (Ok x, d') \<Rightarrow> advanced d d' \<and> (\<exists>bs. unread d = bs @ unread d' \<and> R bs x)
     | (Err e, d') \<Rightarrow> advanced d d'
     | (Panic, d') \<Rightarrow> False))"

definition bounded :: "'a reader \<Rightarrow> bool" where
  "bounded p \<longleftrightarrow> reads p (\<lambda>_ _. True)"

definition parses :: "'a reader \<Rightarrow> bytes \<Rightarrow> 'a \<Rightarrow> bool" where
  "parses p bs x \<longleftrightarrow> (\<forall>d rest. decoder_ok d \<longrightarrow> unread d = bs @ rest \<longrightarrow>
     (\<exists>d'. p d = (Ok x, d') \<and> advanced d d' \<and> unread d' = rest))"

lemma advanced_trans: "advanced a b \<Longrightarrow> advanced b c \<Longrightarrow> advanced a c"
  by (simp add: advanced_def)

lemma advanced_ok: "advanced a b \<Longrightarrow> decoder_ok b"
  by (simp add: advanced_def)

lemma advanced_refl: "decoder_ok d \<Longrightarrow> advanced d d"
  by (simp add: advanced_def)

lemma length_unread: "decoder_ok d \<Longrightarrow> int (length (unread d)) = int (length (d_buf d)) - d_pos d"
  by (simp add: unread_def decoder_ok_def of_nat_diff nat_le_iff)

lemma length_unread_less: "decoder_ok d \<Longrightarrow> length (unread d) < 2 ^ 62"
  unfolding unread_def decoder_ok_def length_drop by (metis diff_le_self order_le_less_trans)

lemma remaining_eq: "decoder_ok d \<Longrightarrow> Remaining d = int (length (unread d))"
  by (simp add: Remaining_def remaining_def go_int_id decoder_ok_def length_unread)

lemma Remaining_0: "decoder_ok d \<Longrightarrow> Remaining d = 0 \<longleftrightarrow> unread d = []"
  by (simp add: remaining_eq)

lemma NewDecoder_ok: "length b < 2 ^ 62 \<Longrightarrow> decoder_ok (NewDecoder b)"
  by (simp add: decoder_ok_def NewDecoder_def)

lemma unread_NewDecoder [simp]: "unread (NewDecoder b) = b"
  by (simp add: unread_def NewDecoder_def)

lemma readExact_enough:
  assumes d: "decoder_ok d" and n: "n \<le> length (unread d)"
  shows "readExact (int n) d =
    (Ok (take n (unread d)), d\<lparr>d_pos := d_pos d + int n\<rparr>)"
    and "advanced d (d\<lparr>d_pos := d_pos d + int n\<rparr>)"
    and "unread (d\<lparr>d_pos := d_pos d + int n\<rparr>) = drop n (unread d)"
proof -
  have le: "d_pos d + int n \<le> int (length (d_buf d))"
    using n length_unread [OF d] by simp
  have "go_int (d_pos d + int n) = d_pos d + int n"
    using d le by (intro go_int_id) (auto simp: decoder_ok_def)
  with d le show "readExact (int n) d =
    (Ok (take n (unread d)), d\<lparr>d_pos := d_pos d + int n\<rparr>)"
    by (simp add: readExact_def decoder_ok_def unread_def Let_def)
  show "advanced d (d\<lparr>d_pos := d_pos d + int n\<rparr>)"
    using d le by (simp add: advanced_def decoder_ok_def)
  show "unread (d\<lparr>d_pos := d_pos d + int n\<rparr>) = drop n (unread d)"
    using d by (simp add: unread_def decoder_ok_def nat_add_distrib add.commute)
qed

lemma readExact_short:
  assumes d: "decoder_ok d" and n: "length (unread d) < n" "n \<le> 2 ^ 62"
  shows "readExact (int n) d = (Err (CodecError BufferUnderflow), d)"
proof -
  have gt: "int (length (d_buf d)) < d_pos d + int n"
    using n length_unread [OF d] by simp
  have "int n \<le> 2 ^ 62" using n(2) by (metis of_nat_le_iff of_nat_numeral of_nat_power)
  then have "go_int (d_pos d + int n) = d_pos d + int n"
    using d by (intro go_int_id) (auto simp: decoder_ok_def)
  with gt show ?thesis by (simp add: readExact_def Let_def)
qed

lemma reads_readExact:
  assumes "n \<le> 2 ^ 62"
  shows "reads (readExact (int n)) (\<lambda>bs x. bs = x \<and> length x = n)"
  unfolding reads_def
proof (intro allI impI)
  fix d assume d: "decoder_ok d"
  show "case readExact (int n) d of
       (Ok x, d') \<Rightarrow> advanced d d' \<and> (\<exists>bs. unread d = bs @ unread d' \<and> bs = x \<and> length x = n)
     | (Err e, d') \<Rightarrow> advanced d d' | (Panic, d') \<Rightarrow> False"
  proof (cases "n \<le> length (unread d)")
    case True
    then show ?thesis using readExact_enough [OF d True] by simp
  next
    case False
    then show ?thesis using readExact_short [OF d _ assms] by (simp add: advanced_refl d)
  qed
qed

text \<open>Composition along a method.\<close>

lemma reads_sret: "R [] x \<Longrightarrow> reads (sret x) R"
  by (auto simp: reads_def sret_def advanced_refl)

lemma reads_sfail: "reads (sfail e) R"
  by (simp add: reads_def sfail_def advanced_refl)

lemma reads_slift: "r \<noteq> Panic \<Longrightarrow> (\<And>x. r = Ok x \<Longrightarrow> R [] x) \<Longrightarrow> reads (slift r) R"
  by (cases r) (auto simp: reads_def slift_def advanced_refl)

lemma reads_if:
  "(c \<Longrightarrow> reads p R) \<Longrightarrow> (\<not> c \<Longrightarrow> reads q R) \<Longrightarrow> reads (if c then p else q) R"
  by simp

lemma reads_weaken:
  assumes p: "reads p R" and RS: "\<And>bs x. R bs x \<Longrightarrow> S bs x"
  shows "reads p S"
  unfolding reads_def
proof (intro allI impI)
  fix d assume "decoder_ok d"
  note p' = p [unfolded reads_def, rule_format, OF this]
  obtain r d' where pd: "p d = (r, d')" by fastforce
  show "case p d of
       (Ok x, d') \<Rightarrow> advanced d d' \<and> (\<exists>bs. unread d = bs @ unread d' \<and> S bs x)
     | (Err e, d') \<Rightarrow> advanced d d' | (Panic, d') \<Rightarrow> False"
    using p' pd RS by (cases r) auto
qed

lemma reads_sbind:
  assumes p: "reads p R" and k: "\<And>b x. R b x \<Longrightarrow> reads (k x) (\<lambda>c y. S (b @ c) y)"
  shows "reads (sbind p k) S"
  unfolding reads_def
proof (intro allI impI)
  fix d assume d: "decoder_ok d"
  obtain r d1 where pd: "p d = (r, d1)" by fastforce
  note p' = p [unfolded reads_def, rule_format, OF d, unfolded pd]
  show "case sbind p k d of
       (Ok x, d') \<Rightarrow> advanced d d' \<and> (\<exists>bs. unread d = bs @ unread d' \<and> S bs x)
     | (Err e, d') \<Rightarrow> advanced d d' | (Panic, d') \<Rightarrow> False"
  proof (cases r)
    case (Ok x)
    with p' obtain b where adv: "advanced d d1" and b: "unread d = b @ unread d1" "R b x"
      by auto
    obtain r2 d2 where kd: "k x d1 = (r2, d2)" by fastforce
    have "case k x d1 of
       (Ok y, d') \<Rightarrow> advanced d1 d' \<and> (\<exists>c. unread d1 = c @ unread d' \<and> S (b @ c) y)
     | (Err e, d') \<Rightarrow> advanced d1 d' | (Panic, d') \<Rightarrow> False"
      using k [OF b(2)] advanced_ok [OF adv] by (simp add: reads_def)
    then show ?thesis
      using adv b(1) pd kd Ok
      by (cases r2) (auto simp: sbind_def intro: advanced_trans)
  qed (use p' pd in \<open>auto simp: sbind_def\<close>)
qed

lemma bounded_sret: "bounded (sret x)"
  by (simp add: bounded_def reads_sret)

lemma bounded_sfail: "bounded (sfail e)"
  by (simp add: bounded_def reads_sfail)

lemma bounded_slift: "r \<noteq> Panic \<Longrightarrow> bounded (slift r)"
  by (simp add: bounded_def reads_slift)

lemma bounded_if:
  "(c \<Longrightarrow> bounded p) \<Longrightarrow> (\<not> c \<Longrightarrow> bounded q) \<Longrightarrow> bounded (if c then p else q)"
  by simp

lemma bounded_sbind: "bounded p \<Longrightarrow> (\<And>x. bounded (k x)) \<Longrightarrow> bounded (sbind p k)"
  unfolding bounded_def by (rule reads_sbind)

lemma reads_imp_bounded: "reads p R \<Longrightarrow> bounded p"
  unfolding bounded_def by (erule reads_weaken) simp

lemma parses_sret: "parses (sret x) [] x"
  by (auto simp: parses_def sret_def advanced_refl)

lemma parses_slift: "r = Ok x \<Longrightarrow> parses (slift r) [] x"
  by (auto simp: parses_def slift_def advanced_refl)

lemma parses_sbind:
  assumes p: "parses p bs x" and k: "parses (k x) cs y"
  shows "parses (sbind p k) (bs @ cs) y"
  unfolding parses_def
proof (intro allI impI)
  fix d rest assume d: "decoder_ok d" and u: "unread d = (bs @ cs) @ rest"
  then obtain d1 where d1: "p d = (Ok x, d1)" "advanced d d1" "unread d1 = cs @ rest"
    using p unfolding parses_def by (metis append.assoc)
  then obtain d2 where "k x d1 = (Ok y, d2)" "advanced d1 d2" "unread d2 = rest"
    using k advanced_ok unfolding parses_def by blast
  with d1 show "\<exists>d'. sbind p k d = (Ok y, d') \<and> advanced d d' \<and> unread d' = rest"
    by (auto simp: sbind_def intro: advanced_trans)
qed

lemma parses_sbind_Nil: "parses p bs x \<Longrightarrow> parses (k x) [] y \<Longrightarrow> parses (sbind p k) bs y"
  using parses_sbind [of p bs x k "[]" y] by simp

lemma parses_readExact: "length b < 2 ^ 62 \<Longrightarrow> int (length b) = n \<Longrightarrow> parses (readExact n) b b"
  unfolding parses_def
  using readExact_enough [of _ "length b"] by fastforce

lemma parses_NewDecoder:
  assumes "parses p bs x" "length (bs @ rest) < 2 ^ 62"
  obtains d where "p (NewDecoder (bs @ rest)) = (Ok x, d)" "unread d = rest" "decoder_ok d"
  using assms NewDecoder_ok [OF assms(2)] unfolding parses_def
  by (metis advanced_ok unread_NewDecoder)

lemma bounded_no_panic: "bounded p \<Longrightarrow> decoder_ok d \<Longrightarrow> fst (p d) \<noteq> Panic"
  unfolding bounded_def reads_def by (fastforce split: prod.splits outcome.splits)

lemma bounded_advanced: "bounded p \<Longrightarrow> decoder_ok d \<Longrightarrow> advanced d (snd (p d))"
  unfolding bounded_def reads_def by (fastforce split: prod.splits outcome.splits)

lemma reads_Ok:
  assumes "reads p R" "decoder_ok d" "p d = (Ok x, d')"
  obtains bs where "unread d = bs @ unread d'" "R bs x" "advanced d d'"
  using assms unfolding reads_def by fastforce

section \<open>The primitive readers\<close>

lemma reads_ReadU8: "reads ReadU8 (\<lambda>bs x. bs = [x])"
  unfolding ReadU8_def
  by (rule reads_sbind [OF reads_readExact [of 1, simplified]])
     (auto intro!: reads_slift simp: length_Suc_conv)

lemma reads_ReadU16: "reads ReadU16 (\<lambda>bs x. bs = be16 x)"
  unfolding ReadU16_def
  by (rule reads_sbind [OF reads_readExact [of 2, simplified]])
     (auto intro!: reads_slift simp: be16_Uint16 dest: be_Uint16_total)

lemma reads_ReadU32: "reads ReadU32 (\<lambda>bs x. bs = be32 x)"
  unfolding ReadU32_def
  by (rule reads_sbind [OF reads_readExact [of 4, simplified]])
     (auto intro!: reads_slift simp: be32_Uint32 dest: be_Uint32_total)

lemma reads_ReadU64: "reads ReadU64 (\<lambda>bs x. bs = be64 x)"
  unfolding ReadU64_def
  by (rule reads_sbind [OF reads_readExact [of 8, simplified]])
     (auto intro!: reads_slift simp: be64_Uint64 dest: be_Uint64_total)

lemma reads_ReadBytes: "n \<le> 2 ^ 62 \<Longrightarrow> reads (ReadBytes (int n)) (\<lambda>bs x. bs = x \<and> length x = n)"
  unfolding ReadBytes_def by (rule reads_readExact)

lemma reads_ReadBool: "reads ReadBool (\<lambda>bs x. bs = [if x then 1 else 0])"
  unfolding ReadBool_def
  by (rule reads_sbind [OF reads_ReadU8]) (auto intro: reads_sret reads_sfail)

lemma word16_le: "unat (h :: u16) \<le> 2 ^ 62" and word32_le: "unat (w :: u32) \<le> 2 ^ 62"
  using unat16_less [of h] unat32_less [of w] by auto

lemma reads_ReadVarBytes:
  "reads ReadVarBytes (\<lambda>bs x. bs = be32 (of_nat (length x)) @ x \<and> length x < 2 ^ 32)"
proof -
  have *: "reads (readExact (uint l)) (\<lambda>c y. be32 l @ c = be32 (of_nat (length y)) @ y \<and>
    length y < 2 ^ 32)" for l :: u32
  proof -
    have "reads (readExact (int (unat l))) (\<lambda>c y. be32 l @ c = be32 (of_nat (length y)) @ y \<and>
      length y < 2 ^ 32)"
      by (rule reads_weaken [OF reads_readExact [OF word32_le [of l]]])
         (use unat32_less [of l] in auto)
    then show ?thesis by simp
  qed
  show ?thesis
    unfolding ReadVarBytes_def
    by (rule reads_sbind [OF reads_ReadU32], erule ssubst, rule *)
qed

lemma reads_ReadString:
  "reads ReadString (\<lambda>bs x. bs = be32 (of_nat (length x)) @ x \<and> length x < 2 ^ 32 \<and> utf8_Valid x)"
  unfolding ReadString_def
  by (rule reads_sbind [OF reads_ReadVarBytes]) (auto intro: reads_sret reads_sfail)

lemma parses_ReadU8: "parses ReadU8 [v] v"
  unfolding ReadU8_def
  by (rule parses_sbind_Nil [OF parses_readExact [of "[v]"]]) (auto intro: parses_slift)

lemma parses_ReadU16: "parses ReadU16 (be16 v) v"
  unfolding ReadU16_def
  by (rule parses_sbind_Nil [OF parses_readExact [of "be16 v"]]) (auto intro: parses_slift)

lemma parses_ReadU32: "parses ReadU32 (be32 v) v"
  unfolding ReadU32_def
  by (rule parses_sbind_Nil [OF parses_readExact [of "be32 v"]]) (auto intro: parses_slift)

lemma parses_ReadU64: "parses ReadU64 (be64 v) v"
  unfolding ReadU64_def
  by (rule parses_sbind_Nil [OF parses_readExact [of "be64 v"]]) (auto intro: parses_slift)

lemma parses_ReadBytes: "length b < 2 ^ 62 \<Longrightarrow> int (length b) = n \<Longrightarrow> parses (ReadBytes n) b b"
  unfolding ReadBytes_def by (rule parses_readExact)

lemma parses_ReadBool: "parses ReadBool [if v then 1 else 0] v"
  unfolding ReadBool_def
  by (rule parses_sbind_Nil [OF parses_ReadU8]) (auto intro: parses_sret)

lemma uint_of_nat32: "n < 2 ^ 32 \<Longrightarrow> uint (of_nat n :: u32) = int n"
  by (simp add: uint_nat unat_of_nat)

lemma parses_ReadVarBytes:
  "length b < 2 ^ 32 \<Longrightarrow> parses ReadVarBytes (be32 (of_nat (length b)) @ b) b"
  unfolding ReadVarBytes_def
  by (rule parses_sbind [OF parses_ReadU32])
     (auto intro!: parses_readExact simp: uint_of_nat32)

lemma parses_ReadString:
  "length b < 2 ^ 32 \<Longrightarrow> utf8_Valid b \<Longrightarrow> parses ReadString (be32 (of_nat (length b)) @ b) b"
  unfolding ReadString_def
  by (rule parses_sbind_Nil [OF parses_ReadVarBytes]) (auto intro: parses_sret)

text \<open>The result of \<open>ReadBytes\<close> for every 64-bit argument.\<close>

lemma ReadBytes_negative:
  assumes "decoder_ok d" "n < 0" "- (2 ^ 63) \<le> n"
  shows "fst (ReadBytes n d) = Panic"
proof -
  have "go_int (d_pos d + n) = d_pos d + n"
    using assms by (intro go_int_id) (auto simp: decoder_ok_def)
  then show ?thesis
    using assms by (simp add: ReadBytes_def readExact_def decoder_ok_def Let_def)
qed

lemma ReadBytes_wraps:
  assumes "decoder_ok d" "n < 2 ^ 63" "2 ^ 63 \<le> d_pos d + n"
  shows "fst (ReadBytes n d) = Panic"
proof -
  have "go_int (d_pos d + n) = d_pos d + n - 2 ^ 64"
    using assms by (intro go_int_overflow) (auto simp: decoder_ok_def)
  then show ?thesis
    using assms by (simp add: ReadBytes_def readExact_def decoder_ok_def Let_def)
qed

lemma ReadBytes_too_long:
  assumes "decoder_ok d" "int (length (unread d)) < n" "d_pos d + n < 2 ^ 63"
  shows "ReadBytes n d = (Err (CodecError BufferUnderflow), d)"
proof -
  have "go_int (d_pos d + n) = d_pos d + n"
    using assms by (intro go_int_id) (auto simp: decoder_ok_def)
  then show ?thesis
    using assms length_unread [OF assms(1)] by (simp add: ReadBytes_def readExact_def Let_def)
qed

section \<open>Wire formats as an interface\<close>

text \<open>
  What the rest of the model needs of a wire format: a writer, a reader and the values the
  writer is meant for. A \<open>codec\<close> reads back what was written, whatever follows it, and
  its reader is safe on every input; an \<open>exact_codec\<close> also reads nothing else, so that
  each value has one encoding.
\<close>

locale codec =
  fixes enc :: "'a \<Rightarrow> bytes"
    and dec :: "'a reader"
    and valid :: "'a \<Rightarrow> bool"
  assumes dec_enc: "valid x \<Longrightarrow> parses dec (enc x) x"
    and dec_bounded: "bounded dec"
begin

lemma decode_encoded:
  assumes "valid x" "length (enc x @ rest) < 2 ^ 62"
  shows "\<exists>d. dec (NewDecoder (enc x @ rest)) = (Ok x, d) \<and> unread d = rest \<and> decoder_ok d"
  using parses_NewDecoder [OF dec_enc [OF assms(1)] assms(2)] by metis

lemma never_panics: "length b < 2 ^ 62 \<Longrightarrow> fst (dec (NewDecoder b)) \<noteq> Panic"
  by (rule bounded_no_panic [OF dec_bounded NewDecoder_ok])

lemma stays_inside: "length b < 2 ^ 62 \<Longrightarrow> decoder_ok (snd (dec (NewDecoder b)))"
  by (rule advanced_ok [OF bounded_advanced [OF dec_bounded NewDecoder_ok]])

lemma prefix_free:
  assumes "valid x" "valid y" "enc x @ r = enc y @ s" "length (enc x @ r) < 2 ^ 62"
  shows "x = y \<and> r = s"
proof -
  from decode_encoded [OF assms(1,4)] obtain d where
    "dec (NewDecoder (enc x @ r)) = (Ok x, d)" "unread d = r" by blast
  moreover from decode_encoded [OF assms(2) assms(4) [unfolded assms(3)]] obtain d' where
    "dec (NewDecoder (enc y @ s)) = (Ok y, d')" "unread d' = s" by blast
  ultimately show ?thesis using assms(3) by simp
qed

lemma enc_inject:
  assumes "valid x" "valid y" "enc x = enc y" "length (enc x) < 2 ^ 62"
  shows "x = y"
  using prefix_free [OF assms(1,2), of "[]" "[]"] assms(3,4) by simp

end

locale exact_codec =
  fixes enc :: "'a \<Rightarrow> bytes"
    and dec :: "'a reader"
    and valid :: "'a \<Rightarrow> bool"
  assumes writes: "valid x \<Longrightarrow> parses dec (enc x) x"
    and enc_dec: "reads dec (\<lambda>bs x. valid x \<and> bs = enc x)"
begin

lemma accepts_iff:
  assumes "length b < 2 ^ 62"
  shows "(\<exists>d. dec (NewDecoder b) = (Ok x, d) \<and> unread d = rest) \<longleftrightarrow> valid x \<and> b = enc x @ rest"
proof
  assume "\<exists>d. dec (NewDecoder b) = (Ok x, d) \<and> unread d = rest"
  then show "valid x \<and> b = enc x @ rest"
    using reads_Ok [OF enc_dec NewDecoder_ok [OF assms]] by (metis unread_NewDecoder)
next
  assume "valid x \<and> b = enc x @ rest"
  then show "\<exists>d. dec (NewDecoder b) = (Ok x, d) \<and> unread d = rest"
    using parses_NewDecoder [OF writes [of x], of rest] assms by metis
qed

end

sublocale exact_codec \<subseteq> codec enc dec valid
  by unfold_locales (auto intro: writes reads_imp_bounded [OF enc_dec])

interpretation u8: exact_codec "\<lambda>v. [v]" ReadU8 "\<lambda>_. True"
  by unfold_locales (auto intro: parses_ReadU8 reads_weaken [OF reads_ReadU8])

interpretation bool: exact_codec "\<lambda>v. [if v then 1 else 0]" ReadBool "\<lambda>_. True"
  by unfold_locales (use parses_ReadBool in \<open>auto intro: reads_weaken [OF reads_ReadBool]\<close>)

interpretation u16: exact_codec be16 ReadU16 "\<lambda>_. True"
  by unfold_locales (auto intro: parses_ReadU16 reads_weaken [OF reads_ReadU16])

interpretation u32: exact_codec be32 ReadU32 "\<lambda>_. True"
  by unfold_locales (auto intro: parses_ReadU32 reads_weaken [OF reads_ReadU32])

interpretation u64: exact_codec be64 ReadU64 "\<lambda>_. True"
  by unfold_locales (auto intro: parses_ReadU64 reads_weaken [OF reads_ReadU64])

interpretation var_bytes: exact_codec "\<lambda>b. be32 (of_nat (length b)) @ b" ReadVarBytes
    "\<lambda>b. length b < 2 ^ 32"
  by unfold_locales (auto intro: parses_ReadVarBytes reads_weaken [OF reads_ReadVarBytes])

interpretation text_string: exact_codec "\<lambda>b. be32 (of_nat (length b)) @ b" ReadString
    "\<lambda>b. length b < 2 ^ 32 \<and> utf8_Valid b"
  by unfold_locales (auto intro: parses_ReadString reads_weaken [OF reads_ReadString])

section \<open>Rules for composed formats\<close>

text \<open>
  A composed reader is a chain of primitive readers. \<open>reads_steps\<close> follows the chain
  collecting what each reader consumed, \<open>parses_steps\<close> follows it along given bytes, and
  \<open>bounded_steps\<close> only checks that no step can panic or leave the buffer.
\<close>

lemma reads_ReadBytes_u16:
  "reads (ReadBytes (uint (w :: u16))) (\<lambda>bs x. bs = x \<and> length x = unat w)"
  using reads_ReadBytes [OF word16_le [of w]] by simp

lemma reads_ReadBytes_u32:
  "reads (ReadBytes (uint (w :: u32))) (\<lambda>bs x. bs = x \<and> length x = unat w)"
  using reads_ReadBytes [OF word32_le [of w]] by simp

lemma reads_ReadBytes_32: "reads (ReadBytes 32) (\<lambda>bs x. bs = x \<and> length x = 32)"
  using reads_ReadBytes [of 32] by simp

lemma reads_ReadBytes_64: "reads (ReadBytes 64) (\<lambda>bs x. bs = x \<and> length x = 64)"
  using reads_ReadBytes [of 64] by simp

lemmas reads_steps =
  reads_if reads_sfail reads_sret
  reads_sbind [OF reads_ReadU8] reads_sbind [OF reads_ReadU16] reads_sbind [OF reads_ReadU32]
  reads_sbind [OF reads_ReadU64] reads_sbind [OF reads_ReadBytes_u16]
  reads_sbind [OF reads_ReadBytes_u32] reads_sbind [OF reads_ReadBytes_32]
  reads_sbind [OF reads_ReadBytes_64]

lemma parses_if_not: "\<not> c \<Longrightarrow> parses q bs x \<Longrightarrow> parses (if c then p else q) bs x"
  by simp

lemma parses_ReadU8_Cons: "parses (k v) cs y \<Longrightarrow> parses (sbind ReadU8 k) (v # cs) y"
  using parses_sbind [OF parses_ReadU8, of k v cs y] by simp

lemma parses_sret_eq: "y = x \<Longrightarrow> parses (sret y) [] x"
  using parses_sret by simp

lemmas parses_steps =
  parses_if_not parses_sret_eq parses_ReadU8_Cons
  parses_sbind [OF parses_ReadU16] parses_sbind [OF parses_ReadU32]
  parses_sbind [OF parses_ReadU64] parses_sbind [OF parses_ReadBytes]
  parses_sbind_Nil [OF parses_ReadU16] parses_sbind_Nil [OF parses_ReadU32]
  parses_sbind_Nil [OF parses_ReadU64] parses_sbind_Nil [OF parses_ReadBytes]

lemmas bounded_steps =
  bounded_sbind bounded_sret bounded_sfail bounded_slift bounded_if
  u8.dec_bounded u16.dec_bounded u32.dec_bounded u64.dec_bounded
  reads_imp_bounded [OF reads_ReadBytes_u16] reads_imp_bounded [OF reads_ReadBytes_u32]
  reads_imp_bounded [OF reads_ReadBytes_32] reads_imp_bounded [OF reads_ReadBytes_64]

section \<open>Decoding a whole buffer\<close>

text \<open>The shape \<open>dec := NewDecoder(b); x, err := p(dec); if dec.Remaining() != 0 { error }\<close>
  that every parser of a complete message has.\<close>

definition decode_all :: "'a reader \<Rightarrow> go_error \<Rightarrow> bytes \<Rightarrow> 'a outcome" where
  "decode_all p e b = (case p (NewDecoder b) of
      (Ok x, d) \<Rightarrow> if Remaining d \<noteq> 0 then Err e else Ok x
    | (Err e', d) \<Rightarrow> Err e'
    | (Panic, d) \<Rightarrow> Panic)"

lemma decode_all_parses: "parses p b x \<Longrightarrow> length b < 2 ^ 62 \<Longrightarrow> decode_all p e b = Ok x"
  by (rule parses_NewDecoder [of p b x "[]"]) (auto simp: decode_all_def Remaining_0)

lemma decode_all_trailing:
  "parses p b x \<Longrightarrow> length (b @ rest) < 2 ^ 62 \<Longrightarrow> rest \<noteq> [] \<Longrightarrow> decode_all p e (b @ rest) = Err e"
  by (rule parses_NewDecoder [of p b x rest]) (auto simp: decode_all_def Remaining_0)

lemma decode_all_reads:
  assumes "reads p R" "length b < 2 ^ 62" "decode_all p e b = Ok x"
  shows "R b x"
proof -
  obtain r d where pd: "p (NewDecoder b) = (r, d)" by fastforce
  with assms(3) have r: "r = Ok x" "Remaining d = 0"
    by (auto simp: decode_all_def split: outcome.splits if_splits)
  from reads_Ok [OF assms(1) NewDecoder_ok [OF assms(2)] pd [unfolded r(1)]] obtain bs where
    "b = bs @ unread d" "R bs x" "advanced (NewDecoder b) d" by auto
  with r(2) show ?thesis by (simp add: Remaining_0 advanced_ok)
qed

lemma decode_all_no_panic: "bounded p \<Longrightarrow> length b < 2 ^ 62 \<Longrightarrow> decode_all p e b \<noteq> Panic"
  using bounded_no_panic [OF _ NewDecoder_ok, of p b]
  by (auto simp: decode_all_def split: prod.splits outcome.splits)

section \<open>Properties\<close>

text \<open>C15: reading a string accepts exactly what \<open>WriteString\<close> writes for valid UTF-8 text of fewer
  than \<open>2 ^ 32\<close> bytes, and leaves exactly the bytes after it unread.\<close>

theorem string_read_exact:
  assumes "length b < 2 ^ 62"
  shows "(\<exists>d. ReadString (NewDecoder b) = (Ok s, d) \<and> unread d = rest) \<longleftrightarrow>
    length s < 2 ^ 32 \<and> utf8_Valid s \<and> b = Encoder_Bytes (WriteString s NewEncoder) @ rest"
  using text_string.accepts_iff [OF assms, of s rest] by (simp add: encode_simps)

theorem string_read_exact_witness:
  "\<exists>d. ReadString (NewDecoder [0, 0, 0, 2, 0x68, 0x69, 7]) = (Ok [0x68, 0x69], d) \<and> unread d = [7]"
  using string_read_exact [of "[0, 0, 0, 2, 0x68, 0x69, 7]" "[0x68, 0x69]" "[7]"]
  by (simp add: encode_simps be32_def)

text \<open>C34: \<open>ReadBytes(n)\<close> for every 64-bit \<open>n\<close>: a negative count and a count whose end overflows the
  \<open>int\<close> panic, a count beyond the buffer is an underflow that moves nothing, and any other count
  returns the next \<open>n\<close> bytes and advances past them.\<close>

theorem ReadBytes_every_count:
  assumes "decoder_ok d" "- (2 ^ 63) \<le> n" "n < 2 ^ 63"
  shows "(n < 0 \<or> 2 ^ 63 \<le> d_pos d + n \<longrightarrow> fst (ReadBytes n d) = Panic) \<and>
    (0 \<le> n \<and> d_pos d + n < 2 ^ 63 \<and> Remaining d < n \<longrightarrow>
       ReadBytes n d = (Err (CodecError BufferUnderflow), d)) \<and>
    (0 \<le> n \<and> n \<le> Remaining d \<longrightarrow>
       fst (ReadBytes n d) = Ok (take (nat n) (unread d)) \<and>
       unread (snd (ReadBytes n d)) = drop (nat n) (unread d))"
proof (intro conjI impI)
  assume "n < 0 \<or> 2 ^ 63 \<le> d_pos d + n"
  then show "fst (ReadBytes n d) = Panic"
    using ReadBytes_negative [OF assms(1) _ assms(2)] ReadBytes_wraps [OF assms(1,3)] by blast
next
  assume n: "0 \<le> n \<and> d_pos d + n < 2 ^ 63 \<and> Remaining d < n"
  then have "go_int (d_pos d + n) = d_pos d + n"
    using assms(1) by (intro go_int_id) (auto simp: decoder_ok_def)
  then show "ReadBytes n d = (Err (CodecError BufferUnderflow), d)"
    using n assms(1) remaining_eq [OF assms(1)] length_unread [OF assms(1)]
    by (simp add: ReadBytes_def readExact_def Let_def decoder_ok_def)
next
  assume n: "0 \<le> n \<and> n \<le> Remaining d"
  then have "nat n \<le> length (unread d)" using remaining_eq [OF assms(1)] by linarith
  then obtain x r where x: "unread d = x @ r" "int (length x) = n"
    using n by (metis append_take_drop_id int_nat_eq length_take min.absorb2)
  moreover have "length x < 2 ^ 62" using length_unread_less [OF assms(1)] x(1) by simp
  ultimately obtain d' where d': "ReadBytes n d = (Ok x, d')" "unread d' = r"
    using parses_ReadBytes [of x n] assms(1) unfolding parses_def by blast
  have "take (nat n) (unread d) = x" "drop (nat n) (unread d) = r" using x by auto
  then show "fst (ReadBytes n d) = Ok (take (nat n) (unread d))"
    "unread (snd (ReadBytes n d)) = drop (nat n) (unread d)" using d' by simp_all
qed

theorem ReadBytes_every_count_witness:
  "fst (ReadBytes (- 1) (NewDecoder [1, 2])) = Panic \<and>
   ReadBytes 3 (NewDecoder [1, 2]) = (Err (CodecError BufferUnderflow), NewDecoder [1, 2])"
  using ReadBytes_every_count [of "NewDecoder [1, 2]" "- 1"] ReadBytes_every_count [of "NewDecoder [1, 2]" 3]
    NewDecoder_ok [of "[1, 2]"]
  by (simp add: Remaining_def remaining_def NewDecoder_def go_int_def)

end
