(* ===== verification/Frame.thy ===== *)
theory Frame
  imports Codec
begin

unbundle bit_operations_syntax

text \<open>
  Package \<open>transport/frame\<close> (\<open>transport/frame/frame.go\<close>): the outer envelope of every
  message, its encoding and its decoder. The format is an \<open>exact_codec\<close>: on the frames the
  decoder can produce (version 1, at most 16 MiB of payload) writing and reading are inverse
  to each other, and the decoder accepts nothing else.
\<close>

definition frame_Version :: byte where
  "frame_Version = 1"

definition MsgHeartbeat :: byte where
  "MsgHeartbeat = 0x03"

definition maxPayloadLen :: u32 where
  "maxPayloadLen = 16 * 1024 * 1024"

record frame =
  f_Version :: byte
  f_MsgType :: byte
  f_Flags :: byte
  f_Payload :: bytes

definition frame_New :: "byte \<Rightarrow> byte \<Rightarrow> bytes \<Rightarrow> frame" where
  "frame_New msgType flags payload =
     \<lparr>f_Version = frame_Version, f_MsgType = msgType, f_Flags = flags, f_Payload = payload\<rparr>"

definition Frame_Encode :: "frame \<Rightarrow> encoder \<Rightarrow> encoder" where
  "Frame_Encode f enc =
     (let enc = WriteU8 (f_Version f) enc;
          enc = WriteU8 (f_MsgType f) enc;
          enc = WriteU8 (f_Flags f) enc;
          enc = WriteU32 (of_nat (length (f_Payload f))) enc;
          enc = WriteBytes (f_Payload f) enc
      in enc)"

definition Frame_Decode :: "frame reader" where
  "Frame_Decode =
     sbind ReadU8 (\<lambda>version.
     if version \<noteq> frame_Version then sfail (FrameError UnsupportedFrameVersion) else
     sbind ReadU8 (\<lambda>msgType.
     sbind ReadU8 (\<lambda>flags.
     sbind ReadU32 (\<lambda>payloadLen.
     if payloadLen > maxPayloadLen then sfail (FrameError PayloadTooLarge) else
     sbind (ReadBytes (uint payloadLen)) (\<lambda>payload.
     sret \<lparr>f_Version = version, f_MsgType = msgType, f_Flags = flags, f_Payload = payload\<rparr>)))))"

section \<open>The format\<close>

definition frame_bytes :: "frame \<Rightarrow> bytes" where
  "frame_bytes f = Encoder_Bytes (Frame_Encode f NewEncoder)"

definition frame_valid :: "frame \<Rightarrow> bool" where
  "frame_valid f \<longleftrightarrow> f_Version f = frame_Version \<and> length (f_Payload f) \<le> unat maxPayloadLen"

lemma frame_bytes_eq:
  "frame_bytes f = f_Version f # f_MsgType f # f_Flags f #
     be32 (of_nat (length (f_Payload f))) @ f_Payload f"
  by (simp add: frame_bytes_def Frame_Encode_def Let_def encode_simps)

lemma Frame_Encode_appends: "e_buf (Frame_Encode f e) = e_buf e @ frame_bytes f"
  by (simp add: frame_bytes_eq Frame_Encode_def Let_def encode_simps)

lemma length_frame_bytes: "length (frame_bytes f) = 7 + length (f_Payload f)"
  by (simp add: frame_bytes_eq)

lemma maxPayloadLen_nat: "unat maxPayloadLen = 16777216"
  by (simp add: maxPayloadLen_def)

lemma frame_valid_length: "frame_valid f \<Longrightarrow> length (f_Payload f) < 2 ^ 32"
  by (simp add: frame_valid_def maxPayloadLen_nat)

lemma frame_valid_fits:
  "frame_valid f \<Longrightarrow> \<not> maxPayloadLen < of_nat (length (f_Payload f))"
  using frame_valid_length [of f]
  by (simp add: frame_valid_def word_less_nat_alt unat_of_nat not_less)

lemma frame_roundtrip: "frame_valid f \<Longrightarrow> parses Frame_Decode (frame_bytes f) f"
  unfolding Frame_Decode_def frame_bytes_eq
  by (intro parses_steps)
     (use frame_valid_length [of f] frame_valid_fits [of f] in
       \<open>auto simp: uint_of_nat32 frame_valid_def\<close>)

lemma frame_reads: "reads Frame_Decode (\<lambda>bs f. frame_valid f \<and> bs = frame_bytes f)"
  unfolding Frame_Decode_def
  by (intro reads_steps) (auto simp: frame_bytes_eq frame_valid_def word_less_nat_alt not_less)

interpretation frame_format: exact_codec frame_bytes Frame_Decode frame_valid
  by unfold_locales (auto intro: frame_roundtrip frame_reads)

section \<open>Properties\<close>

text \<open>C14: the frame decoder accepts exactly the encodings of version 1 frames with at most 16 MiB of
  payload: it returns \<open>f\<close> and leaves \<open>rest\<close> if and only if the buffer is what \<open>Encode\<close> writes for
  such an \<open>f\<close>, followed by \<open>rest\<close>.\<close>

theorem frame_decode_exact:
  assumes "length b < 2 ^ 62"
  shows "(\<exists>d. Frame_Decode (NewDecoder b) = (Ok f, d) \<and> unread d = rest) \<longleftrightarrow>
    f_Version f = frame_Version \<and> length (f_Payload f) \<le> 16777216 \<and>
    b = Encoder_Bytes (Frame_Encode f NewEncoder) @ rest"
  using frame_format.accepts_iff [OF assms, of f rest]
  by (simp add: frame_valid_def maxPayloadLen_nat frame_bytes_def conj_assoc)

theorem frame_decode_exact_witness:
  "\<exists>d. Frame_Decode (NewDecoder [1, 7, 0, 0, 0, 0, 1, 9, 5]) =
     (Ok \<lparr>f_Version = 1, f_MsgType = 7, f_Flags = 0, f_Payload = [9]\<rparr>, d) \<and> unread d = [5]"
  using frame_decode_exact [of "[1, 7, 0, 0, 0, 0, 1, 9, 5]"
      "\<lparr>f_Version = 1, f_MsgType = 7, f_Flags = 0, f_Payload = [9]\<rparr>" "[5]"]
  by (simp add: Frame_Encode_def Let_def encode_simps frame_Version_def be32_def)

end
