(* ===== verification/App_Message.thy ===== *)
theory App_Message
  imports Frame
begin

unbundle bit_operations_syntax

text \<open>
  The message formats of package \<open>app\<close> (\<open>app/app.go\<close>): application messages inside
  \<open>APP_MESSAGE\<close> frames, and the ACK/NAK and CHUNK payloads inside messages. A message is an
  \<open>exact_codec\<close>; the parsers of frames, acknowledgements and chunks accept trailing bytes,
  which the lemmas state as they are.
\<close>

section \<open>Messages\<close>

definition MsgAppMessage :: byte where
  "MsgAppMessage = 0x10"

definition AppTypeData :: u16 where "AppTypeData = 0x01"

definition AppTypeAck :: u16 where "AppTypeAck = 0x02"

definition AppTypeNak :: u16 where "AppTypeNak = 0x03"

definition AppTypeChunk :: u16 where "AppTypeChunk = 0x10"

record message =
  m_ChannelID :: u32
  m_Seq :: u32
  m_MsgType :: u16
  m_Payload :: bytes

definition NewMessage :: "u32 \<Rightarrow> u32 \<Rightarrow> u16 \<Rightarrow> bytes \<Rightarrow> message" where
  "NewMessage channelID seq msgType payload =
     \<lparr>m_ChannelID = channelID, m_Seq = seq, m_MsgType = msgType, m_Payload = payload\<rparr>"

definition Message_Encode :: "message \<Rightarrow> encoder \<Rightarrow> encoder" where
  "Message_Encode m enc =
     (let enc = WriteU32 (m_ChannelID m) enc;
          enc = WriteU32 (m_Seq m) enc;
          enc = WriteU16 (m_MsgType m) enc;
          enc = WriteU32 (of_nat (length (m_Payload m))) enc;
          enc = WriteBytes (m_Payload m) enc
      in enc)"

definition maxAppPayload :: u32 where
  "maxAppPayload = 8 * 1024 * 1024"

definition Message_Decode :: "message reader" where
  "Message_Decode =
     sbind ReadU32 (\<lambda>channelID.
     sbind ReadU32 (\<lambda>seq.
     sbind ReadU16 (\<lambda>msgType.
     sbind ReadU32 (\<lambda>len.
     if len > maxAppPayload then sfail (AppError AppPayloadTooLarge) else
     sbind (ReadBytes (uint len)) (\<lambda>payload.
     sret \<lparr>m_ChannelID = channelID, m_Seq = seq, m_MsgType = msgType, m_Payload = payload\<rparr>)))))"

definition Message_ToFrame :: "message \<Rightarrow> frame" where
  "Message_ToFrame m =
     frame_New MsgAppMessage 0 (Encoder_Bytes (Message_Encode m NewEncoder))"

definition FromFrame :: "frame \<Rightarrow> message outcome" where
  "FromFrame f =
     (if f_MsgType f \<noteq> MsgAppMessage then Err (AppError ExpectedAppMessage)
      else fst (Message_Decode (NewDecoder (f_Payload f))))"

definition message_bytes :: "message \<Rightarrow> bytes" where
  "message_bytes m = Encoder_Bytes (Message_Encode m NewEncoder)"

definition message_valid :: "message \<Rightarrow> bool" where
  "message_valid m \<longleftrightarrow> length (m_Payload m) \<le> unat maxAppPayload"

lemma message_bytes_eq:
  "message_bytes m = be32 (m_ChannelID m) @ be32 (m_Seq m) @ be16 (m_MsgType m) @
     be32 (of_nat (length (m_Payload m))) @ m_Payload m"
  by (simp add: message_bytes_def Message_Encode_def Let_def encode_simps)

lemma length_message_bytes: "length (message_bytes m) = 14 + length (m_Payload m)"
  by (simp add: message_bytes_eq)

lemma maxAppPayload_nat: "unat maxAppPayload = 8388608"
  by (simp add: maxAppPayload_def)

lemma message_valid_length: "message_valid m \<Longrightarrow> length (m_Payload m) < 2 ^ 32"
  by (simp add: message_valid_def maxAppPayload_nat)

lemma message_valid_iff_fits:
  "length (m_Payload m) < 2 ^ 32 \<Longrightarrow>
     message_valid m \<longleftrightarrow> \<not> maxAppPayload < of_nat (length (m_Payload m))"
  by (simp add: message_valid_def word_less_nat_alt unat_of_nat not_less)

lemma message_roundtrip: "message_valid m \<Longrightarrow> parses Message_Decode (message_bytes m) m"
  unfolding Message_Decode_def message_bytes_eq
  by (intro parses_steps)
     (use message_valid_length [of m] message_valid_iff_fits [of m] in
       \<open>auto simp: uint_of_nat32\<close>)

lemma message_reads: "reads Message_Decode (\<lambda>bs m. message_valid m \<and> bs = message_bytes m)"
  unfolding Message_Decode_def
  by (intro reads_steps)
     (auto simp: message_bytes_eq message_valid_def word_less_nat_alt not_less)

interpretation message_format: exact_codec message_bytes Message_Decode message_valid
  by unfold_locales (auto intro: message_roundtrip message_reads)

lemma f_Payload_ToFrame: "f_Payload (Message_ToFrame m) = message_bytes m"
  by (simp add: Message_ToFrame_def frame_New_def message_bytes_def)

lemma ToFrame_header:
  "f_Version (Message_ToFrame m) = frame_Version" "f_MsgType (Message_ToFrame m) = MsgAppMessage"
  "f_Flags (Message_ToFrame m) = 0"
  by (simp_all add: Message_ToFrame_def frame_New_def)

text \<open>A message within its limit is within the frame's limit too.\<close>

lemma ToFrame_valid: "message_valid m \<Longrightarrow> frame_valid (Message_ToFrame m)"
  by (simp add: frame_valid_def ToFrame_header f_Payload_ToFrame length_message_bytes
      maxPayloadLen_nat message_valid_def maxAppPayload_nat)

lemma FromFrame_ToFrame: "message_valid m \<Longrightarrow> FromFrame (Message_ToFrame m) = Ok m"
  using message_format.decode_encoded [of m "[]"]
  by (auto simp: FromFrame_def ToFrame_header f_Payload_ToFrame length_message_bytes
      message_valid_def maxAppPayload_nat)

text \<open>What \<open>FromFrame\<close> accepts: the encoding of a message followed by anything.\<close>

lemma FromFrame_Ok_iff:
  assumes "length (f_Payload f) < 2 ^ 62"
  shows "FromFrame f = Ok m \<longleftrightarrow>
    f_MsgType f = MsgAppMessage \<and> message_valid m \<and> (\<exists>rest. f_Payload f = message_bytes m @ rest)"
proof -
  have "fst (Message_Decode (NewDecoder (f_Payload f))) = Ok m \<longleftrightarrow>
    (\<exists>rest d. Message_Decode (NewDecoder (f_Payload f)) = (Ok m, d) \<and> unread d = rest)"
    by (metis fst_conv prod.collapse)
  also have "\<dots> \<longleftrightarrow> (\<exists>rest. message_valid m \<and> f_Payload f = message_bytes m @ rest)"
    by (simp only: message_format.accepts_iff [OF assms])
  finally show ?thesis by (auto simp: FromFrame_def)
qed

lemma FromFrame_never_panics: "length (f_Payload f) < 2 ^ 62 \<Longrightarrow> FromFrame f \<noteq> Panic"
  by (simp add: FromFrame_def message_format.never_panics)

text \<open>A payload above 8 MiB is written without complaint and refused by the receiver.\<close>

lemma message_too_large:
  assumes "\<not> message_valid m" "length (m_Payload m) < 2 ^ 32"
  shows "FromFrame (Message_ToFrame m) = Err (AppError AppPayloadTooLarge)"
proof -
  have len: "maxAppPayload < of_nat (length (m_Payload m))"
    using assms message_valid_iff_fits by blast
  define p where "p = sbind ReadU32 (\<lambda>channelID. sbind ReadU32 (\<lambda>seq.
    sbind ReadU16 (\<lambda>msgType. sbind ReadU32 (\<lambda>l. sret (channelID, seq, msgType, l)))))"
  have "parses p (be32 (m_ChannelID m) @ be32 (m_Seq m) @ be16 (m_MsgType m) @
      be32 (of_nat (length (m_Payload m))))
      (m_ChannelID m, m_Seq m, m_MsgType m, of_nat (length (m_Payload m)))"
    unfolding p_def by (intro parses_steps) simp
  then obtain d where
    "p (NewDecoder (message_bytes m)) =
       (Ok (m_ChannelID m, m_Seq m, m_MsgType m, of_nat (length (m_Payload m))), d)"
    by (rule parses_NewDecoder [where rest = "m_Payload m"])
       (use assms(2) in \<open>auto simp: message_bytes_eq\<close>)
  then have "fst (Message_Decode (NewDecoder (message_bytes m))) = Err (AppError AppPayloadTooLarge)"
    using len by (auto simp: p_def Message_Decode_def method_simps split: prod.splits outcome.splits)
  then show ?thesis by (simp add: FromFrame_def ToFrame_header f_Payload_ToFrame)
qed

section \<open>Acknowledgements\<close>

record ack =
  a_ChannelID :: u32
  a_AckedSeq :: u32
  a_IsNak :: bool

definition NewAck :: "u32 \<Rightarrow> u32 \<Rightarrow> ack" where
  "NewAck channelID ackedSeq = \<lparr>a_ChannelID = channelID, a_AckedSeq = ackedSeq, a_IsNak = False\<rparr>"

definition NewNak :: "u32 \<Rightarrow> u32 \<Rightarrow> ack" where
  "NewNak channelID ackedSeq = \<lparr>a_ChannelID = channelID, a_AckedSeq = ackedSeq, a_IsNak = True\<rparr>"

definition Ack_ToMessage :: "ack \<Rightarrow> u32 \<Rightarrow> message outcome" where
  "Ack_ToMessage a seq =
     (let enc = WriteU32 (a_AckedSeq a) NewEncoder;
          msgType = (if a_IsNak a then AppTypeNak else AppTypeAck)
      in Ok \<lparr>m_ChannelID = a_ChannelID a, m_Seq = seq, m_MsgType = msgType,
             m_Payload = Encoder_Bytes enc\<rparr>)"

definition AckFromMessage :: "message \<Rightarrow> ack outcome" where
  "AckFromMessage msg =
     (if m_MsgType msg \<noteq> AppTypeAck \<and> m_MsgType msg \<noteq> AppTypeNak then Err (AppError NotAckNak)
      else obind (fst (ReadU32 (NewDecoder (m_Payload msg)))) (\<lambda>acked.
        Ok \<lparr>a_ChannelID = m_ChannelID msg, a_AckedSeq = acked,
            a_IsNak = (m_MsgType msg = AppTypeNak)\<rparr>))"

lemma Ack_ToMessage_total: "\<exists>m. Ack_ToMessage a seq = Ok m \<and> message_valid m \<and>
    m_ChannelID m = a_ChannelID a \<and> m_Seq m = seq"
  by (simp add: Ack_ToMessage_def Let_def message_valid_def maxAppPayload_nat encode_simps)

lemma Ack_roundtrip: "obind (Ack_ToMessage a seq) AckFromMessage = Ok a"
  using u32.decode_encoded [of "a_AckedSeq a" "[]"]
  by (auto simp: Ack_ToMessage_def AckFromMessage_def Let_def encode_simps AppTypeAck_def
      AppTypeNak_def)

section \<open>Chunks\<close>

record chunk =
  c_ChannelID :: u32
  c_Seq :: u32
  c_ChunkIndex :: u32
  c_ChunkTotal :: u32
  c_Payload :: bytes

definition Chunk_ToMessage :: "chunk \<Rightarrow> message outcome" where
  "Chunk_ToMessage c =
     (let enc = WriteU32 (c_ChunkIndex c) NewEncoder;
          enc = WriteU32 (c_ChunkTotal c) enc;
          enc = WriteU32 (of_nat (length (c_Payload c))) enc;
          enc = WriteBytes (c_Payload c) enc
      in Ok \<lparr>m_ChannelID = c_ChannelID c, m_Seq = c_Seq c, m_MsgType = AppTypeChunk,
             m_Payload = Encoder_Bytes enc\<rparr>)"

definition Chunk_Read :: "message \<Rightarrow> chunk reader" where
  "Chunk_Read msg =
     sbind ReadU32 (\<lambda>idx.
     sbind ReadU32 (\<lambda>total.
     sbind ReadU32 (\<lambda>len.
     sbind (ReadBytes (uint len)) (\<lambda>payload.
     sret \<lparr>c_ChannelID = m_ChannelID msg, c_Seq = m_Seq msg, c_ChunkIndex = idx,
           c_ChunkTotal = total, c_Payload = payload\<rparr>))))"

definition ChunkFromMessage :: "message \<Rightarrow> chunk outcome" where
  "ChunkFromMessage msg =
     (if m_MsgType msg \<noteq> AppTypeChunk then Err (AppError NotChunk)
      else fst (Chunk_Read msg (NewDecoder (m_Payload msg))))"

definition chunk_valid :: "chunk \<Rightarrow> bool" where
  "chunk_valid c \<longleftrightarrow> length (c_Payload c) < 2 ^ 32"

lemma chunk_parses:
  assumes "chunk_valid c" "m_ChannelID msg = c_ChannelID c" "m_Seq msg = c_Seq c"
  shows "parses (Chunk_Read msg) (be32 (c_ChunkIndex c) @ be32 (c_ChunkTotal c) @
    be32 (of_nat (length (c_Payload c))) @ c_Payload c) c"
  unfolding Chunk_Read_def
  by (intro parses_steps) (use assms in \<open>auto simp: uint_of_nat32 chunk_valid_def\<close>)

lemma Chunk_roundtrip:
  assumes "chunk_valid c"
  shows "obind (Chunk_ToMessage c) ChunkFromMessage = Ok c"
proof -
  define msg where "msg = \<lparr>m_ChannelID = c_ChannelID c, m_Seq = c_Seq c,
    m_MsgType = AppTypeChunk, m_Payload = be32 (c_ChunkIndex c) @ be32 (c_ChunkTotal c) @
    be32 (of_nat (length (c_Payload c))) @ c_Payload c\<rparr>"
  have "Chunk_ToMessage c = Ok msg"
    by (simp add: msg_def Chunk_ToMessage_def Let_def encode_simps)
  moreover have "parses (Chunk_Read msg) (m_Payload msg) c"
    using chunk_parses [OF assms, of msg] by (simp add: msg_def)
  then obtain d where "Chunk_Read msg (NewDecoder (m_Payload msg)) = (Ok c, d)"
    by (rule parses_NewDecoder [where rest = "[]"])
       (use assms in \<open>auto simp: msg_def chunk_valid_def\<close>)
  moreover have "m_MsgType msg = AppTypeChunk" by (simp add: msg_def)
  ultimately show ?thesis by (simp add: ChunkFromMessage_def)
qed

lemma Chunk_ToMessage_valid:
  assumes "length (c_Payload c) + 12 \<le> unat maxAppPayload"
  shows "\<exists>m. Chunk_ToMessage c = Ok m \<and> message_valid m"
  using assms by (simp add: Chunk_ToMessage_def Let_def message_valid_def encode_simps)

lemma bounded_Chunk_Read: "bounded (Chunk_Read msg)"
  unfolding Chunk_Read_def by (intro bounded_steps)

lemma app_parsers_never_panic:
  assumes "length (m_Payload msg) < 2 ^ 62"
  shows "AckFromMessage msg \<noteq> Panic" "ChunkFromMessage msg \<noteq> Panic"
  using u32.never_panics [OF assms] bounded_no_panic [OF bounded_Chunk_Read NewDecoder_ok [OF assms]]
  by (auto simp: AckFromMessage_def ChunkFromMessage_def obind_eq_Panic)

section \<open>Properties\<close>

text \<open>C30: a message put in a frame and taken out again comes back unchanged when its payload has at
  most 8 MiB, and is refused as too large when it has more; the sender is not told.\<close>

theorem message_through_frame:
  assumes "length (m_Payload m) < 2 ^ 32"
  shows "FromFrame (Message_ToFrame m) =
    (if length (m_Payload m) \<le> 8388608 then Ok m else Err (AppError AppPayloadTooLarge))"
  using FromFrame_ToFrame [of m] message_too_large [OF _ assms]
  by (simp add: message_valid_def maxAppPayload_nat)

theorem message_through_frame_witness:
  "FromFrame (Message_ToFrame \<lparr>m_ChannelID = 1, m_Seq = 2, m_MsgType = 3, m_Payload = [4]\<rparr>) =
    Ok \<lparr>m_ChannelID = 1, m_Seq = 2, m_MsgType = 3, m_Payload = [4]\<rparr>"
  using message_through_frame [of "\<lparr>m_ChannelID = 1, m_Seq = 2, m_MsgType = 3, m_Payload = [4]\<rparr>"]
  by simp

text \<open>\<open>FromFrame\<close> takes a message from the start of the payload and ignores whatever follows it:
  it succeeds exactly on application frames whose payload begins with a message's encoding.\<close>

lemma message_parse_ignores_rest:
  assumes "length (f_Payload f) < 2 ^ 62"
  shows "FromFrame f = Ok m \<longleftrightarrow> f_MsgType f = MsgAppMessage \<and> length (m_Payload m) \<le> 8388608 \<and>
    (\<exists>rest. f_Payload f = Encoder_Bytes (Message_Encode m NewEncoder) @ rest)"
  using FromFrame_Ok_iff [OF assms, of m] by (simp add: message_valid_def maxAppPayload_nat message_bytes_def)

text \<open>C31: acknowledgements and chunks survive being turned into messages and sent in frames.\<close>

theorem ack_chunk_roundtrip:
  assumes "length (c_Payload c) + 12 \<le> 8388608"
  shows "obind (Ack_ToMessage a seq) (\<lambda>m. obind (FromFrame (Message_ToFrame m)) AckFromMessage) = Ok a \<and>
    obind (Chunk_ToMessage c) (\<lambda>m. obind (FromFrame (Message_ToFrame m)) ChunkFromMessage) = Ok c"
proof -
  obtain m where m: "Ack_ToMessage a seq = Ok m" "message_valid m" using Ack_ToMessage_total by blast
  obtain n where n: "Chunk_ToMessage c = Ok n" "message_valid n"
    using Chunk_ToMessage_valid [of c] assms by (auto simp: maxAppPayload_nat)
  show ?thesis
    using m n Ack_roundtrip [of a seq] Chunk_roundtrip [of c] assms
    by (simp add: FromFrame_ToFrame chunk_valid_def)
qed

theorem ack_chunk_roundtrip_witness:
  "obind (Ack_ToMessage (NewNak 3 4) 5) (\<lambda>m. obind (FromFrame (Message_ToFrame m)) AckFromMessage) =
    Ok (NewNak 3 4)"
  using ack_chunk_roundtrip [of "\<lparr>c_ChannelID = 1, c_Seq = 2, c_ChunkIndex = 0, c_ChunkTotal = 1,
    c_Payload = [7]\<rparr>" "NewNak 3 4" 5] by simp

end
