(* ===== verification/App_Inbox.thy ===== *)
theory App_Inbox
  imports App_Message
begin

unbundle bit_operations_syntax

text \<open>
  The stateful parts of package \<open>app\<close> (\<open>app/app.go\<close>): the shared \<open>Inbox\<close>, the
  \<open>Messenger\<close> and the \<open>StableSubscriberSet\<close>.

  An \<open>Inbox\<close> is a pointer to a mutex-protected queue, and every copy of it shares that
  queue, so the queues live in a store and an \<open>Inbox\<close> is a reference (\<open>None\<close> is the nil
  pointer of the zero value, whose use panics). Each method holds the mutex from its first
  to its last access, so it is one step on the store and a concurrent run is an
  interleaving of such steps.
\<close>

section \<open>The store of inbox queues\<close>

record store =
  st_next :: nat
  st_queue :: "nat \<Rightarrow> message list"

type_synonym inbox = "nat option"

definition NewInbox :: "store \<Rightarrow> inbox \<times> store" where
  "NewInbox st =
     (Some (st_next st),
      st\<lparr>st_next := Suc (st_next st), st_queue := (st_queue st)(st_next st := [])\<rparr>)"

definition Inbox_Push :: "inbox \<Rightarrow> message \<Rightarrow> (store, unit) go_method" where
  "Inbox_Push i m st = (case i of
       None \<Rightarrow> (Panic, st)
     | Some r \<Rightarrow> (Ok (), st\<lparr>st_queue := (st_queue st)(r := st_queue st r @ [m])\<rparr>))"

definition Inbox_Pop :: "inbox \<Rightarrow> (store, message option) go_method" where
  "Inbox_Pop i st = (case i of
       None \<Rightarrow> (Panic, st)
     | Some r \<Rightarrow> (case st_queue st r of
           [] \<Rightarrow> (Ok None, st)
         | m # q \<Rightarrow> (Ok (Some m), st\<lparr>st_queue := (st_queue st)(r := q)\<rparr>)))"

text \<open>The loop over the queue: \<open>before\<close> is \<open>queue[:idx]\<close>.\<close>

fun pop_channel_loop :: "u32 \<Rightarrow> message list \<Rightarrow> message list \<Rightarrow>
    (message \<times> message list) option" where
  "pop_channel_loop c before [] = None"
| "pop_channel_loop c before (m # rest) =
     (if m_ChannelID m = c then Some (m, before @ rest)
      else pop_channel_loop c (before @ [m]) rest)"

definition Inbox_PopChannel :: "inbox \<Rightarrow> u32 \<Rightarrow> (store, message option) go_method" where
  "Inbox_PopChannel i c st = (case i of
       None \<Rightarrow> (Panic, st)
     | Some r \<Rightarrow> (case pop_channel_loop c [] (st_queue st r) of
           None \<Rightarrow> (Ok None, st)
         | Some (m, q) \<Rightarrow> (Ok (Some m), st\<lparr>st_queue := (st_queue st)(r := q)\<rparr>)))"

definition Inbox_Len :: "inbox \<Rightarrow> (store, nat) go_method" where
  "Inbox_Len i st = (case i of None \<Rightarrow> (Panic, st) | Some r \<Rightarrow> (Ok (length (st_queue st r)), st))"

lemma pop_channel_loop_None:
  "\<forall>m\<in>set q. m_ChannelID m \<noteq> c \<Longrightarrow> pop_channel_loop c before q = None"
  by (induction c before q rule: pop_channel_loop.induct) auto

lemma pop_channel_loop_Some:
  "\<forall>m\<in>set xs. m_ChannelID m \<noteq> c \<Longrightarrow> m_ChannelID m = c \<Longrightarrow>
     pop_channel_loop c before (xs @ m # ys) = Some (m, before @ xs @ ys)"
  by (induction xs arbitrary: before) auto

section \<open>The inbox as a queue of channels\<close>

text \<open>
  The contract the messenger and the router rely on: pushes append, \<open>pop\<close> takes the
  oldest message, \<open>pop_on\<close> takes the oldest message of one channel and leaves the others in
  place. \<open>answers_of\<close> states it on a plain list: what each operation of a sequence answers
  and what is queued in the end. \<open>run_inbox\<close> runs such a sequence on an implementation.
\<close>

datatype ('m, 'c) inbox_op = DoPush 'm | DoPop | DoPopOn 'c

fun answers_of :: "('m \<Rightarrow> 'c) \<Rightarrow> ('m, 'c) inbox_op list \<Rightarrow> 'm list \<Rightarrow> 'm option list \<times> 'm list" where
  "answers_of chan [] q = ([], q)"
| "answers_of chan (DoPush m # ops) q =
     (let (as, q') = answers_of chan ops (q @ [m]) in (None # as, q'))"
| "answers_of chan (DoPop # ops) q =
     (let (as, q') = answers_of chan ops (tl q)
      in ((if q = [] then None else Some (hd q)) # as, q'))"
| "answers_of chan (DoPopOn c # ops) q =
     (let (as, q') = answers_of chan ops
        (takeWhile (\<lambda>m. chan m \<noteq> c) q @ tl (dropWhile (\<lambda>m. chan m \<noteq> c) q))
      in (find (\<lambda>m. chan m = c) q # as, q'))"

fun run_inbox :: "('m \<Rightarrow> 's \<Rightarrow> 's) \<Rightarrow> ('s \<Rightarrow> 'm option \<times> 's) \<Rightarrow> ('c \<Rightarrow> 's \<Rightarrow> 'm option \<times> 's) \<Rightarrow>
    ('m, 'c) inbox_op list \<Rightarrow> 's \<Rightarrow> 'm option list \<times> 's" where
  "run_inbox push pop pop_on [] s = ([], s)"
| "run_inbox push pop pop_on (DoPush m # ops) s =
     (let (as, s') = run_inbox push pop pop_on ops (push m s) in (None # as, s'))"
| "run_inbox push pop pop_on (DoPop # ops) s =
     (let (a, s1) = pop s; (as, s2) = run_inbox push pop pop_on ops s1 in (a # as, s2))"
| "run_inbox push pop pop_on (DoPopOn c # ops) s =
     (let (a, s1) = pop_on c s; (as, s2) = run_inbox push pop pop_on ops s1 in (a # as, s2))"

fun pushed :: "('m, 'c) inbox_op list \<Rightarrow> 'm list" where
  "pushed [] = []"
| "pushed (DoPush m # ops) = m # pushed ops"
| "pushed (_ # ops) = pushed ops"

text \<open>What the operations handed out: all of it, and what was asked for on one channel.\<close>

definition received :: "'m option list \<Rightarrow> 'm list" where
  "received as = List.map_filter (\<lambda>a. a) as"

fun answers_on :: "'c \<Rightarrow> ('m, 'c) inbox_op list \<Rightarrow> 'm option list \<Rightarrow> 'm list" where
  "answers_on c (DoPopOn k # ops) (Some m # as) =
     (if k = c then m # answers_on c ops as else answers_on c ops as)"
| "answers_on c (_ # ops) (_ # as) = answers_on c ops as"
| "answers_on c _ _ = []"

lemma received_simps [simp]:
  "received [] = []" "received (None # as) = received as" "received (Some m # as) = m # received as"
  by (simp_all add: received_def List.map_filter_simps)

lemma find_dropWhile: "find P q = (case dropWhile (\<lambda>m. \<not> P m) q of [] \<Rightarrow> None | m # _ \<Rightarrow> Some m)"
  by (induction q) auto

lemma filter_without_first:
  "dropWhile (\<lambda>m. \<not> P m) q = m # ys \<Longrightarrow>
    filter Q q = filter Q (takeWhile (\<lambda>m. \<not> P m) q) @ (if Q m then [m] else []) @ filter Q ys"
proof -
  assume "dropWhile (\<lambda>m. \<not> P m) q = m # ys"
  then have "q = takeWhile (\<lambda>m. \<not> P m) q @ m # ys" by (metis takeWhile_dropWhile_id)
  then have "filter Q q = filter Q (takeWhile (\<lambda>m. \<not> P m) q @ m # ys)" by (rule arg_cong)
  then show ?thesis by simp
qed

text \<open>Whatever the sequence, each channel is a FIFO queue: what has been received on it,
  followed by what is still queued on it, is what was queued and pushed, in order.\<close>

lemma per_channel_fifo:
  "answers_of chan ops q = (as, q') \<Longrightarrow>
    filter (\<lambda>m. chan m = c) (received as @ q') = filter (\<lambda>m. chan m = c) (q @ pushed ops)"
proof (induction ops arbitrary: q as)
  case (Cons a ops)
  show ?case
  proof (cases a)
    case (DoPush m)
    with Cons show ?thesis by (fastforce split: prod.splits)
  next
    case DoPop
    with Cons show ?thesis by (cases q) (fastforce split: prod.splits)+
  next
    case (DoPopOn k)
    let ?rest = "takeWhile (\<lambda>m. chan m \<noteq> k) q @ tl (dropWhile (\<lambda>m. chan m \<noteq> k) q)"
    obtain as1 where as1: "answers_of chan ops ?rest = (as1, q')"
      "as = find (\<lambda>m. chan m = k) q # as1"
      using Cons.prems DoPopOn by (auto split: prod.splits)
    have IH: "filter (\<lambda>m. chan m = c) (received as1 @ q') =
        filter (\<lambda>m. chan m = c) (?rest @ pushed ops)" by (rule Cons.IH [OF as1(1)])
    show ?thesis
    proof (cases "dropWhile (\<lambda>m. chan m \<noteq> k) q")
      case Nil
      then have "takeWhile (\<lambda>m. chan m \<noteq> k) q = q" by (metis append_Nil2 takeWhile_dropWhile_id)
      with Nil IH as1(2) DoPopOn show ?thesis
        by (simp add: find_dropWhile del: takeWhile_eq_all_conv dropWhile_eq_Nil_conv)
    next
      case (Cons m ys)
      have "chan m = k" using hd_dropWhile [of "\<lambda>m. chan m \<noteq> k" q] Cons by simp
      moreover have "chan m = c \<Longrightarrow> filter (\<lambda>m. chan m = c) (takeWhile (\<lambda>m. chan m \<noteq> k) q) = []"
        using \<open>chan m = k\<close> by (auto simp: filter_empty_conv dest: set_takeWhileD)
      ultimately show ?thesis
        using IH as1(2) DoPopOn Cons filter_without_first [of "\<lambda>m. chan m = k" q m ys "\<lambda>m. chan m = c"]
        by (auto simp: find_dropWhile)
    qed
  qed
qed auto

text \<open>An answer to a request for a channel is a message of that channel.\<close>

lemma answers_on_channel:
  "answers_of chan ops q = (as, q') \<Longrightarrow> list_all (\<lambda>m. chan m = c) (answers_on c ops as)"
proof (induction ops arbitrary: q as)
  case (Cons a ops)
  show ?case
  proof (cases a)
    case (DoPopOn k)
    then obtain as1 where "answers_of chan ops
        (takeWhile (\<lambda>m. chan m \<noteq> k) q @ tl (dropWhile (\<lambda>m. chan m \<noteq> k) q)) = (as1, q')"
      "as = find (\<lambda>m. chan m = k) q # as1"
      using Cons.prems by (auto split: prod.splits)
    with Cons.IH DoPopOn show ?thesis
      by (cases "find (\<lambda>m. chan m = k) q") (auto simp: find_Some_iff)
  qed (use Cons in \<open>auto split: prod.splits\<close>)
qed simp

locale channel_inbox =
  fixes contents :: "'s \<Rightarrow> 'm list"
    and push :: "'m \<Rightarrow> 's \<Rightarrow> 's"
    and pop :: "'s \<Rightarrow> 'm option \<times> 's"
    and pop_on :: "'c \<Rightarrow> 's \<Rightarrow> 'm option \<times> 's"
    and chan :: "'m \<Rightarrow> 'c"
  assumes contents_push: "contents (push m s) = contents s @ [m]"
    and pop_empty: "contents s = [] \<Longrightarrow> pop s = (None, s)"
    and pop_oldest: "contents s = m # ms \<Longrightarrow> fst (pop s) = Some m \<and> contents (snd (pop s)) = ms"
    and pop_on_absent: "\<forall>m\<in>set (contents s). chan m \<noteq> c \<Longrightarrow> pop_on c s = (None, s)"
    and pop_on_oldest: "contents s = xs @ m # ys \<Longrightarrow> \<forall>x\<in>set xs. chan x \<noteq> c \<Longrightarrow> chan m = c \<Longrightarrow>
      fst (pop_on c s) = Some m \<and> contents (snd (pop_on c s)) = xs @ ys"
begin

lemma pop_cases:
  obtains "contents s = []" "pop s = (None, s)"
  | m s' where "pop s = (Some m, s')" "contents s = m # contents s'"
proof (cases "contents s")
  case Nil
  then show ?thesis by (rule that(1)) (rule pop_empty [OF Nil])
next
  case (Cons m ms)
  from pop_oldest [OF Cons] have "pop s = (Some m, snd (pop s))"
    by (simp add: prod_eq_iff)
  moreover from pop_oldest [OF Cons] Cons have "contents s = m # contents (snd (pop s))" by simp
  ultimately show ?thesis by (rule that(2))
qed

lemma pop_on_cases:
  obtains "\<forall>m\<in>set (contents s). chan m \<noteq> c" "pop_on c s = (None, s)"
  | xs m ys s' where "pop_on c s = (Some m, s')" "contents s = xs @ m # ys" "contents s' = xs @ ys"
      "\<forall>x\<in>set xs. chan x \<noteq> c" "chan m = c"
proof (cases "\<exists>m\<in>set (contents s). chan m = c")
  case True
  then obtain xs m ys where "contents s = xs @ m # ys" "chan m = c" "\<forall>x\<in>set xs. chan x \<noteq> c"
    by (rule split_list_first_propE)
  moreover from pop_on_oldest [OF this(1,3,2)] have "pop_on c s = (Some m, snd (pop_on c s))"
    "contents (snd (pop_on c s)) = xs @ ys" by (simp_all add: prod_eq_iff)
  ultimately show ?thesis by (intro that(2))
next
  case False
  then have "\<forall>m\<in>set (contents s). chan m \<noteq> c" by blast
  then show ?thesis by (intro that(1) pop_on_absent)
qed

lemma run_answers:
  "run_inbox push pop pop_on ops s = (as, s') \<Longrightarrow> answers_of chan ops (contents s) = (as, contents s')"
proof (induction ops arbitrary: s as)
  case (Cons a ops)
  show ?case
  proof (cases a)
    case (DoPush m)
    with Cons show ?thesis by (fastforce simp: contents_push split: prod.splits)
  next
    case DoPop
    with Cons show ?thesis by (cases rule: pop_cases [of s]) (fastforce split: prod.splits)+
  next
    case (DoPopOn k)
    show ?thesis
    proof (cases rule: pop_on_cases [of s k])
      case 1
      then have "takeWhile (\<lambda>m. chan m \<noteq> k) (contents s) = contents s"
        "dropWhile (\<lambda>m. chan m \<noteq> k) (contents s) = []" "find (\<lambda>m. chan m = k) (contents s) = None"
        by (auto simp: takeWhile_eq_all_conv find_None_iff)
      moreover from 1 Cons.prems DoPopOn obtain as1 where
        "run_inbox push pop pop_on ops s = (as1, s')" "as = None # as1" by (auto split: prod.splits)
      ultimately show ?thesis using Cons.IH [of s as1] DoPopOn
        by (simp del: takeWhile_eq_all_conv dropWhile_eq_Nil_conv)
    next
      case (2 xs m ys s1)
      then have "takeWhile (\<lambda>m. chan m \<noteq> k) (contents s) = xs"
        "dropWhile (\<lambda>m. chan m \<noteq> k) (contents s) = m # ys"
        by (simp_all add: takeWhile_append dropWhile_append)
      with 2 Cons DoPopOn show ?thesis by (fastforce simp: find_dropWhile split: prod.splits)
    qed
  qed
qed simp

end

text \<open>The operations of a live inbox, with the outcome projected out (they cannot fail).\<close>

definition push_ref :: "nat \<Rightarrow> message \<Rightarrow> store \<Rightarrow> store" where
  "push_ref r m st = snd (Inbox_Push (Some r) m st)"

definition ok_value :: "'a outcome \<times> 's \<Rightarrow> 'a \<times> 's" where
  "ok_value p = (case p of (Ok x, s) \<Rightarrow> (x, s) | (_, s) \<Rightarrow> (undefined, s))"

lemma inbox_total:
  "fst (Inbox_Push (Some r) m st) = Ok ()"
  "\<exists>x. fst (Inbox_Pop (Some r) st) = Ok x"
  "\<exists>x. fst (Inbox_PopChannel (Some r) c st) = Ok x"
  "fst (Inbox_Len (Some r) st) = Ok (length (st_queue st r))"
  by (auto simp: Inbox_Push_def Inbox_Pop_def Inbox_PopChannel_def Inbox_Len_def
      split: list.splits option.splits)

interpretation live_inbox: channel_inbox "\<lambda>st. st_queue st r" "push_ref r"
    "\<lambda>st. ok_value (Inbox_Pop (Some r) st)" "\<lambda>c st. ok_value (Inbox_PopChannel (Some r) c st)"
    m_ChannelID for r
  by unfold_locales
     (auto simp: push_ref_def ok_value_def Inbox_Push_def Inbox_Pop_def Inbox_PopChannel_def
       pop_channel_loop_None pop_channel_loop_Some)

text \<open>The calls of a client on one inbox, in the order they take its mutex.\<close>

definition inbox_call :: "inbox \<Rightarrow> (message, u32) inbox_op \<Rightarrow> (store, message option) go_method" where
  "inbox_call i a = (case a of
       DoPush m \<Rightarrow> sbind (Inbox_Push i m) (\<lambda>_. sret None)
     | DoPop \<Rightarrow> Inbox_Pop i
     | DoPopOn c \<Rightarrow> Inbox_PopChannel i c)"

fun inbox_calls :: "inbox \<Rightarrow> (message, u32) inbox_op list \<Rightarrow> (store, message option list) go_method" where
  "inbox_calls i [] = sret []"
| "inbox_calls i (a # ops) =
     sbind (inbox_call i a) (\<lambda>x. sbind (inbox_calls i ops) (\<lambda>xs. sret (x # xs)))"

lemma same_store: "\<exists>q. st = st\<lparr>st_queue := (st_queue st)(r := q)\<rparr>"
  by (rule exI [of _ "st_queue st r"]) simp

lemma inbox_call_Ok:
  "inbox_call (Some r) a st = (Ok x, st') \<Longrightarrow>
     \<exists>q. st' = st\<lparr>st_queue := (st_queue st)(r := q)\<rparr>"
  by (cases a)
    (auto simp: inbox_call_def Inbox_Push_def Inbox_Pop_def Inbox_PopChannel_def sbind_def sret_def
      intro: same_store split: list.splits option.splits)

lemma inbox_calls_run:
  "run_inbox (push_ref r) (\<lambda>st. ok_value (Inbox_Pop (Some r) st))
     (\<lambda>c st. ok_value (Inbox_PopChannel (Some r) c st)) ops st = (as, st') \<Longrightarrow>
   inbox_calls (Some r) ops st = (Ok as, st')"
proof (induction ops arbitrary: st as)
  case (Cons a ops)
  show ?case
  proof (cases a)
    case (DoPush m)
    moreover from DoPush Cons.prems obtain as1 where
      "run_inbox (push_ref r) (\<lambda>st. ok_value (Inbox_Pop (Some r) st))
        (\<lambda>c st. ok_value (Inbox_PopChannel (Some r) c st)) ops (push_ref r m st) = (as1, st')"
      "as = None # as1" by (auto split: prod.splits)
    moreover have "Inbox_Push (Some r) m st = (Ok (), push_ref r m st)"
      by (simp add: push_ref_def Inbox_Push_def)
    ultimately show ?thesis using Cons.IH [of "push_ref r m st" as1]
      by (simp add: inbox_call_def method_simps)
  next
    case DoPop
    obtain x st1 where "Inbox_Pop (Some r) st = (Ok x, st1)"
      using inbox_total(2) [of r st] by (metis prod.collapse)
    with Cons DoPop show ?thesis
      by (fastforce simp: inbox_call_def ok_value_def method_simps split: prod.splits)
  next
    case (DoPopOn c)
    obtain x st1 where "Inbox_PopChannel (Some r) c st = (Ok x, st1)"
      using inbox_total(3) [of r c st] by (metis prod.collapse)
    with Cons DoPopOn show ?thesis
      by (fastforce simp: inbox_call_def ok_value_def method_simps split: prod.splits)
  qed
qed (simp add: sret_def)

text \<open>They change no other queue of the store.\<close>

lemma inbox_calls_frame:
  "inbox_calls (Some r) ops st = (Ok as, st') \<Longrightarrow>
     \<exists>q. st' = st\<lparr>st_queue := (st_queue st)(r := q)\<rparr>"
proof (induction ops arbitrary: st as)
  case (Cons a ops)
  then obtain x st1 xs where "inbox_call (Some r) a st = (Ok x, st1)"
    "inbox_calls (Some r) ops st1 = (Ok xs, st')"
    by (auto simp: sbind_eq_Ok sret_def)
  from inbox_call_Ok [OF this(1)] Cons.IH [OF this(2)] obtain q1 q2 where
    "st1 = st\<lparr>st_queue := (st_queue st)(r := q1)\<rparr>"
    "st' = st1\<lparr>st_queue := (st_queue st1)(r := q2)\<rparr>" by blast
  then have "st' = st\<lparr>st_queue := (st_queue st)(r := q2)\<rparr>" by simp
  then show ?case by (rule exI)
qed (simp add: sret_def same_store)

text \<open>Two references never interfere, and a new inbox is none of the existing ones.\<close>

lemma inbox_frame:
  assumes "r' \<noteq> r"
  shows "st_queue (snd (Inbox_Push (Some r) m st)) r' = st_queue st r'"
    and "st_queue (snd (Inbox_Pop (Some r) st)) r' = st_queue st r'"
    and "st_queue (snd (Inbox_PopChannel (Some r) c st)) r' = st_queue st r'"
  using assms
  by (auto simp: Inbox_Push_def Inbox_Pop_def Inbox_PopChannel_def split: list.splits option.splits)

section \<open>Messenger\<close>

text \<open>\<open>nextSeq\<close> is the map of the next sequence number of each channel; a missing key reads
  as 0. The counter is a \<open>uint32\<close> and wraps.\<close>

record messenger =
  ms_nextSeq :: "u32 \<rightharpoonup> u32"
  ms_inbox :: inbox

definition NewMessenger :: "store \<Rightarrow> messenger \<times> store" where
  "NewMessenger st =
     (let (i, st') = NewInbox st in (\<lparr>ms_nextSeq = Map.empty, ms_inbox = i\<rparr>, st'))"

definition NewMessengerWithInbox :: "inbox \<Rightarrow> messenger" where
  "NewMessengerWithInbox i = \<lparr>ms_nextSeq = Map.empty, ms_inbox = i\<rparr>"

definition allocSeq :: "u32 \<Rightarrow> messenger \<Rightarrow> u32 \<times> messenger" where
  "allocSeq channelID m =
     (let seq = (case ms_nextSeq m channelID of None \<Rightarrow> 0 | Some s \<Rightarrow> s)
      in (seq, m\<lparr>ms_nextSeq := (ms_nextSeq m)(channelID \<mapsto> seq + 1)\<rparr>))"

definition BuildFrame :: "u32 \<Rightarrow> u16 \<Rightarrow> bytes \<Rightarrow> messenger \<Rightarrow> (u32 \<times> frame) \<times> messenger" where
  "BuildFrame channelID msgType payload m =
     (let (seq, m') = allocSeq channelID m;
          msg = NewMessage channelID seq msgType payload
      in ((seq, Message_ToFrame msg), m'))"

definition InboxLen :: "messenger \<Rightarrow> (store, nat) go_method" where
  "InboxLen m = Inbox_Len (ms_inbox m)"

definition TryRecv :: "messenger \<Rightarrow> (store, message option) go_method" where
  "TryRecv m = Inbox_Pop (ms_inbox m)"

definition TryRecvChannel :: "messenger \<Rightarrow> u32 \<Rightarrow> (store, message option) go_method" where
  "TryRecvChannel m channelID = Inbox_PopChannel (ms_inbox m) channelID"

definition Messenger_Inbox :: "messenger \<Rightarrow> inbox" where
  "Messenger_Inbox m = ms_inbox m"

fun build_all :: "(u32 \<times> u16 \<times> bytes) list \<Rightarrow> messenger \<Rightarrow> (u32 \<times> frame) list \<times> messenger" where
  "build_all [] m = ([], m)"
| "build_all ((c, t, p) # rs) m =
     (let (sf, m1) = BuildFrame c t p m; (out, m2) = build_all rs m1 in (sf # out, m2))"

definition next_of :: "messenger \<Rightarrow> u32 \<Rightarrow> u32" where
  "next_of m c = (case ms_nextSeq m c of None \<Rightarrow> 0 | Some s \<Rightarrow> s)"

lemma BuildFrame_eq:
  "BuildFrame c t p m =
     ((next_of m c, Message_ToFrame (NewMessage c (next_of m c) t p)), snd (allocSeq c m))"
  by (simp add: BuildFrame_def allocSeq_def next_of_def Let_def)

lemma next_of_allocSeq:
  "next_of (snd (allocSeq c m)) c' = (if c' = c then next_of m c + 1 else next_of m c')"
  by (simp add: allocSeq_def next_of_def Let_def)

lemma length_build_all: "length (fst (build_all rs m)) = length rs"
  by (induction rs m rule: build_all.induct) (auto split: prod.splits)

text \<open>The \<open>k\<close>-th request is numbered by how many earlier requests were on its channel.\<close>

lemma build_all_seq:
  "k < length rs \<Longrightarrow> fst (fst (build_all rs m) ! k) =
     next_of m (fst (rs ! k)) +
       of_nat (length (filter (\<lambda>q. fst q = fst (rs ! k)) (take k rs)))"
proof (induction rs m arbitrary: k rule: build_all.induct)
  case (2 c t p rs m)
  obtain out m2 where out: "build_all rs (snd (allocSeq c m)) = (out, m2)" by fastforce
  have IH: "k < length rs \<Longrightarrow> fst (out ! k) =
      next_of (snd (allocSeq c m)) (fst (rs ! k)) +
       of_nat (length (filter (\<lambda>q. fst q = fst (rs ! k)) (take k rs)))" for k
    using "2.IH" out by (simp add: BuildFrame_eq)
  show ?case
  proof (cases k)
    case 0
    then show ?thesis by (simp add: BuildFrame_eq out)
  next
    case (Suc j)
    with "2.prems" IH [of j] show ?thesis
      by (simp add: BuildFrame_eq out next_of_allocSeq)
  qed
qed simp

lemma build_all_frame:
  "k < length rs \<Longrightarrow> snd (fst (build_all rs m) ! k) =
     Message_ToFrame (NewMessage (fst (rs ! k)) (fst (fst (build_all rs m) ! k))
       (fst (snd (rs ! k))) (snd (snd (rs ! k))))"
proof (induction rs m arbitrary: k rule: build_all.induct)
  case (2 c t p rs m)
  obtain out m2 where out: "build_all rs (snd (allocSeq c m)) = (out, m2)" by fastforce
  have IH: "k < length rs \<Longrightarrow> snd (out ! k) =
     Message_ToFrame (NewMessage (fst (rs ! k)) (fst (out ! k))
       (fst (snd (rs ! k))) (snd (snd (rs ! k))))" for k
    using "2.IH" out by (simp add: BuildFrame_eq)
  show ?case
    using "2.prems" IH by (cases k) (simp_all add: BuildFrame_eq out)
qed simp

section \<open>StableSubscriberSet\<close>

type_synonym subscribers = "u32 \<rightharpoonup> u32 list"

fun dedupe_loop :: "u32 list \<Rightarrow> u32 list \<Rightarrow> u32 list" where
  "dedupe_loop out [] = out"
| "dedupe_loop out (v # vs) =
     (if v \<noteq> last out then dedupe_loop (out @ [v]) vs else dedupe_loop out vs)"

definition dedupe :: "u32 list \<Rightarrow> u32 list" where
  "dedupe xs = (case xs of [] \<Rightarrow> [] | x # rest \<Rightarrow> dedupe_loop [x] rest)"

definition NewStableSubscriberSet :: subscribers where
  "NewStableSubscriberSet = Map.empty"

text \<open>A missing key of a Go map of slices reads as the nil slice.\<close>

definition subs_of :: "subscribers \<Rightarrow> u32 \<Rightarrow> u32 list" where
  "subs_of s c = (case s c of None \<Rightarrow> [] | Some l \<Rightarrow> l)"

definition Subs_Add :: "u32 \<Rightarrow> u32 \<Rightarrow> subscribers \<Rightarrow> subscribers" where
  "Subs_Add channelID clientID s =
     (let l = subs_of s channelID @ [clientID]; l = sort l; l = dedupe l in s(channelID \<mapsto> l))"

definition Subs_Remove :: "u32 \<Rightarrow> u32 \<Rightarrow> subscribers \<Rightarrow> subscribers" where
  "Subs_Remove channelID clientID s =
     (let l = subs_of s channelID; out = filter (\<lambda>i. i \<noteq> clientID) l in s(channelID \<mapsto> out))"

definition Subscribers :: "u32 \<Rightarrow> subscribers \<Rightarrow> u32 list" where
  "Subscribers channelID s = subs_of s channelID"

lemma dedupe_loop_eq: "out \<noteq> [] \<Longrightarrow> dedupe_loop out vs = butlast out @ remdups_adj (last out # vs)"
proof (induction out vs rule: dedupe_loop.induct)
  case (2 out v vs)
  then show ?case
    by (cases "v = last out") (auto simp: append_butlast_last_id [symmetric] butlast_append)
qed simp

lemma dedupe_eq: "dedupe xs = remdups_adj xs"
  by (cases xs) (simp_all add: dedupe_def dedupe_loop_eq)

lemma distinct_remdups_adj: "sorted xs \<Longrightarrow> distinct (remdups_adj xs)"
  by (induction xs rule: remdups_adj.induct) fastforce+

lemma dedupe_sort: "sorted (dedupe (sort xs)) \<and> distinct (dedupe (sort xs)) \<and>
    set (dedupe (sort xs)) = set xs"
  by (simp add: dedupe_eq sorted_remdups_adj distinct_remdups_adj)

definition subs_ok :: "subscribers \<Rightarrow> bool" where
  "subs_ok s \<longleftrightarrow> (\<forall>c. sorted (subs_of s c) \<and> distinct (subs_of s c))"

text \<open>The set of \<open>(channel, client)\<close> pairs as an abstract data type: a stable listing of it
  is sorted, so equal sets list equally whatever the order of the calls.\<close>

locale stable_relation =
  fixes empty :: 's
    and add :: "'a \<Rightarrow> 'b :: linorder \<Rightarrow> 's \<Rightarrow> 's"
    and remove :: "'a \<Rightarrow> 'b \<Rightarrow> 's \<Rightarrow> 's"
    and listing :: "'a \<Rightarrow> 's \<Rightarrow> 'b list"
    and ok :: "'s \<Rightarrow> bool"
  assumes ok_empty: "ok empty" and listing_empty: "listing a empty = []"
    and ok_add: "ok s \<Longrightarrow> ok (add a b s)" and ok_remove: "ok s \<Longrightarrow> ok (remove a b s)"
    and set_add: "ok s \<Longrightarrow>
      set (listing a' (add a b s)) = (if a' = a then insert b (set (listing a s)) else set (listing a' s))"
    and set_remove: "ok s \<Longrightarrow>
      set (listing a' (remove a b s)) = (if a' = a then set (listing a s) - {b} else set (listing a' s))"
    and listing_sorted: "ok s \<Longrightarrow> sorted (listing a s) \<and> distinct (listing a s)"
begin

lemma listing_determined:
  "ok s \<Longrightarrow> ok t \<Longrightarrow> set (listing a s) = set (listing a t) \<Longrightarrow> listing a s = listing a t"
  using listing_sorted sorted_distinct_set_unique by blast

lemma add_add_commute: "ok s \<Longrightarrow> listing c (add a b (add a' b' s)) = listing c (add a' b' (add a b s))"
  by (intro listing_determined) (auto simp: set_add ok_add)

lemma add_idem: "ok s \<Longrightarrow> listing c (add a b (add a b s)) = listing c (add a b s)"
  by (intro listing_determined) (auto simp: set_add ok_add)

lemma remove_add: "ok s \<Longrightarrow> b \<notin> set (listing a s) \<Longrightarrow> listing c (remove a b (add a b s)) = listing c s"
  by (intro listing_determined) (auto simp: set_add set_remove ok_add ok_remove)

end

interpretation subscriber_set: stable_relation NewStableSubscriberSet Subs_Add Subs_Remove
    Subscribers subs_ok
proof unfold_locales
  fix s a b assume s: "subs_ok s"
  show "subs_ok (Subs_Add a b s)"
    using s dedupe_sort [of "subs_of s a @ [b]"]
    by (auto simp: subs_ok_def Subs_Add_def Let_def subs_of_def)
  show "subs_ok (Subs_Remove a b s)"
    using s by (auto simp: subs_ok_def Subs_Remove_def Let_def subs_of_def sorted_filter [of id, simplified])
next
  fix s a b a' assume "subs_ok s"
  show "set (Subscribers a' (Subs_Add a b s)) =
      (if a' = a then insert b (set (Subscribers a s)) else set (Subscribers a' s))"
    using dedupe_sort [of "subs_of s a @ [b]"]
    by (auto simp: Subscribers_def Subs_Add_def Let_def subs_of_def)
  show "set (Subscribers a' (Subs_Remove a b s)) =
      (if a' = a then set (Subscribers a s) - {b} else set (Subscribers a' s))"
    by (auto simp: Subscribers_def Subs_Remove_def Let_def subs_of_def)
qed (auto simp: subs_ok_def NewStableSubscriberSet_def Subscribers_def subs_of_def)

section \<open>Properties\<close>

text \<open>C24: any sequence of pushes, pops and channel pops on an inbox runs without a panic and
  answers as the list does: a pop gives the oldest message, a channel pop the oldest message of the
  channel asked for and leaves the others in place. So an answer to a request for a channel is of
  that channel, and what was received on a channel followed by what is still queued on it is what
  was queued and pushed on it, in order.\<close>

theorem inbox_channel_order:
  "\<exists>as q. inbox_calls (Some r) ops st = (Ok as, st\<lparr>st_queue := (st_queue st)(r := q)\<rparr>) \<and>
    answers_of m_ChannelID ops (st_queue st r) = (as, q) \<and>
    list_all (\<lambda>m. m_ChannelID m = c) (answers_on c ops as) \<and>
    filter (\<lambda>m. m_ChannelID m = c) (received as @ q) =
      filter (\<lambda>m. m_ChannelID m = c) (st_queue st r @ pushed ops)"
proof -
  obtain as st' where run: "run_inbox (push_ref r) (\<lambda>st. ok_value (Inbox_Pop (Some r) st))
      (\<lambda>c st. ok_value (Inbox_PopChannel (Some r) c st)) ops st = (as, st')" by fastforce
  note answers = live_inbox.run_answers [OF run]
  obtain q where "st' = st\<lparr>st_queue := (st_queue st)(r := q)\<rparr>"
    using inbox_calls_frame [OF inbox_calls_run [OF run]] by blast
  then have "inbox_calls (Some r) ops st = (Ok as, st\<lparr>st_queue := (st_queue st)(r := st_queue st' r)\<rparr>)"
    using inbox_calls_run [OF run] by simp
  with answers answers_on_channel [OF answers, of c] per_channel_fifo [OF answers, of c]
  show ?thesis by blast
qed

theorem inbox_channel_order_witness:
  "\<exists>st'. inbox_calls (Some 0) [DoPush (NewMessage 1 0 1 []), DoPush (NewMessage 2 0 1 []), DoPopOn 2]
      \<lparr>st_next = 1, st_queue = \<lambda>_. []\<rparr> = (Ok [None, None, Some (NewMessage 2 0 1 [])], st') \<and>
    st_queue st' 0 = [NewMessage 1 0 1 []]"
  using inbox_channel_order [of 0 "[DoPush (NewMessage 1 0 1 []), DoPush (NewMessage 2 0 1 []), DoPopOn 2]"
    "\<lparr>st_next = 1, st_queue = \<lambda>_. []\<rparr>"]
  by (auto simp: NewMessage_def)

lemma counter_differs:
  assumes "a < b" "b - a < 2 ^ 32"
  shows "(of_nat a :: u32) \<noteq> of_nat b"
proof
  assume eq: "(of_nat a :: u32) = of_nat b"
  have "(of_nat (b - a) :: u32) = of_nat b - of_nat a" using assms(1) by (simp add: of_nat_diff)
  with eq have "(of_nat (b - a) :: u32) = 0" by simp
  then have "2 ^ 32 dvd b - a" by (simp only: word_of_nat_eq_0_iff) simp
  with assms show False by (meson dvd_imp_le leD zero_less_diff)
qed

lemma count_between:
  assumes "j < k" "k \<le> length rs" "fst (rs ! j) = c"
  shows "length (filter (\<lambda>q. fst q = c) (take k rs)) - length (filter (\<lambda>q. fst q = c) (take j rs)) \<le> k - j"
    "length (filter (\<lambda>q. fst q = c) (take j rs)) < length (filter (\<lambda>q. fst q = c) (take k rs))"
proof -
  have split: "take k rs = take j rs @ take (k - j) (drop j rs)"
    using assms(1) by (metis le_add_diff_inverse less_imp_le take_add)
  have "length (filter (\<lambda>q. fst q = c) (take (k - j) (drop j rs))) \<le> length (take (k - j) (drop j rs))"
    by (rule length_filter_le)
  then show "length (filter (\<lambda>q. fst q = c) (take k rs)) - length (filter (\<lambda>q. fst q = c) (take j rs)) \<le> k - j"
    by (simp add: split)
  have "rs ! j \<in> set (take (k - j) (drop j rs))"
    using assms(1,2) by (auto simp: in_set_conv_nth intro!: exI [of _ 0])
  then have "filter (\<lambda>q. fst q = c) (take (k - j) (drop j rs)) \<noteq> []"
    using assms(3) by (auto simp: filter_empty_conv)
  then show "length (filter (\<lambda>q. fst q = c) (take j rs)) < length (filter (\<lambda>q. fst q = c) (take k rs))"
    by (simp add: split)
qed

text \<open>C25: a messenger numbers the frames of each channel from its counter upwards: of a list of
  requests the \<open>k\<close>-th gets the number of earlier requests on its channel, so two requests on one
  channel with fewer than \<open>2 ^ 32\<close> requests between them never share a sequence number.\<close>

theorem messenger_numbers_channels:
  fixes m :: messenger and rs :: "(u32 \<times> u16 \<times> bytes) list"
  assumes "j < k" "k < length rs" "k - j < 2 ^ 32" "fst (rs ! j) = fst (rs ! k)"
  defines "sent \<equiv> fst (build_all rs m)"
  shows "fst (sent ! k) = next_of m (fst (rs ! k)) +
      of_nat (length (filter (\<lambda>q. fst q = fst (rs ! k)) (take k rs))) \<and>
    fst (sent ! j) \<noteq> fst (sent ! k) \<and>
    snd (sent ! k) = Message_ToFrame (NewMessage (fst (rs ! k)) (fst (sent ! k))
      (fst (snd (rs ! k))) (snd (snd (rs ! k))))"
proof -
  let ?n = "\<lambda>i. length (filter (\<lambda>q. fst q = fst (rs ! k)) (take i rs))"
  have seq: "fst (sent ! i) = next_of m (fst (rs ! k)) + of_nat (?n i)" if "i = j \<or> i = k" for i
    using that assms(1,2,4) build_all_seq [of i rs m] by (auto simp: sent_def)
  have n: "?n j < ?n k" "?n k - ?n j \<le> k - j"
    using count_between [of j k rs "fst (rs ! k)"] assms(1,2,4) by simp_all
  have "(of_nat (?n j) :: u32) \<noteq> of_nat (?n k)"
    by (rule counter_differs [OF n(1) le_less_trans [OF n(2) assms(3)]])
  then have "fst (sent ! j) \<noteq> fst (sent ! k)" by (simp add: seq)
  then show ?thesis
    using seq [of k] build_all_frame [OF assms(2), of m] by (simp add: sent_def)
qed

theorem messenger_numbers_channels_witness:
  "fst (fst (build_all [(5, 1, []), (6, 1, []), (5, 1, [])] (NewMessengerWithInbox None)) ! 2) = 1"
  using messenger_numbers_channels [of 0 2 "[(5, 1, []), (6, 1, []), (5, 1, [])]" "NewMessengerWithInbox None"]
  by (simp add: next_of_def NewMessengerWithInbox_def)

datatype subs_op = AddSub u32 u32 | RemoveSub u32 u32

fun run_subs :: "subs_op list \<Rightarrow> subscribers \<Rightarrow> subscribers" where
  "run_subs [] s = s"
| "run_subs (AddSub c i # ops) s = run_subs ops (Subs_Add c i s)"
| "run_subs (RemoveSub c i # ops) s = run_subs ops (Subs_Remove c i s)"

fun subs_spec :: "subs_op list \<Rightarrow> (u32 \<times> u32) set \<Rightarrow> (u32 \<times> u32) set" where
  "subs_spec [] S = S"
| "subs_spec (AddSub c i # ops) S = subs_spec ops (insert (c, i) S)"
| "subs_spec (RemoveSub c i # ops) S = subs_spec ops (S - {(c, i)})"

lemma run_subs_refines:
  "subs_ok s \<Longrightarrow> (\<And>c. set (Subscribers c s) = {i. (c, i) \<in> S}) \<Longrightarrow>
     subs_ok (run_subs ops s) \<and> set (Subscribers c (run_subs ops s)) = {i. (c, i) \<in> subs_spec ops S}"
proof (induction ops s arbitrary: S rule: run_subs.induct)
  case (2 a i ops s)
  then show ?case
    by (simp, intro "2.IH") (auto simp: subscriber_set.set_add subscriber_set.ok_add)
next
  case (3 a i ops s)
  then show ?case
    by (simp, intro "3.IH") (auto simp: subscriber_set.set_remove subscriber_set.ok_remove)
qed simp

text \<open>C26: after any sequence of additions and removals the subscribers of a channel are listed in
  ascending order without duplicates, and are exactly the clients whose last operation there was
  an addition.\<close>

theorem subscribers_sorted_set:
  "Subscribers c (run_subs ops NewStableSubscriberSet) =
     sorted_list_of_set {i. (c, i) \<in> subs_spec ops {}}"
proof -
  have r: "subs_ok (run_subs ops NewStableSubscriberSet)"
    "set (Subscribers c (run_subs ops NewStableSubscriberSet)) = {i. (c, i) \<in> subs_spec ops {}}"
    using run_subs_refines [of NewStableSubscriberSet "{}" ops c]
    by (simp_all add: subscriber_set.ok_empty subscriber_set.listing_empty)
  show ?thesis
    using subscriber_set.listing_sorted [OF r(1), of c] r(2)
    by (metis sorted_list_of_set.idem_if_sorted_distinct)
qed

end
