(* ===== verification/Sha256.thy ===== *)
theory Sha256
  imports Prelude
begin

unbundle bit_operations_syntax

text \<open>
  SHA-256 as FIPS 180-4 defines it: what \<open>sha256.New\<close>, \<open>h.Write\<close> and \<open>h.Sum(nil)\<close> of Go's
  standard library compute for the concatenation of the bytes written. The model's nonces,
  keys, transcript hashes and session ids are computed with it. Of its properties the
  development uses the length of the digest; that distinct inputs have distinct digests is
  never assumed of all inputs, only of two given ones where a property names them.
\<close>

definition sha_rotr :: "nat \<Rightarrow> u32 \<Rightarrow> u32" where
  "sha_rotr n w = (drop_bit n w OR push_bit (32 - n) w)"

text \<open>The round constants of section 4.2.2, in decimal.\<close>

definition sha_k :: "u32 list" where
  "sha_k = [
    1116352408, 1899447441, 3049323471, 3921009573, 961987163, 1508970993, 2453635748, 2870763221,
    3624381080, 310598401, 607225278, 1426881987, 1925078388, 2162078206, 2614888103, 3248222580,
    3835390401, 4022224774, 264347078, 604807628, 770255983, 1249150122, 1555081692, 1996064986,
    2554220882, 2821834349, 2952996808, 3210313671, 3336571891, 3584528711, 113926993, 338241895,
    666307205, 773529912, 1294757372, 1396182291, 1695183700, 1986661051, 2177026350, 2456956037,
    2730485921, 2820302411, 3259730800, 3345764771, 3516065817, 3600352804, 4094571909, 275423344,
    430227734, 506948616, 659060556, 883997877, 958139571, 1322822218, 1537002063, 1747873779,
    1955562222, 2024104815, 2227730452, 2361852424, 2428436474, 2756734187, 3204031479, 3329325298]"

datatype sha_state = Sha u32 u32 u32 u32 u32 u32 u32 u32

definition sha_init :: sha_state where
  "sha_init = Sha 0x6a09e667 0xbb67ae85 0x3c6ef372 0xa54ff53a
     0x510e527f 0x9b05688c 0x1f83d9ab 0x5be0cd19"

definition sha_pad :: "bytes \<Rightarrow> bytes" where
  "sha_pad m =
     m @ [0x80] @ replicate ((119 - length m mod 64) mod 64) 0 @ be64 (of_nat (8 * length m))"

fun sha_words :: "bytes \<Rightarrow> u32 list" where
  "sha_words (a # b # c # d # r) =
     (push_bit 24 (ucast a) OR push_bit 16 (ucast b) OR push_bit 8 (ucast c) OR ucast d) #
     sha_words r"
| "sha_words _ = []"

text \<open>The message schedule, grown one word at a time from the 16 words of the block.\<close>

fun sha_extend :: "nat \<Rightarrow> u32 list \<Rightarrow> u32 list" where
  "sha_extend 0 ws = ws"
| "sha_extend (Suc n) ws =
     (let t = length ws; x = ws ! (t - 15); y = ws ! (t - 2);
          s0 = (sha_rotr 7 x XOR sha_rotr 18 x) XOR drop_bit 3 x;
          s1 = (sha_rotr 17 y XOR sha_rotr 19 y) XOR drop_bit 10 y
      in sha_extend n (ws @ [ws ! (t - 16) + s0 + ws ! (t - 7) + s1]))"

fun sha_round :: "sha_state \<Rightarrow> u32 \<times> u32 \<Rightarrow> sha_state" where
  "sha_round (Sha a b c d e f g h) (k, w) =
     (let s1 = (sha_rotr 6 e XOR sha_rotr 11 e) XOR sha_rotr 25 e;
          ch = (e AND f) XOR (NOT e AND g);
          t1 = h + s1 + ch + k + w;
          s0 = (sha_rotr 2 a XOR sha_rotr 13 a) XOR sha_rotr 22 a;
          maj = ((a AND b) XOR (a AND c)) XOR (b AND c);
          t2 = s0 + maj
      in Sha (t1 + t2) a b c (d + t1) e f g)"

fun sha_add :: "sha_state \<Rightarrow> sha_state \<Rightarrow> sha_state" where
  "sha_add (Sha a b c d e f g h) (Sha a' b' c' d' e' f' g' h') =
     Sha (a + a') (b + b') (c + c') (d + d') (e + e') (f + f') (g + g') (h + h')"

definition sha_block :: "sha_state \<Rightarrow> bytes \<Rightarrow> sha_state" where
  "sha_block s blk = sha_add s (foldl sha_round s (zip sha_k (sha_extend 48 (sha_words blk))))"

fun sha_blocks :: "nat \<Rightarrow> sha_state \<Rightarrow> bytes \<Rightarrow> sha_state" where
  "sha_blocks 0 s m = s"
| "sha_blocks (Suc n) s m = sha_blocks n (sha_block s (take 64 m)) (drop 64 m)"

fun sha_output :: "sha_state \<Rightarrow> bytes" where
  "sha_output (Sha a b c d e f g h) =
     be32 a @ be32 b @ be32 c @ be32 d @ be32 e @ be32 f @ be32 g @ be32 h"

definition sha256 :: "bytes \<Rightarrow> bytes" where
  "sha256 m = (let p = sha_pad m in sha_output (sha_blocks (length p div 64) sha_init p))"

lemma length_sha256 [simp]: "length (sha256 m) = 32"
  by (cases "sha_blocks (length (sha_pad m) div 64) sha_init (sha_pad m)")
     (simp add: sha256_def Let_def)

text \<open>The padded message is a whole number of blocks, so no byte of it is left out.\<close>

lemma sha_pad_residue: "r < 64 \<Longrightarrow> (r + (9 + (119 - r) mod 64)) mod 64 = (0 :: nat)"
proof (cases "r \<le> 55")
  case True
  then have "119 - r = (55 - r) + 64" by simp
  then have "(119 - r) mod 64 = 55 - r" by (simp only: mod_add_self2) simp
  with True show ?thesis by simp
next
  case False
  assume "r < 64"
  with False have "(119 - r) mod 64 = 119 - r" by (intro mod_less) simp
  moreover have "r + (9 + (119 - r)) = 128" using \<open>r < 64\<close> by simp
  ultimately show ?thesis by simp
qed

lemma length_sha_pad: "64 dvd length (sha_pad m)"
proof -
  define r where "r = length m mod 64"
  have "length (sha_pad m) = length m + (9 + (119 - r) mod 64)"
    by (simp add: sha_pad_def r_def)
  then have "length (sha_pad m) mod 64 = (r + (9 + (119 - r) mod 64)) mod 64"
    by (simp only: r_def mod_add_left_eq)
  also have "\<dots> = 0" by (rule sha_pad_residue) (simp add: r_def)
  finally show ?thesis by (simp add: dvd_eq_mod_eq_0)
qed

end
