(* ===== verification/Primitives.thy ===== *)
theory Primitives
  imports Sha256
begin

unbundle bit_operations_syntax

text \<open>
  The cryptographic primitives the code calls and does not contain, as a record of
  functions: ChaCha20-Poly1305, X25519 and HKDF of \<open>golang.org/x/crypto\<close>, and Go's
  \<open>crypto/ed25519\<close>. Every definition that uses one takes the record as its argument
  \<open>P\<close>. What a property needs of them is a named hypothesis (\<open>aead_correct\<close>,
  \<open>signature_correct\<close>, \<open>dh_correct\<close>, \<open>hkdf_correct\<close>), each a part of their documented
  behaviour between honest callers; \<open>sample\<close> is a record of concrete functions that satisfies
  all of them and that the witnesses use.
\<close>

record primitives =
  p_aead_key_ok :: "bytes \<Rightarrow> bool"
  p_seal :: "bytes \<Rightarrow> bytes \<Rightarrow> bytes \<Rightarrow> bytes \<Rightarrow> bytes"
  p_open :: "bytes \<Rightarrow> bytes \<Rightarrow> bytes \<Rightarrow> bytes \<Rightarrow> bytes option"
  p_ed_from_seed :: "bytes \<Rightarrow> bytes"
  p_ed_public :: "bytes \<Rightarrow> bytes"
  p_ed_sign :: "bytes \<Rightarrow> bytes \<Rightarrow> bytes"
  p_ed_verify :: "bytes \<Rightarrow> bytes \<Rightarrow> bytes \<Rightarrow> bool"
  p_x25519 :: "bytes \<Rightarrow> bytes \<Rightarrow> bytes option"
  p_x_basepoint :: bytes
  p_hkdf :: "bytes \<Rightarrow> bytes \<Rightarrow> bytes \<Rightarrow> nat \<Rightarrow> bytes option"

text \<open>\<open>chacha20poly1305.New\<close> takes exactly 32-byte keys; \<open>Open\<close> undoes \<open>Seal\<close> under the same
  key, 12-byte nonce and additional data. Arguments: key, nonce, text, additional data.\<close>

definition aead_correct :: "primitives \<Rightarrow> bool" where
  "aead_correct P \<longleftrightarrow>
     (\<forall>k. length k = 32 \<longrightarrow> p_aead_key_ok P k) \<and>
     (\<forall>k n p a. length k = 32 \<longrightarrow> length n = 12 \<longrightarrow> p_open P k n (p_seal P k n p a) a = Some p)"

text \<open>A signature made with the private key of a seed verifies under its public key.\<close>

definition signature_correct :: "primitives \<Rightarrow> bool" where
  "signature_correct P \<longleftrightarrow> (\<forall>seed m. length seed = 32 \<longrightarrow>
     length (p_ed_from_seed P seed) = 64 \<and>
     length (p_ed_public P (p_ed_from_seed P seed)) = 32 \<and>
     length (p_ed_sign P (p_ed_from_seed P seed) m) = 64 \<and>
     p_ed_verify P (p_ed_public P (p_ed_from_seed P seed)) m (p_ed_sign P (p_ed_from_seed P seed) m))"

text \<open>Every 32-byte scalar has a public key, and two such key pairs agree on a secret.\<close>

definition dh_correct :: "primitives \<Rightarrow> bool" where
  "dh_correct P \<longleftrightarrow>
     (\<forall>a. length a = 32 \<longrightarrow>
        (\<exists>A. p_x25519 P a (p_x_basepoint P) = Some A \<and> length A = 32)) \<and>
     (\<forall>a b A B. length a = 32 \<longrightarrow> length b = 32 \<longrightarrow>
        p_x25519 P a (p_x_basepoint P) = Some A \<longrightarrow> p_x25519 P b (p_x_basepoint P) = Some B \<longrightarrow>
        (\<exists>s. p_x25519 P a B = Some s \<and> p_x25519 P b A = Some s \<and> length s = 32))"

text \<open>HKDF over SHA-256 yields up to 255 blocks of 32 bytes.\<close>

definition hkdf_correct :: "primitives \<Rightarrow> bool" where
  "hkdf_correct P \<longleftrightarrow> (\<forall>ikm salt info n. n \<le> 255 * 32 \<longrightarrow>
     (\<exists>out. p_hkdf P ikm salt info n = Some out \<and> length out = n))"

definition primitives_correct :: "primitives \<Rightarrow> bool" where
  "primitives_correct P \<longleftrightarrow>
     aead_correct P \<and> signature_correct P \<and> dh_correct P \<and> hkdf_correct P"

section \<open>A concrete instance\<close>

text \<open>Transparent functions with the algebra of the real ones: a cipher that XORs with a key
  byte and appends a 16-byte tag of nonce and additional data, a signature that is the
  public key and a digest, and an additive key agreement.\<close>

definition sample_mask :: "bytes \<Rightarrow> bytes \<Rightarrow> bytes" where
  "sample_mask k p = map (\<lambda>x. x XOR foldr (XOR) k 0) p"

definition sample_tag :: "bytes \<Rightarrow> bytes \<Rightarrow> bytes" where
  "sample_tag n a = arr 16 (n @ drop 3 a)"

definition sample :: primitives where
  "sample = \<lparr>
     p_aead_key_ok = (\<lambda>k. length k = 32),
     p_seal = (\<lambda>k n p a. sample_mask k p @ sample_tag n a),
     p_open = (\<lambda>k n c a. if 16 \<le> length c \<and> drop (length c - 16) c = sample_tag n a
                then Some (sample_mask k (take (length c - 16) c)) else None),
     p_ed_from_seed = (\<lambda>s. s @ s),
     p_ed_public = (\<lambda>k. take 32 k),
     p_ed_sign = (\<lambda>k m. take 32 k @ sha256 m),
     p_ed_verify = (\<lambda>pub m sig. sig = pub @ sha256 m),
     p_x25519 = (\<lambda>a p. Some (map2 (+) (arr 32 a) (arr 32 p))),
     p_x_basepoint = 9 # replicate 31 0,
     p_hkdf = (\<lambda>ikm salt info n. Some (take n (ikm @ replicate n 0)))\<rparr>"

lemma sample_mask_mask [simp]: "sample_mask k (sample_mask k p) = p"
  by (simp add: sample_mask_def comp_def xor.assoc)

lemma length_sample_mask [simp]: "length (sample_mask k p) = length p"
  by (simp add: sample_mask_def)

lemma length_sample_tag [simp]: "length (sample_tag n a) = 16"
  by (simp add: sample_tag_def)

lemma sample_aead: "aead_correct sample"
  by (simp add: aead_correct_def sample_def)

lemma sample_signature: "signature_correct sample"
  by (simp add: signature_correct_def sample_def)

lemma map2_add_assoc:
  "length a = length b \<Longrightarrow> length b = length c \<Longrightarrow>
     map2 (+) a (map2 (+) b c) = map2 (+) b (map2 (+) a (c :: bytes))"
  by (induction a b c rule: list_induct3) (auto simp: algebra_simps)

lemma sample_dh: "dh_correct sample"
  by (auto simp: dh_correct_def sample_def intro: map2_add_assoc)

lemma sample_hkdf: "hkdf_correct sample"
  by (auto simp: hkdf_correct_def sample_def)

lemma sample_correct: "primitives_correct sample"
  by (simp add: primitives_correct_def sample_aead sample_signature sample_dh sample_hkdf)

end
