(* ===== verification/Cipher.thy ===== *)
theory Cipher
  imports Primitives Frame Go_Text
begin

unbundle bit_operations_syntax

text \<open>
  Package \<open>crypto\<close> (\<open>crypto/cipher.go\<close>): the derivation of nonces, additional data and
  rekeyed keys, and the encryption of one frame. A record's nonce is a 4-byte prefix hashed
  from the session and key, followed by the record's sequence number; its additional data is
  the frame header with the encrypted flag set, the epoch and the sequence number.
\<close>

definition FlagEncrypted :: byte where
  "FlagEncrypted = 0x01"

type_synonym session_key = bytes

definition DeriveSessionKey :: "bytes \<Rightarrow> bytes \<Rightarrow> session_key" where
  "DeriveSessionKey client server = map (\<lambda>i. client ! i XOR server ! i) [0..<32]"

definition DeriveNonce :: "u64 \<Rightarrow> session_key \<Rightarrow> byte \<Rightarrow> u64 \<Rightarrow> bytes" where
  "DeriveNonce sessionID key direction sequence =
     (let digest = sha256 (str ''SHADOWLARK_NONCE_PREFIX'' @ be64 sessionID @ [direction] @ key)
      in take 4 digest @ be64 sequence)"

definition BuildAAD :: "frame \<Rightarrow> u32 \<Rightarrow> u64 \<Rightarrow> bytes" where
  "BuildAAD f epoch sequence =
     [f_Version f, f_MsgType f, f_Flags f OR FlagEncrypted] @ be32 epoch @ be64 sequence @ [0]"

definition RekeyMaterial :: "session_key \<Rightarrow> u64 \<Rightarrow> byte \<Rightarrow> session_key" where
  "RekeyMaterial key sessionID direction =
     take 32 (sha256 (str ''SHADOWLARK_REKEY'' @ be64 sessionID @ [direction] @ key))"

definition EncryptFrame :: "primitives \<Rightarrow> frame \<Rightarrow> session_key \<Rightarrow> bytes \<Rightarrow> bytes \<Rightarrow> frame outcome" where
  "EncryptFrame P f key nonce aad =
     (if f_Flags f AND FlagEncrypted \<noteq> 0 then Err (CipherError EncryptAlreadyEncrypted)
      else if \<not> p_aead_key_ok P key then Err (CipherError AeadKeyLength)
      else let ciphertext = p_seal P key nonce (f_Payload f) aad
           in Ok \<lparr>f_Version = f_Version f, f_MsgType = f_MsgType f,
                  f_Flags = f_Flags f OR FlagEncrypted, f_Payload = ciphertext\<rparr>)"

definition DecryptFrame :: "primitives \<Rightarrow> frame \<Rightarrow> session_key \<Rightarrow> bytes \<Rightarrow> bytes \<Rightarrow> frame outcome" where
  "DecryptFrame P f key nonce aad =
     (if f_Flags f AND FlagEncrypted = 0 then Err (CipherError DecryptNotEncrypted)
      else if \<not> p_aead_key_ok P key then Err (CipherError AeadKeyLength)
      else case p_open P key nonce (f_Payload f) aad of
          None \<Rightarrow> Err (CipherError AeadOpenFailed)
        | Some plaintext \<Rightarrow>
            Ok \<lparr>f_Version = f_Version f, f_MsgType = f_MsgType f,
                f_Flags = f_Flags f AND NOT FlagEncrypted, f_Payload = plaintext\<rparr>)"

section \<open>Lengths and injectivity\<close>

definition encrypted :: "frame \<Rightarrow> bool" where
  "encrypted f \<longleftrightarrow> f_Flags f AND FlagEncrypted \<noteq> 0"

lemma length_DeriveSessionKey: "length (DeriveSessionKey c s) = 32"
  by (simp add: DeriveSessionKey_def)

lemma DeriveSessionKey_commute: "DeriveSessionKey c s = DeriveSessionKey s c"
  by (simp add: DeriveSessionKey_def xor.commute)

lemma length_DeriveNonce [simp]: "length (DeriveNonce sid k dir sq) = 12"
  by (simp add: DeriveNonce_def Let_def)

lemma length_BuildAAD [simp]: "length (BuildAAD f e sq) = 16"
  by (simp add: BuildAAD_def)

lemma length_RekeyMaterial [simp]: "length (RekeyMaterial k sid dir) = 32"
  by (simp add: RekeyMaterial_def)

text \<open>Under one key and direction the nonce determines the sequence number.\<close>

lemma DeriveNonce_inject [simp]: "DeriveNonce sid k dir s = DeriveNonce sid k dir t \<longleftrightarrow> s = t"
  by (simp add: DeriveNonce_def Let_def)

text \<open>The additional data determines every field it is built from.\<close>

lemma BuildAAD_inject:
  "BuildAAD f e s = BuildAAD g e' s' \<longleftrightarrow>
     f_Version f = f_Version g \<and> f_MsgType f = f_MsgType g \<and>
     f_Flags f OR FlagEncrypted = f_Flags g OR FlagEncrypted \<and> e = e' \<and> s = s'"
  by (auto simp: BuildAAD_def dest: append_eq_append_conv [THEN iffD1, rotated])

lemma flag_set_twice: "(fl OR FlagEncrypted) OR FlagEncrypted = fl OR FlagEncrypted"
  by (simp add: or.assoc)

lemma flag_set: "(fl OR FlagEncrypted) AND FlagEncrypted \<noteq> 0"
  by (simp add: FlagEncrypted_def bit.conj_disj_distrib2)

lemma flag_clear:
  assumes "fl AND FlagEncrypted = 0"
  shows "(fl OR FlagEncrypted) AND NOT FlagEncrypted = fl"
proof -
  have "fl = fl AND (FlagEncrypted OR NOT FlagEncrypted)" by simp
  also have "\<dots> = fl AND NOT FlagEncrypted"
    using assms by (simp only: bit.conj_disj_distrib) simp
  finally have "fl AND NOT FlagEncrypted = fl" ..
  then show ?thesis by (simp only: bit.conj_disj_distrib2) simp
qed

text \<open>The additional data does not change when the flag is set, so both ends build the same.\<close>

lemma BuildAAD_encrypted:
  "f_Version g = f_Version f \<Longrightarrow> f_MsgType g = f_MsgType f \<Longrightarrow>
     f_Flags g = f_Flags f OR FlagEncrypted \<Longrightarrow> BuildAAD g e s = BuildAAD f e s"
  by (simp add: BuildAAD_def flag_set_twice)

section \<open>Encrypting and decrypting one frame\<close>

lemma EncryptFrame_Ok:
  assumes "aead_correct P" "length k = 32" "\<not> encrypted f"
  shows "EncryptFrame P f k n a = Ok \<lparr>f_Version = f_Version f, f_MsgType = f_MsgType f,
    f_Flags = f_Flags f OR FlagEncrypted, f_Payload = p_seal P k n (f_Payload f) a\<rparr>"
  using assms by (simp add: EncryptFrame_def encrypted_def aead_correct_def)

lemma EncryptFrame_OkD:
  assumes "EncryptFrame P f k n a = Ok g"
  shows "\<not> encrypted f" "encrypted g" "f_Version g = f_Version f" "f_MsgType g = f_MsgType f"
    "f_Flags g = f_Flags f OR FlagEncrypted" "f_Payload g = p_seal P k n (f_Payload f) a"
  using assms flag_set by (auto simp: EncryptFrame_def encrypted_def Let_def split: if_splits)

lemma DecryptFrame_OkD:
  assumes "DecryptFrame P g k n a = Ok f"
  shows "encrypted g" "f_Version f = f_Version g" "f_MsgType f = f_MsgType g"
    "f_Flags f = f_Flags g AND NOT FlagEncrypted" "p_open P k n (f_Payload g) a = Some (f_Payload f)"
  using assms by (auto simp: DecryptFrame_def encrypted_def split: if_splits option.splits)

lemma DecryptFrame_EncryptFrame:
  assumes P: "aead_correct P" and len: "length k = 32" "length n = 12"
    and enc: "EncryptFrame P f k n a = Ok g"
  shows "DecryptFrame P g k n a = Ok f"
proof -
  note g = EncryptFrame_OkD [OF enc]
  have "p_open P k n (f_Payload g) a = Some (f_Payload f)"
    using P len g(6) by (simp add: aead_correct_def)
  moreover have "f_Flags g AND NOT FlagEncrypted = f_Flags f"
    using g(1,5) by (simp add: encrypted_def flag_clear)
  ultimately show ?thesis
    using P len g(2,3,4) by (simp add: DecryptFrame_def encrypted_def aead_correct_def)
qed

lemma cipher_never_panics: "EncryptFrame P f k n a \<noteq> Panic" "DecryptFrame P f k n a \<noteq> Panic"
  by (auto simp: EncryptFrame_def DecryptFrame_def Let_def split: option.splits)

section \<open>Properties\<close>

text \<open>C18: decrypting an encrypted frame with the same key, nonce and additional data gives the frame
  back; a frame that carries the encrypted flag is not encrypted again, and one that does not is
  not decrypted.\<close>

theorem frame_encryption_inverts:
  assumes "aead_correct P" "length k = 32" "length n = 12"
  shows "(if encrypted f then EncryptFrame P f k n a = Err (CipherError EncryptAlreadyEncrypted)
    else obind (EncryptFrame P f k n a) (\<lambda>g. DecryptFrame P g k n a) = Ok f \<and>
      DecryptFrame P f k n a = Err (CipherError DecryptNotEncrypted))"
proof (cases "encrypted f")
  case True
  then show ?thesis by (simp add: EncryptFrame_def encrypted_def)
next
  case False
  obtain g where g: "EncryptFrame P f k n a = Ok g"
    using EncryptFrame_Ok [OF assms(1,2) False] by blast
  have "DecryptFrame P f k n a = Err (CipherError DecryptNotEncrypted)"
    using False by (simp add: DecryptFrame_def encrypted_def)
  with False g DecryptFrame_EncryptFrame [OF assms g] show ?thesis by simp
qed

theorem frame_encryption_inverts_witness:
  "obind (EncryptFrame sample (frame_New 5 0 [1, 2]) (replicate 32 7) (replicate 12 0) [])
     (\<lambda>g. DecryptFrame sample g (replicate 32 7) (replicate 12 0) []) = Ok (frame_New 5 0 [1, 2])"
  using frame_encryption_inverts [OF sample_aead, of "replicate 32 7" "replicate 12 0" "frame_New 5 0 [1, 2]" "[]"]
  by (simp add: encrypted_def frame_New_def)

text \<open>C17: the additional data of a record fixes everything it is built from: two records have the
  same one exactly when they agree in version, message type, flags (the encrypted bit apart), epoch
  and sequence number; and under one key and direction nonces differ when sequence numbers do.\<close>

theorem record_binding:
  "(BuildAAD f e s = BuildAAD g e' s' \<longleftrightarrow>
     f_Version f = f_Version g \<and> f_MsgType f = f_MsgType g \<and>
     f_Flags f OR FlagEncrypted = f_Flags g OR FlagEncrypted \<and> e = e' \<and> s = s') \<and>
   (DeriveNonce sid k dir s = DeriveNonce sid k dir s' \<longleftrightarrow> s = s') \<and>
   length (DeriveNonce sid k dir s) = 12"
  by (simp add: BuildAAD_inject)

end
