(* ===== verification/Identity.thy ===== *)
theory Identity
  imports Primitives Frame
begin

unbundle bit_operations_syntax

text \<open>
  The identities of \<open>transport/handshake/handshake.go\<close>: key pairs, the trust store of pinned
  Ed25519 keys, and the signed identity bundle with its encoding, its signature input and
  its validation. The bundle's format is an \<open>exact_codec\<close>, and what its signature covers
  determines every other field.

  Reading \<open>rand.Reader\<close> is an argument: the bytes read, or \<open>None\<close> when the read fails.
\<close>

section \<open>Key pairs\<close>

record identity_keypair =
  id_ed25519Private :: bytes
  id_ed25519Public :: bytes
  id_x25519Private :: bytes
  id_x25519Public :: bytes

definition x25519PublicFromPrivate :: "primitives \<Rightarrow> bytes \<Rightarrow> bytes outcome" where
  "x25519PublicFromPrivate P private = (case p_x25519 P private (p_x_basepoint P) of
      None \<Rightarrow> Err (IdentityError X25519LowOrder)
    | Some pub \<Rightarrow> Ok (arr 32 pub))"

definition x25519Shared :: "primitives \<Rightarrow> bytes \<Rightarrow> bytes \<Rightarrow> bytes outcome" where
  "x25519Shared P private peerPublic = (case p_x25519 P private peerPublic of
      None \<Rightarrow> Err (IdentityError X25519LowOrder)
    | Some shared \<Rightarrow> Ok (arr 32 shared))"

definition random32 :: "bytes option \<Rightarrow> bytes outcome" where
  "random32 rnd = (case rnd of None \<Rightarrow> Err (IdentityError RandRead) | Some b \<Rightarrow> Ok (arr 32 b))"

text \<open>\<open>ed25519.GenerateKey\<close> reads a seed and expands it.\<close>

definition GenerateIdentityKeypair ::
    "primitives \<Rightarrow> bytes option \<Rightarrow> bytes option \<Rightarrow> identity_keypair outcome" where
  "GenerateIdentityKeypair P rnd1 rnd2 =
     obind (random32 rnd1) (\<lambda>seed.
     let priv = p_ed_from_seed P seed; pub = p_ed_public P priv; edPub = arr 32 pub in
     obind (random32 rnd2) (\<lambda>xPriv.
     obind (x25519PublicFromPrivate P xPriv) (\<lambda>xPub.
     Ok \<lparr>id_ed25519Private = priv, id_ed25519Public = edPub,
         id_x25519Private = xPriv, id_x25519Public = xPub\<rparr>)))"

definition IdentityKeypairFromSeeds :: "primitives \<Rightarrow> bytes \<Rightarrow> bytes \<Rightarrow> identity_keypair outcome" where
  "IdentityKeypairFromSeeds P ed25519Seed x25519Private =
     (let priv = p_ed_from_seed P ed25519Seed; pub = p_ed_public P priv; edPub = arr 32 pub in
     obind (x25519PublicFromPrivate P x25519Private) (\<lambda>xPub.
     Ok \<lparr>id_ed25519Private = priv, id_ed25519Public = edPub,
         id_x25519Private = x25519Private, id_x25519Public = xPub\<rparr>))"

text \<open>\<open>ed25519.Sign\<close> panics on a private key that is not 64 bytes long.\<close>

definition SignEd25519 :: "primitives \<Rightarrow> identity_keypair \<Rightarrow> bytes \<Rightarrow> bytes outcome" where
  "SignEd25519 P k m =
     (if length (id_ed25519Private k) = 0 then Err (IdentityError MissingEdPrivate)
      else if length (id_ed25519Private k) \<noteq> 64 then Panic
      else Ok (arr 64 (p_ed_sign P (id_ed25519Private k) m)))"

definition VerifyEd25519 :: "primitives \<Rightarrow> bytes \<Rightarrow> bytes \<Rightarrow> bytes \<Rightarrow> unit outcome" where
  "VerifyEd25519 P publicKey m signature =
     ocheck (p_ed_verify P publicKey m signature) (IdentityError EdVerifyFailed)"

definition X25519SharedSecret :: "primitives \<Rightarrow> identity_keypair \<Rightarrow> bytes \<Rightarrow> bytes outcome" where
  "X25519SharedSecret P k peerPublic = x25519Shared P (id_x25519Private k) peerPublic"

section \<open>Trust store\<close>

text \<open>A Go map used as a set; the map of the zero value is nil, here \<open>None\<close>.\<close>

record trust_store =
  ts_pinned :: "(bytes \<rightharpoonup> unit) option"

definition StrictTrustStore :: trust_store where
  "StrictTrustStore = \<lparr>ts_pinned = Some Map.empty\<rparr>"

definition Pin :: "bytes \<Rightarrow> trust_store \<Rightarrow> trust_store" where
  "Pin publicKey t =
     (let m = (case ts_pinned t of None \<Rightarrow> Map.empty | Some m \<Rightarrow> m)
      in t\<lparr>ts_pinned := Some (m(publicKey \<mapsto> ()))\<rparr>)"

definition IsTrusted :: "trust_store \<Rightarrow> bytes \<Rightarrow> bool" where
  "IsTrusted t publicKey = (case ts_pinned t of None \<Rightarrow> False | Some m \<Rightarrow> m publicKey \<noteq> None)"

lemma IsTrusted_Strict: "\<not> IsTrusted StrictTrustStore k"
  by (simp add: IsTrusted_def StrictTrustStore_def)

lemma IsTrusted_Pin: "IsTrusted (Pin k t) k' \<longleftrightarrow> k' = k \<or> IsTrusted t k'"
  by (auto simp: IsTrusted_def Pin_def Let_def split: option.splits)

section \<open>Identity bundles\<close>

definition IdentityBundleVersion :: byte where
  "IdentityBundleVersion = 1"

definition IdentityBundleSigAlgEd25519 :: byte where
  "IdentityBundleSigAlgEd25519 = 1"

record identity_bundle =
  b_BundleVersion :: byte
  b_SigAlg :: byte
  b_KeyID :: bytes
  b_NotBeforeUnix :: u64
  b_NotAfterUnix :: u64
  b_X25519StaticPublic :: bytes
  b_Ed25519Public :: bytes
  b_Signature :: bytes

text \<open>\<open>int(^uint16(0))\<close>.\<close>

definition max_u16 :: nat where
  "max_u16 = 65535"

definition signatureInput :: "identity_bundle \<Rightarrow> bytes outcome" where
  "signatureInput b =
     (if length (b_KeyID b) > max_u16 then Err (IdentityError KeyIdTooLarge)
      else let enc = WriteBytes (str ''SHADOWLARK_ID_BUNDLE'') NewEncoder;
               enc = WriteU8 (b_BundleVersion b) enc;
               enc = WriteU8 (b_SigAlg b) enc;
               enc = WriteU16 (of_nat (length (b_KeyID b))) enc;
               enc = WriteBytes (b_KeyID b) enc;
               enc = WriteU64 (b_NotBeforeUnix b) enc;
               enc = WriteU64 (b_NotAfterUnix b) enc;
               enc = WriteBytes (b_X25519StaticPublic b) enc;
               enc = WriteBytes (b_Ed25519Public b) enc
           in Ok (Encoder_Bytes enc))"

definition SignedIdentityBundle ::
    "primitives \<Rightarrow> bytes \<Rightarrow> u64 \<Rightarrow> u64 \<Rightarrow> identity_keypair \<Rightarrow> identity_bundle outcome" where
  "SignedIdentityBundle P keyID notBeforeUnix notAfterUnix identity =
     (let bundle = \<lparr>b_BundleVersion = IdentityBundleVersion, b_SigAlg = IdentityBundleSigAlgEd25519,
            b_KeyID = keyID, b_NotBeforeUnix = notBeforeUnix, b_NotAfterUnix = notAfterUnix,
            b_X25519StaticPublic = id_x25519Public identity,
            b_Ed25519Public = id_ed25519Public identity, b_Signature = replicate 64 0\<rparr> in
      obind (signatureInput bundle) (\<lambda>input.
      obind (SignEd25519 P identity input) (\<lambda>sig.
      Ok (bundle\<lparr>b_Signature := sig\<rparr>))))"

definition Bundle_Encode :: "identity_bundle \<Rightarrow> (encoder, unit) go_method" where
  "Bundle_Encode b enc =
     (if length (b_KeyID b) > max_u16 then (Err (IdentityError KeyIdTooLarge), enc)
      else let enc = WriteU8 (b_BundleVersion b) enc;
               enc = WriteU8 (b_SigAlg b) enc;
               enc = WriteU16 (of_nat (length (b_KeyID b))) enc;
               enc = WriteBytes (b_KeyID b) enc;
               enc = WriteU64 (b_NotBeforeUnix b) enc;
               enc = WriteU64 (b_NotAfterUnix b) enc;
               enc = WriteBytes (b_X25519StaticPublic b) enc;
               enc = WriteBytes (b_Ed25519Public b) enc;
               enc = WriteBytes (b_Signature b) enc
           in (Ok (), enc))"

definition DecodeIdentityBundle :: "identity_bundle reader" where
  "DecodeIdentityBundle =
     sbind ReadU8 (\<lambda>bundleVersion.
     sbind ReadU8 (\<lambda>sigAlg.
     sbind ReadU16 (\<lambda>keyIDLen.
     sbind (ReadBytes (uint keyIDLen)) (\<lambda>keyIDBytes.
     sbind ReadU64 (\<lambda>notBeforeUnix.
     sbind ReadU64 (\<lambda>notAfterUnix.
     sbind (ReadBytes 32) (\<lambda>x25519StaticPublicBytes.
     sbind (ReadBytes 32) (\<lambda>ed25519PublicBytes.
     sbind (ReadBytes 64) (\<lambda>sigBytes.
     sret \<lparr>b_BundleVersion = bundleVersion, b_SigAlg = sigAlg, b_KeyID = keyIDBytes,
           b_NotBeforeUnix = notBeforeUnix, b_NotAfterUnix = notAfterUnix,
           b_X25519StaticPublic = arr 32 x25519StaticPublicBytes,
           b_Ed25519Public = arr 32 ed25519PublicBytes, b_Signature = arr 64 sigBytes\<rparr>)))))))))"

definition Bundle_ToBytes :: "identity_bundle \<Rightarrow> bytes outcome" where
  "Bundle_ToBytes b = (case Bundle_Encode b NewEncoder of
      (Ok _, enc) \<Rightarrow> Ok (Encoder_Bytes enc)
    | (Err e, _) \<Rightarrow> Err e
    | (Panic, _) \<Rightarrow> Panic)"

definition IdentityBundleFromBytes :: "bytes \<Rightarrow> identity_bundle outcome" where
  "IdentityBundleFromBytes payload =
     decode_all DecodeIdentityBundle (IdentityError TrailingBundle) payload"

definition Validate :: "primitives \<Rightarrow> identity_bundle \<Rightarrow> trust_store \<Rightarrow> u64 \<Rightarrow> unit outcome" where
  "Validate P b trust nowUnix =
     (if b_BundleVersion b \<noteq> IdentityBundleVersion
        then Err (IdentityError (BundleVersionUnsupported (b_BundleVersion b)))
      else if b_SigAlg b \<noteq> IdentityBundleSigAlgEd25519
        then Err (IdentityError (SigAlgUnsupported (b_SigAlg b)))
      else if nowUnix < b_NotBeforeUnix b \<or> nowUnix > b_NotAfterUnix b
        then Err (IdentityError OutsideValidity)
      else if \<not> IsTrusted trust (b_Ed25519Public b) then Err (IdentityError NotTrusted)
      else obind (signatureInput b) (\<lambda>input.
        case VerifyEd25519 P (b_Ed25519Public b) input (b_Signature b) of
          Ok _ \<Rightarrow> Ok () | Err _ \<Rightarrow> Err (IdentityError BundleSignature) | Panic \<Rightarrow> Panic))"

section \<open>The bundle's format\<close>

text \<open>The signed fields as bytes, and the whole bundle.\<close>

definition bundle_fields :: "identity_bundle \<Rightarrow> bytes" where
  "bundle_fields b = b_BundleVersion b # b_SigAlg b # be16 (of_nat (length (b_KeyID b))) @
     b_KeyID b @ be64 (b_NotBeforeUnix b) @ be64 (b_NotAfterUnix b) @
     b_X25519StaticPublic b @ b_Ed25519Public b"

definition bundle_bytes :: "identity_bundle \<Rightarrow> bytes" where
  "bundle_bytes b = bundle_fields b @ b_Signature b"

definition bundle_ok :: "identity_bundle \<Rightarrow> bool" where
  "bundle_ok b \<longleftrightarrow> length (b_KeyID b) \<le> max_u16 \<and> length (b_X25519StaticPublic b) = 32 \<and>
     length (b_Ed25519Public b) = 32 \<and> length (b_Signature b) = 64"

lemma length_bundle_bytes: "bundle_ok b \<Longrightarrow> length (bundle_bytes b) = 148 + length (b_KeyID b)"
  by (simp add: bundle_bytes_def bundle_fields_def bundle_ok_def)

lemma bundle_bytes_short: "bundle_ok b \<Longrightarrow> length (bundle_bytes b) < 2 ^ 62"
  by (simp add: length_bundle_bytes) (simp add: bundle_ok_def max_u16_def)

lemma Bundle_ToBytes_eq:
  "Bundle_ToBytes b = (if length (b_KeyID b) > max_u16 then Err (IdentityError KeyIdTooLarge)
     else Ok (bundle_bytes b))"
  by (simp add: Bundle_ToBytes_def Bundle_Encode_def Let_def encode_simps bundle_bytes_def
      bundle_fields_def)

lemma signatureInput_eq:
  "signatureInput b = (if length (b_KeyID b) > max_u16 then Err (IdentityError KeyIdTooLarge)
     else Ok (str ''SHADOWLARK_ID_BUNDLE'' @ bundle_fields b))"
  by (simp add: signatureInput_def Let_def encode_simps bundle_fields_def)

lemma uint_of_nat16: "n \<le> max_u16 \<Longrightarrow> uint (of_nat n :: u16) = int n"
  by (simp add: max_u16_def uint_nat unat_of_nat)

lemma bundle_roundtrip: "bundle_ok b \<Longrightarrow> parses DecodeIdentityBundle (bundle_bytes b) b"
  unfolding DecodeIdentityBundle_def bundle_bytes_def bundle_fields_def append_Cons append_assoc
  by (intro parses_steps) (auto simp: bundle_ok_def uint_of_nat16 max_u16_def)

lemma bundle_reads: "reads DecodeIdentityBundle (\<lambda>bs b. bundle_ok b \<and> bs = bundle_bytes b)"
  unfolding DecodeIdentityBundle_def
  by (intro reads_steps)
     (use unat16_less in \<open>auto simp: bundle_ok_def bundle_bytes_def bundle_fields_def max_u16_def
       less_Suc_eq_le [of _ 65535, simplified]\<close>)

interpretation bundle_format: exact_codec bundle_bytes DecodeIdentityBundle bundle_ok
  by unfold_locales (auto intro: bundle_roundtrip bundle_reads)

lemma IdentityBundleFromBytes_iff:
  assumes "length p < 2 ^ 62"
  shows "IdentityBundleFromBytes p = Ok b \<longleftrightarrow> bundle_ok b \<and> p = bundle_bytes b"
  using decode_all_parses [OF bundle_roundtrip] decode_all_reads [OF bundle_reads assms] assms
  unfolding IdentityBundleFromBytes_def by metis

lemma IdentityBundleFromBytes_no_panic:
  "length p < 2 ^ 62 \<Longrightarrow> IdentityBundleFromBytes p \<noteq> Panic"
  unfolding IdentityBundleFromBytes_def
  by (rule decode_all_no_panic [OF bundle_format.dec_bounded])

text \<open>What is signed determines everything that is signed.\<close>

lemma bundle_fields_inject:
  assumes "bundle_ok b" "bundle_ok c" "bundle_fields b = bundle_fields c"
  shows "b\<lparr>b_Signature := s\<rparr> = c\<lparr>b_Signature := s\<rparr>"
proof -
  let ?b = "b\<lparr>b_Signature := replicate 64 0\<rparr>" and ?c = "c\<lparr>b_Signature := replicate 64 0\<rparr>"
  have ok: "bundle_ok ?b" "bundle_ok ?c" using assms(1,2) by (simp_all add: bundle_ok_def)
  have "bundle_bytes ?b = bundle_bytes ?c"
    using assms(3) by (simp add: bundle_bytes_def bundle_fields_def)
  then have "?b = ?c" by (rule bundle_format.enc_inject [OF ok _ bundle_bytes_short [OF ok(1)]])
  then have "?b\<lparr>b_Signature := s\<rparr> = ?c\<lparr>b_Signature := s\<rparr>" by simp
  then show ?thesis by simp
qed

section \<open>Validation\<close>

lemma Validate_Ok_iff:
  "Validate P b trust now = Ok () \<longleftrightarrow>
     b_BundleVersion b = IdentityBundleVersion \<and> b_SigAlg b = IdentityBundleSigAlgEd25519 \<and>
     b_NotBeforeUnix b \<le> now \<and> now \<le> b_NotAfterUnix b \<and> IsTrusted trust (b_Ed25519Public b) \<and>
     length (b_KeyID b) \<le> max_u16 \<and>
     p_ed_verify P (b_Ed25519Public b) (str ''SHADOWLARK_ID_BUNDLE'' @ bundle_fields b) (b_Signature b)"
  by (auto simp: Validate_def signatureInput_eq VerifyEd25519_def ocheck_def split: if_splits)

lemma Validate_no_panic: "Validate P b trust now \<noteq> Panic"
  by (simp add: Validate_def signatureInput_eq VerifyEd25519_def ocheck_def)

text \<open>An identity made from seeds, and the lengths its fields then have.\<close>

definition identity_ok :: "primitives \<Rightarrow> identity_keypair \<Rightarrow> bool" where
  "identity_ok P k \<longleftrightarrow> (\<exists>seed x. length seed = 32 \<and> length x = 32 \<and>
     IdentityKeypairFromSeeds P seed x = Ok k)"

lemma x25519Public_total:
  assumes "dh_correct P" "length x = 32"
  obtains A where "x25519PublicFromPrivate P x = Ok A" "length A = 32"
    "p_x25519 P x (p_x_basepoint P) = Some A"
  using assms unfolding dh_correct_def x25519PublicFromPrivate_def
  by (metis arr_id option.simps(5))

lemma FromSeeds_total:
  assumes "dh_correct P" "length seed = 32" "length x = 32"
  shows "\<exists>k. IdentityKeypairFromSeeds P seed x = Ok k"
  by (rule x25519Public_total [OF assms(1,3)]) (simp add: IdentityKeypairFromSeeds_def Let_def)

lemma identity_okD:
  assumes "signature_correct P" "dh_correct P" "identity_ok P k"
  shows "length (id_ed25519Private k) = 64" "length (id_ed25519Public k) = 32"
    "length (id_x25519Private k) = 32" "length (id_x25519Public k) = 32"
    "p_x25519 P (id_x25519Private k) (p_x_basepoint P) = Some (id_x25519Public k)"
    "\<exists>sig. SignEd25519 P k m = Ok sig \<and> length sig = 64 \<and> p_ed_verify P (id_ed25519Public k) m sig"
proof -
  from assms(3) obtain seed x where k: "length seed = 32" "length x = 32"
    "IdentityKeypairFromSeeds P seed x = Ok k" by (auto simp: identity_ok_def)
  from x25519Public_total [OF assms(2) k(2)] obtain A where A:
    "x25519PublicFromPrivate P x = Ok A" "length A = 32" "p_x25519 P x (p_x_basepoint P) = Some A" .
  have sg: "length (p_ed_from_seed P seed) = 64" "length (p_ed_public P (p_ed_from_seed P seed)) = 32"
    "length (p_ed_sign P (p_ed_from_seed P seed) m) = 64"
    "p_ed_verify P (p_ed_public P (p_ed_from_seed P seed)) m (p_ed_sign P (p_ed_from_seed P seed) m)"
    using assms(1) k(1) by (simp_all add: signature_correct_def)
  have k_eq: "k = \<lparr>id_ed25519Private = p_ed_from_seed P seed,
      id_ed25519Public = p_ed_public P (p_ed_from_seed P seed),
      id_x25519Private = x, id_x25519Public = A\<rparr>"
    using k(3) A(1) sg(2) by (simp add: IdentityKeypairFromSeeds_def Let_def)
  show "length (id_ed25519Private k) = 64" "length (id_ed25519Public k) = 32"
    "length (id_x25519Private k) = 32" "length (id_x25519Public k) = 32"
    "p_x25519 P (id_x25519Private k) (p_x_basepoint P) = Some (id_x25519Public k)"
    "\<exists>sig. SignEd25519 P k m = Ok sig \<and> length sig = 64 \<and> p_ed_verify P (id_ed25519Public k) m sig"
    using sg A k(2) by (simp_all add: k_eq SignEd25519_def)
qed

lemma SignedIdentityBundle_Ok:
  assumes "signature_correct P" "dh_correct P" "identity_ok P k" "length keyID \<le> max_u16"
  obtains b where "SignedIdentityBundle P keyID nb na k = Ok b" "bundle_ok b"
    "b_KeyID b = keyID" "b_Ed25519Public b = id_ed25519Public k"
    "b_X25519StaticPublic b = id_x25519Public k"
    "\<And>trust now. Validate P b trust now = Ok () \<longleftrightarrow>
       nb \<le> now \<and> now \<le> na \<and> IsTrusted trust (id_ed25519Public k)"
proof -
  let ?b = "\<lparr>b_BundleVersion = IdentityBundleVersion, b_SigAlg = IdentityBundleSigAlgEd25519,
      b_KeyID = keyID, b_NotBeforeUnix = nb, b_NotAfterUnix = na,
      b_X25519StaticPublic = id_x25519Public k,
      b_Ed25519Public = id_ed25519Public k, b_Signature = replicate 64 0\<rparr>"
  note idk = identity_okD [OF assms(1-3)]
  obtain sig where sig: "SignEd25519 P k (str ''SHADOWLARK_ID_BUNDLE'' @ bundle_fields ?b) = Ok sig"
    "length sig = 64"
    "p_ed_verify P (id_ed25519Public k) (str ''SHADOWLARK_ID_BUNDLE'' @ bundle_fields ?b) sig"
    using idk(6) by blast
  show ?thesis
  proof (rule that)
    show "SignedIdentityBundle P keyID nb na k = Ok (?b\<lparr>b_Signature := sig\<rparr>)"
      using sig(1) assms(4) by (simp add: SignedIdentityBundle_def Let_def signatureInput_eq)
    show "bundle_ok (?b\<lparr>b_Signature := sig\<rparr>)"
      using sig(2) assms(4) idk by (simp add: bundle_ok_def)
    fix trust now
    show "Validate P (?b\<lparr>b_Signature := sig\<rparr>) trust now = Ok () \<longleftrightarrow>
       nb \<le> now \<and> now \<le> na \<and> IsTrusted trust (id_ed25519Public k)"
      using sig(3) assms(4) by (simp add: Validate_Ok_iff bundle_fields_def)
  qed simp_all
qed

section \<open>Properties\<close>

text \<open>C16: a bundle signed with an identity made from seeds survives encoding, and is valid exactly for
  those who pinned the identity's key, at times inside the bundle's validity.\<close>

theorem signed_bundle_validates:
  assumes "signature_correct P" "dh_correct P" "length seed = 32" "length x = 32"
    "length keyID \<le> 65535" "IdentityKeypairFromSeeds P seed x = Ok k"
    "SignedIdentityBundle P keyID nb na k = Ok b"
  shows "obind (Bundle_ToBytes b) IdentityBundleFromBytes = Ok b \<and>
    (Validate P b trust now = Ok () \<longleftrightarrow>
       nb \<le> now \<and> now \<le> na \<and> IsTrusted trust (id_ed25519Public k))"
proof -
  have k: "identity_ok P k" using assms by (auto simp: identity_ok_def)
  have kid: "length keyID \<le> max_u16" using assms(5) by (simp add: max_u16_def)
  obtain b' where b': "SignedIdentityBundle P keyID nb na k = Ok b'" "bundle_ok b'"
    "\<And>trust now. Validate P b' trust now = Ok () \<longleftrightarrow>
       nb \<le> now \<and> now \<le> na \<and> IsTrusted trust (id_ed25519Public k)"
    by (rule SignedIdentityBundle_Ok [OF assms(1,2) k kid, of nb na]) blast
  with assms(7) have b: "b' = b" "bundle_ok b" by simp_all
  have "obind (Bundle_ToBytes b) IdentityBundleFromBytes = Ok b"
    using b(2) IdentityBundleFromBytes_iff [OF bundle_bytes_short [OF b(2)], of b]
    by (simp add: Bundle_ToBytes_eq bundle_ok_def not_less)
  with b'(3) b(1) show ?thesis by simp
qed

theorem signed_bundle_validates_witness:
  "\<exists>k b. IdentityKeypairFromSeeds sample (replicate 32 1) (replicate 32 2) = Ok k \<and>
     SignedIdentityBundle sample [65] 10 20 k = Ok b \<and>
     Validate sample b (Pin (id_ed25519Public k) StrictTrustStore) 15 = Ok () \<and>
     Validate sample b (Pin (id_ed25519Public k) StrictTrustStore) 21 \<noteq> Ok ()"
proof -
  obtain k where k: "IdentityKeypairFromSeeds sample (replicate 32 1) (replicate 32 2) = Ok k"
    using FromSeeds_total [OF sample_dh, of "replicate 32 1" "replicate 32 2"] by auto
  then have "identity_ok sample k"
    unfolding identity_ok_def by (intro exI [of _ "replicate 32 1"] exI [of _ "replicate 32 2"]) simp
  then obtain b where b: "SignedIdentityBundle sample [65] 10 20 k = Ok b"
    by (rule SignedIdentityBundle_Ok [OF sample_signature sample_dh, of k "[65]" 10 20]) (auto simp: max_u16_def)
  from signed_bundle_validates [OF sample_signature sample_dh _ _ _ k b]
  have v: "Validate sample b trust now = Ok () \<longleftrightarrow>
      10 \<le> now \<and> now \<le> 20 \<and> IsTrusted trust (id_ed25519Public k)" for trust now by simp
  have "Validate sample b (Pin (id_ed25519Public k) StrictTrustStore) 15 = Ok ()"
    "Validate sample b (Pin (id_ed25519Public k) StrictTrustStore) 21 \<noteq> Ok ()"
    by (simp_all add: v IsTrusted_Pin)
  with k b show ?thesis by blast
qed

definition blank_bundle :: identity_bundle where
  "blank_bundle = \<lparr>b_BundleVersion = 1, b_SigAlg = 1, b_KeyID = [65], b_NotBeforeUnix = 0,
     b_NotAfterUnix = 9, b_X25519StaticPublic = replicate 32 1, b_Ed25519Public = replicate 32 2,
     b_Signature = replicate 64 0\<rparr>"

text \<open>The signature of a bundle covers every other field: two bundles of the right shape with the
  same signature input differ at most in the signature.\<close>

lemma bundle_signature_covers_fields:
  assumes "bundle_ok b" "bundle_ok c" "signatureInput b = signatureInput c"
  shows "b\<lparr>b_Signature := s\<rparr> = c\<lparr>b_Signature := s\<rparr>"
  using assms by (intro bundle_fields_inject) (simp_all add: signatureInput_eq bundle_ok_def split: if_splits)

end
