(* ===== verification/Handshake_Messages.thy ===== *)
theory Handshake_Messages
  imports Identity
begin

unbundle bit_operations_syntax

text \<open>
  The three handshake messages of \<open>transport/handshake/handshake.go\<close>, their bodies, and the
  frames that carry them: a kind byte, a reserved byte, a 16-bit length and the body.
  The body formats of the hellos are \<open>exact_codec\<close>s; the frame parsers ignore the reserved
  bytes, so a message has several frames but each accepted frame has one message.
\<close>

definition MsgHandshakeInit :: byte where "MsgHandshakeInit = 1"

definition MsgHandshakeAck :: byte where "MsgHandshakeAck = 2"

definition MsgClientFinish :: byte where "MsgClientFinish = 3"

definition MsgClientHello :: byte where "MsgClientHello = MsgHandshakeInit"

definition MsgServerHello :: byte where "MsgServerHello = MsgHandshakeAck"

definition HandshakePayloadInit :: byte where "HandshakePayloadInit = 1"

definition HandshakePayloadResponse :: byte where "HandshakePayloadResponse = 2"

definition HandshakePayloadFinish :: byte where "HandshakePayloadFinish = 3"

definition RoleHintUnspecified :: byte where "RoleHintUnspecified = 0"

definition RoleHintProducer :: byte where "RoleHintProducer = 1"

definition RoleHintConsumer :: byte where "RoleHintConsumer = 2"

definition RoleHintDuplex :: byte where "RoleHintDuplex = 3"

definition roleHintFromByte :: "byte \<Rightarrow> byte outcome" where
  "roleHintFromByte v =
     (if v = RoleHintUnspecified \<or> v = RoleHintProducer \<or> v = RoleHintConsumer \<or> v = RoleHintDuplex
      then Ok v else Err (WireError ClientFinishMsg (InvalidRoleHint v)))"

section \<open>The frame around a body\<close>

text \<open>\<open>wrap_body\<close> and \<open>unwrap_body\<close> are the code the three \<open>ToFrame\<close> and the three
  \<open>FromFrame\<close> functions have in common; they differ in the message type, the kind byte and
  the name in their errors.\<close>

definition wrap_body :: "hs_message \<Rightarrow> byte \<Rightarrow> byte \<Rightarrow> bytes \<Rightarrow> frame outcome" where
  "wrap_body msg msgType kind body =
     (if length body > max_u16 then Err (WireError msg BodyTooLarge)
      else let wrapper = WriteU8 kind NewEncoder;
               wrapper = WriteU8 0 wrapper;
               wrapper = WriteU16 (of_nat (length body)) wrapper;
               wrapper = WriteBytes body wrapper
           in Ok (frame_New msgType 0 (Encoder_Bytes wrapper)))"

definition read_wrapper :: "hs_message \<Rightarrow> byte \<Rightarrow> bytes reader" where
  "read_wrapper msg expected =
     sbind ReadU8 (\<lambda>kind.
     if kind \<noteq> expected then sfail (WireError msg InvalidKind) else
     sbind ReadU8 (\<lambda>reserved.
     sbind ReadU16 (\<lambda>bodyLen.
     sbind (ReadBytes (uint bodyLen)) (\<lambda>body.
     sret body))))"

definition unwrap_body :: "hs_message \<Rightarrow> byte \<Rightarrow> byte \<Rightarrow> 'a reader \<Rightarrow> frame \<Rightarrow> 'a outcome" where
  "unwrap_body msg msgType kind body_reader f =
     (if f_MsgType f \<noteq> msgType then Err (WireError msg UnexpectedMsgType)
      else obind (decode_all (read_wrapper msg kind) (WireError msg TrailingWrapper) (f_Payload f))
        (\<lambda>body. decode_all body_reader (WireError msg TrailingBody) body))"

lemma wrapper_parses:
  "length body \<le> max_u16 \<Longrightarrow>
     parses (read_wrapper msg kind) (kind # r # be16 (of_nat (length body)) @ body) body"
  unfolding read_wrapper_def
  by (intro parses_steps) (auto simp: uint_of_nat16 max_u16_def)

lemma wrapper_reads:
  "reads (read_wrapper msg kind) (\<lambda>bs body. length body \<le> max_u16 \<and>
     (\<exists>r. bs = kind # r # be16 (of_nat (length body)) @ body))"
  unfolding read_wrapper_def
  by (intro reads_steps)
     (use unat16_less in \<open>auto simp: max_u16_def less_Suc_eq_le [of _ 65535, simplified]\<close>)

lemma wrap_body_Ok_iff:
  "wrap_body msg mt kind body = Ok f \<longleftrightarrow> length body \<le> max_u16 \<and>
     f = frame_New mt 0 (kind # 0 # be16 (of_nat (length body)) @ body)"
  by (auto simp: wrap_body_def Let_def encode_simps)

lemma unwrap_Ok_iff:
  assumes "length (f_Payload f) < 2 ^ 62"
  shows "unwrap_body msg mt kind p f = Ok x \<longleftrightarrow> f_MsgType f = mt \<and>
    (\<exists>r body. length body \<le> max_u16 \<and> f_Payload f = kind # r # be16 (of_nat (length body)) @ body \<and>
       decode_all p (WireError msg TrailingBody) body = Ok x)"
proof -
  have "decode_all (read_wrapper msg kind) (WireError msg TrailingWrapper) (f_Payload f) = Ok body
    \<longleftrightarrow> (\<exists>r. length body \<le> max_u16 \<and> f_Payload f = kind # r # be16 (of_nat (length body)) @ body)"
    for body
    using decode_all_parses [OF wrapper_parses] decode_all_reads [OF wrapper_reads assms] assms
    by metis
  then show ?thesis by (auto simp: unwrap_body_def obind_eq_Ok)
qed

lemma unwrap_wrap:
  assumes "wrap_body msg mt kind body = Ok f" "parses p body x"
  shows "unwrap_body msg mt kind p f = Ok x"
proof -
  from assms(1) have b: "length body \<le> max_u16"
    "f = frame_New mt 0 (kind # 0 # be16 (of_nat (length body)) @ body)"
    by (simp_all add: wrap_body_Ok_iff)
  have "decode_all p (WireError msg TrailingBody) body = Ok x"
    using b(1) by (intro decode_all_parses [OF assms(2)]) (simp add: max_u16_def)
  moreover have "length (f_Payload f) < 2 ^ 62"
    using b by (simp add: frame_New_def max_u16_def)
  ultimately show ?thesis
    using b by (subst unwrap_Ok_iff) (auto simp: frame_New_def)
qed

lemma unwrap_no_panic:
  assumes "length (f_Payload f) < 2 ^ 62" "bounded p"
  shows "unwrap_body msg mt kind p f \<noteq> Panic"
proof -
  have "length body < 2 ^ 62"
    if "decode_all (read_wrapper msg kind) (WireError msg TrailingWrapper) (f_Payload f) = Ok body" for body
    using decode_all_reads [OF wrapper_reads assms(1) that] by (auto simp: max_u16_def)
  then show ?thesis
    using decode_all_no_panic [OF reads_imp_bounded [OF wrapper_reads] assms(1)]
      decode_all_no_panic [OF assms(2)]
    by (auto simp: unwrap_body_def obind_eq_Panic)
qed

section \<open>Client hello\<close>

record client_hello =
  ch_CapabilityBits :: u32
  ch_RequestedMaxPayload :: u32
  ch_EphPublic :: bytes
  ch_IdentityBundle :: identity_bundle

text \<open>The fields the two hellos share are written by the same code, \<open>hello_fields\<close>.\<close>

definition hello_fields ::
    "hs_message \<Rightarrow> u32 \<Rightarrow> u32 \<Rightarrow> bytes \<Rightarrow> identity_bundle \<Rightarrow> (encoder, unit) go_method" where
  "hello_fields msg caps maxPayload eph b enc = (case Bundle_ToBytes b of
      Err e \<Rightarrow> (Err e, enc)
    | Panic \<Rightarrow> (Panic, enc)
    | Ok bundle \<Rightarrow>
        if length bundle > max_u16 then (Err (WireError msg BundleTooLarge), enc)
        else let enc = WriteU32 caps enc;
                 enc = WriteU32 maxPayload enc;
                 enc = WriteBytes eph enc;
                 enc = WriteU16 (of_nat (length bundle)) enc;
                 enc = WriteBytes bundle enc
             in (Ok (), enc))"

definition encoded :: "(encoder, unit) go_method \<Rightarrow> bytes outcome" where
  "encoded m = (case m NewEncoder of (Ok _, enc) \<Rightarrow> Ok (Encoder_Bytes enc)
     | (Err e, _) \<Rightarrow> Err e | (Panic, _) \<Rightarrow> Panic)"

definition ClientHello_encodeBody :: "client_hello \<Rightarrow> (encoder, unit) go_method" where
  "ClientHello_encodeBody h =
     hello_fields ClientHelloMsg (ch_CapabilityBits h) (ch_RequestedMaxPayload h) (ch_EphPublic h)
       (ch_IdentityBundle h)"

definition decodeClientHelloBody :: "client_hello reader" where
  "decodeClientHelloBody =
     sbind ReadU32 (\<lambda>capabilityBits.
     sbind ReadU32 (\<lambda>requestedMaxPayload.
     sbind (ReadBytes 32) (\<lambda>ephPublicBytes.
     sbind ReadU16 (\<lambda>bundleLen.
     sbind (ReadBytes (uint bundleLen)) (\<lambda>bundlePayload.
     sbind (slift (IdentityBundleFromBytes bundlePayload)) (\<lambda>bundle.
     sret \<lparr>ch_CapabilityBits = capabilityBits, ch_RequestedMaxPayload = requestedMaxPayload,
           ch_EphPublic = arr 32 ephPublicBytes, ch_IdentityBundle = bundle\<rparr>))))))"

definition ClientHello_transcriptBytes :: "client_hello \<Rightarrow> bytes outcome" where
  "ClientHello_transcriptBytes h = encoded (ClientHello_encodeBody h)"

definition ClientHello_ToFrame :: "client_hello \<Rightarrow> frame outcome" where
  "ClientHello_ToFrame h =
     obind (encoded (ClientHello_encodeBody h))
       (wrap_body ClientHelloMsg MsgClientHello HandshakePayloadInit)"

definition ClientHelloFromFrame :: "frame \<Rightarrow> client_hello outcome" where
  "ClientHelloFromFrame f =
     unwrap_body ClientHelloMsg MsgClientHello HandshakePayloadInit decodeClientHelloBody f"

definition hello_bytes :: "u32 \<Rightarrow> u32 \<Rightarrow> bytes \<Rightarrow> identity_bundle \<Rightarrow> bytes" where
  "hello_bytes caps maxPayload eph b = be32 caps @ be32 maxPayload @ eph @
     be16 (of_nat (length (bundle_bytes b))) @ bundle_bytes b"

definition client_hello_bytes :: "client_hello \<Rightarrow> bytes" where
  "client_hello_bytes h = hello_bytes (ch_CapabilityBits h) (ch_RequestedMaxPayload h)
     (ch_EphPublic h) (ch_IdentityBundle h)"

definition hello_ok :: "bytes \<Rightarrow> identity_bundle \<Rightarrow> bool" where
  "hello_ok eph b \<longleftrightarrow> length eph = 32 \<and> bundle_ok b \<and> length (bundle_bytes b) \<le> max_u16"

definition client_hello_ok :: "client_hello \<Rightarrow> bool" where
  "client_hello_ok h \<longleftrightarrow> hello_ok (ch_EphPublic h) (ch_IdentityBundle h)"

lemma hello_fields_encoded:
  "hello_ok eph b \<Longrightarrow> hello_fields msg caps mp eph b enc =
     (Ok (), enc\<lparr>e_buf := e_buf enc @ hello_bytes caps mp eph b\<rparr>)"
  by (simp add: hello_fields_def hello_ok_def Bundle_ToBytes_eq bundle_ok_def Let_def
      hello_bytes_def WriteU32_def WriteBytes_def WriteU16_def)

lemma ClientHello_transcriptBytes_eq:
  "client_hello_ok h \<Longrightarrow> ClientHello_transcriptBytes h = Ok (client_hello_bytes h)"
  by (simp add: ClientHello_transcriptBytes_def encoded_def ClientHello_encodeBody_def
      client_hello_ok_def hello_fields_encoded client_hello_bytes_def Encoder_Bytes_def
      NewEncoder_def)

lemma IdentityBundleFromBytes_u16:
  "length p \<le> max_u16 \<Longrightarrow> IdentityBundleFromBytes p = Ok b \<longleftrightarrow> bundle_ok b \<and> p = bundle_bytes b"
  by (intro IdentityBundleFromBytes_iff) (simp add: max_u16_def)

lemma unat16_le_max: "unat (w :: u16) \<le> max_u16"
  using unat16_less [of w] by (simp add: max_u16_def)

text \<open>Reading a bundle of known length from a message: one step of both hello readers.\<close>

lemma reads_bundle_step:
  assumes "length p \<le> max_u16"
    and "\<And>b. bundle_ok b \<Longrightarrow> p = bundle_bytes b \<Longrightarrow> reads (k b) R"
  shows "reads (sbind (slift (IdentityBundleFromBytes p)) k) R"
proof (rule reads_sbind [where R = "\<lambda>bs b. bs = [] \<and> bundle_ok b \<and> p = bundle_bytes b"])
  show "reads (slift (IdentityBundleFromBytes p)) (\<lambda>bs b. bs = [] \<and> bundle_ok b \<and> p = bundle_bytes b)"
    using assms(1) IdentityBundleFromBytes_no_panic [of p]
    by (intro reads_slift) (auto simp: IdentityBundleFromBytes_u16 max_u16_def)
qed (use assms(2) in auto)

lemma parses_bundle_step:
  assumes "bundle_ok b" "parses (k b) cs y"
  shows "parses (sbind (slift (IdentityBundleFromBytes (bundle_bytes b))) k) cs y"
proof -
  have "IdentityBundleFromBytes (bundle_bytes b) = Ok b"
    using IdentityBundleFromBytes_iff [OF bundle_bytes_short [OF assms(1)]] assms(1) by simp
  from parses_slift [OF this] show ?thesis
    by (rule parses_sbind [of _ "[]" b k cs y, simplified]) (rule assms(2))
qed

lemma client_hello_roundtrip:
  "client_hello_ok h \<Longrightarrow> parses decodeClientHelloBody (client_hello_bytes h) h"
  unfolding decodeClientHelloBody_def client_hello_bytes_def hello_bytes_def
  by (intro parses_steps parses_bundle_step)
     (auto simp: client_hello_ok_def hello_ok_def uint_of_nat16 max_u16_def)

lemma client_hello_reads:
  "reads decodeClientHelloBody (\<lambda>bs h. client_hello_ok h \<and> bs = client_hello_bytes h)"
  unfolding decodeClientHelloBody_def
  by (intro reads_steps reads_bundle_step)
     (auto simp: client_hello_bytes_def hello_bytes_def client_hello_ok_def hello_ok_def unat16_le_max)

interpretation client_hello_format:
    exact_codec client_hello_bytes decodeClientHelloBody client_hello_ok
  by unfold_locales (auto intro: client_hello_roundtrip client_hello_reads)

lemma length_client_hello_bytes:
  "client_hello_ok h \<Longrightarrow> length (client_hello_bytes h) = 190 + length (b_KeyID (ch_IdentityBundle h))"
  by (simp add: client_hello_ok_def hello_ok_def client_hello_bytes_def hello_bytes_def
      length_bundle_bytes)

lemma ClientHello_ToFrame_Ok:
  assumes "client_hello_ok h" "length (client_hello_bytes h) \<le> max_u16"
  obtains f where "ClientHello_ToFrame h = Ok f" "ClientHelloFromFrame f = Ok h"
    "f_MsgType f = MsgClientHello" "f_Version f = frame_Version" "f_Flags f = 0"
    "length (f_Payload f) = 4 + length (client_hello_bytes h)"
proof -
  have enc: "encoded (ClientHello_encodeBody h) = Ok (client_hello_bytes h)"
    using ClientHello_transcriptBytes_eq [OF assms(1)] by (simp add: ClientHello_transcriptBytes_def)
  obtain f where f: "wrap_body ClientHelloMsg MsgClientHello HandshakePayloadInit (client_hello_bytes h) = Ok f"
    "f = frame_New MsgClientHello 0
      (HandshakePayloadInit # 0 # be16 (of_nat (length (client_hello_bytes h))) @ client_hello_bytes h)"
    using assms(2) by (simp add: wrap_body_Ok_iff)
  show ?thesis
    by (rule that [of f])
       (use f enc unwrap_wrap [OF f(1) client_hello_roundtrip [OF assms(1)]] in
         \<open>simp_all add: ClientHello_ToFrame_def ClientHelloFromFrame_def frame_New_def\<close>)
qed

lemma ClientHelloFromFrame_OkD:
  assumes "length (f_Payload f) < 2 ^ 62" "ClientHelloFromFrame f = Ok h"
  shows "client_hello_ok h"
proof -
  from assms obtain body where body: "length body \<le> max_u16"
    "decode_all decodeClientHelloBody (WireError ClientHelloMsg TrailingBody) body = Ok h"
    by (auto simp: ClientHelloFromFrame_def unwrap_Ok_iff)
  from body(1) have "length body < 2 ^ 62" by (simp add: max_u16_def)
  from decode_all_reads [OF client_hello_reads this body(2)] show ?thesis by simp
qed

section \<open>Server hello\<close>

record server_hello =
  sh_AcceptedCapabilityBits :: u32
  sh_AcceptedMaxPayload :: u32
  sh_EphPublic :: bytes
  sh_IdentityBundle :: identity_bundle
  sh_TranscriptSignature :: bytes

definition ServerHello_encodeBody :: "server_hello \<Rightarrow> (encoder, unit) go_method" where
  "ServerHello_encodeBody h =
     sbind (hello_fields ServerHelloMsg (sh_AcceptedCapabilityBits h) (sh_AcceptedMaxPayload h)
       (sh_EphPublic h) (sh_IdentityBundle h)) (\<lambda>_ enc.
     (Ok (), WriteBytes (sh_TranscriptSignature h) enc))"

definition decodeServerHelloBody :: "server_hello reader" where
  "decodeServerHelloBody =
     sbind ReadU32 (\<lambda>acceptedCapabilityBits.
     sbind ReadU32 (\<lambda>acceptedMaxPayload.
     sbind (ReadBytes 32) (\<lambda>ephPublicBytes.
     sbind ReadU16 (\<lambda>bundleLen.
     sbind (ReadBytes (uint bundleLen)) (\<lambda>bundlePayload.
     sbind (slift (IdentityBundleFromBytes bundlePayload)) (\<lambda>bundle.
     sbind (ReadBytes 64) (\<lambda>sigBytes.
     sret \<lparr>sh_AcceptedCapabilityBits = acceptedCapabilityBits,
           sh_AcceptedMaxPayload = acceptedMaxPayload, sh_EphPublic = arr 32 ephPublicBytes,
           sh_IdentityBundle = bundle, sh_TranscriptSignature = arr 64 sigBytes\<rparr>)))))))"

definition ServerHello_transcriptBytesWithoutSignature :: "server_hello \<Rightarrow> bytes outcome" where
  "ServerHello_transcriptBytesWithoutSignature h =
     encoded (hello_fields ServerHelloMsg (sh_AcceptedCapabilityBits h) (sh_AcceptedMaxPayload h)
       (sh_EphPublic h) (sh_IdentityBundle h))"

definition ServerHello_ToFrame :: "server_hello \<Rightarrow> frame outcome" where
  "ServerHello_ToFrame h =
     obind (encoded (ServerHello_encodeBody h))
       (wrap_body ServerHelloMsg MsgServerHello HandshakePayloadResponse)"

definition ServerHelloFromFrame :: "frame \<Rightarrow> server_hello outcome" where
  "ServerHelloFromFrame f =
     unwrap_body ServerHelloMsg MsgServerHello HandshakePayloadResponse decodeServerHelloBody f"

definition server_unsigned_bytes :: "server_hello \<Rightarrow> bytes" where
  "server_unsigned_bytes h = hello_bytes (sh_AcceptedCapabilityBits h) (sh_AcceptedMaxPayload h)
     (sh_EphPublic h) (sh_IdentityBundle h)"

definition server_hello_bytes :: "server_hello \<Rightarrow> bytes" where
  "server_hello_bytes h = server_unsigned_bytes h @ sh_TranscriptSignature h"

definition server_hello_ok :: "server_hello \<Rightarrow> bool" where
  "server_hello_ok h \<longleftrightarrow>
     hello_ok (sh_EphPublic h) (sh_IdentityBundle h) \<and> length (sh_TranscriptSignature h) = 64"

lemma ServerHello_transcript_eq:
  "hello_ok (sh_EphPublic h) (sh_IdentityBundle h) \<Longrightarrow>
     ServerHello_transcriptBytesWithoutSignature h = Ok (server_unsigned_bytes h)"
  by (simp add: ServerHello_transcriptBytesWithoutSignature_def encoded_def hello_fields_encoded
      server_unsigned_bytes_def Encoder_Bytes_def NewEncoder_def)

lemma ServerHello_encoded:
  "server_hello_ok h \<Longrightarrow> encoded (ServerHello_encodeBody h) = Ok (server_hello_bytes h)"
  by (simp add: encoded_def ServerHello_encodeBody_def server_hello_ok_def hello_fields_encoded
      server_hello_bytes_def server_unsigned_bytes_def method_simps WriteBytes_def
      Encoder_Bytes_def NewEncoder_def)

lemma server_hello_roundtrip:
  "server_hello_ok h \<Longrightarrow> parses decodeServerHelloBody (server_hello_bytes h) h"
  unfolding decodeServerHelloBody_def server_hello_bytes_def server_unsigned_bytes_def
    hello_bytes_def append_assoc
  by (intro parses_steps parses_bundle_step)
     (auto simp: server_hello_ok_def hello_ok_def uint_of_nat16 max_u16_def)

lemma server_hello_reads:
  "reads decodeServerHelloBody (\<lambda>bs h. server_hello_ok h \<and> bs = server_hello_bytes h)"
  unfolding decodeServerHelloBody_def
  by (intro reads_steps reads_bundle_step)
     (auto simp: server_hello_bytes_def server_unsigned_bytes_def hello_bytes_def
       server_hello_ok_def hello_ok_def unat16_le_max)

interpretation server_hello_format:
    exact_codec server_hello_bytes decodeServerHelloBody server_hello_ok
  by unfold_locales (auto intro: server_hello_roundtrip server_hello_reads)

lemma length_server_hello_bytes:
  "server_hello_ok h \<Longrightarrow> length (server_hello_bytes h) = 254 + length (b_KeyID (sh_IdentityBundle h))"
  by (simp add: server_hello_ok_def hello_ok_def server_hello_bytes_def server_unsigned_bytes_def
      hello_bytes_def length_bundle_bytes)

lemma ServerHello_ToFrame_Ok:
  assumes "server_hello_ok h" "length (server_hello_bytes h) \<le> max_u16"
  obtains f where "ServerHello_ToFrame h = Ok f" "ServerHelloFromFrame f = Ok h"
    "f_MsgType f = MsgServerHello" "f_Version f = frame_Version" "f_Flags f = 0"
    "length (f_Payload f) = 4 + length (server_hello_bytes h)"
proof -
  obtain f where f: "wrap_body ServerHelloMsg MsgServerHello HandshakePayloadResponse (server_hello_bytes h) = Ok f"
    "f = frame_New MsgServerHello 0
      (HandshakePayloadResponse # 0 # be16 (of_nat (length (server_hello_bytes h))) @ server_hello_bytes h)"
    using assms(2) by (simp add: wrap_body_Ok_iff)
  show ?thesis
    by (rule that [of f])
       (use f ServerHello_encoded [OF assms(1)]
         unwrap_wrap [OF f(1) server_hello_roundtrip [OF assms(1)]] in
         \<open>simp_all add: ServerHello_ToFrame_def ServerHelloFromFrame_def frame_New_def\<close>)
qed

lemma ServerHelloFromFrame_OkD:
  assumes "length (f_Payload f) < 2 ^ 62" "ServerHelloFromFrame f = Ok h"
  shows "server_hello_ok h"
proof -
  from assms obtain body where body: "length body \<le> max_u16"
    "decode_all decodeServerHelloBody (WireError ServerHelloMsg TrailingBody) body = Ok h"
    by (auto simp: ServerHelloFromFrame_def unwrap_Ok_iff)
  from body(1) have "length body < 2 ^ 62" by (simp add: max_u16_def)
  from decode_all_reads [OF server_hello_reads this body(2)] show ?thesis by simp
qed

section \<open>Client finish\<close>

record client_finish =
  cf_MaxRekeyBytes :: u64
  cf_MaxRekeySeconds :: u32
  cf_RoleHint :: byte
  cf_TranscriptSignature :: bytes

definition ClientFinish_encodeBody :: "client_finish \<Rightarrow> encoder \<Rightarrow> encoder" where
  "ClientFinish_encodeBody f enc =
     (let enc = WriteU64 (cf_MaxRekeyBytes f) enc;
          enc = WriteU32 (cf_MaxRekeySeconds f) enc;
          enc = WriteU8 (cf_RoleHint f) enc;
          enc = WriteU8 0 enc;
          enc = WriteU16 0 enc;
          enc = WriteBytes (cf_TranscriptSignature f) enc
      in enc)"

definition decodeClientFinishBody :: "client_finish reader" where
  "decodeClientFinishBody =
     sbind ReadU64 (\<lambda>maxRekeyBytes.
     sbind ReadU32 (\<lambda>maxRekeySeconds.
     sbind ReadU8 (\<lambda>roleHintByte.
     sbind (slift (roleHintFromByte roleHintByte)) (\<lambda>roleHint.
     sbind ReadU8 (\<lambda>reserved1.
     sbind ReadU16 (\<lambda>reserved2.
     sbind (ReadBytes 64) (\<lambda>sigBytes.
     sret \<lparr>cf_MaxRekeyBytes = maxRekeyBytes, cf_MaxRekeySeconds = maxRekeySeconds,
           cf_RoleHint = roleHint, cf_TranscriptSignature = arr 64 sigBytes\<rparr>)))))))"

definition ClientFinish_ToFrame :: "client_finish \<Rightarrow> frame outcome" where
  "ClientFinish_ToFrame f =
     wrap_body ClientFinishMsg MsgClientFinish HandshakePayloadFinish
       (Encoder_Bytes (ClientFinish_encodeBody f NewEncoder))"

definition ClientFinishFromFrame :: "frame \<Rightarrow> client_finish outcome" where
  "ClientFinishFromFrame f =
     unwrap_body ClientFinishMsg MsgClientFinish HandshakePayloadFinish decodeClientFinishBody f"

text \<open>The body with arbitrary reserved bytes; the encoder writes zeros.\<close>

definition client_finish_bytes :: "byte \<Rightarrow> u16 \<Rightarrow> client_finish \<Rightarrow> bytes" where
  "client_finish_bytes r s f = be64 (cf_MaxRekeyBytes f) @ be32 (cf_MaxRekeySeconds f) @
     cf_RoleHint f # r # be16 s @ cf_TranscriptSignature f"

definition client_finish_ok :: "client_finish \<Rightarrow> bool" where
  "client_finish_ok f \<longleftrightarrow> is_Ok (roleHintFromByte (cf_RoleHint f)) \<and>
     length (cf_TranscriptSignature f) = 64"

lemma roleHint_Ok: "roleHintFromByte v = Ok w \<longleftrightarrow> w = v \<and> is_Ok (roleHintFromByte v)"
  by (auto simp: roleHintFromByte_def)

lemma client_finish_encoded:
  "Encoder_Bytes (ClientFinish_encodeBody f NewEncoder) = client_finish_bytes 0 0 f"
  by (simp add: ClientFinish_encodeBody_def Let_def encode_simps client_finish_bytes_def)

lemma parses_roleHint_step:
  assumes "is_Ok (roleHintFromByte v)" "parses (k v) cs y"
  shows "parses (sbind (slift (roleHintFromByte v)) k) cs y"
  by (rule parses_sbind [of _ "[]" v k cs y, simplified])
     (use assms in \<open>auto intro!: parses_slift simp: roleHint_Ok\<close>)

lemma client_finish_roundtrip:
  "client_finish_ok f \<Longrightarrow> parses decodeClientFinishBody (client_finish_bytes r s f) f"
  unfolding decodeClientFinishBody_def client_finish_bytes_def append_Cons
  by (intro parses_steps parses_roleHint_step) (auto simp: client_finish_ok_def)

lemma reads_roleHint_step:
  assumes "is_Ok (roleHintFromByte v) \<Longrightarrow> reads (k v) R"
  shows "reads (sbind (slift (roleHintFromByte v)) k) R"
proof (rule reads_sbind [where R = "\<lambda>bs w. bs = [] \<and> w = v \<and> is_Ok (roleHintFromByte v)"])
  show "reads (slift (roleHintFromByte v)) (\<lambda>bs w. bs = [] \<and> w = v \<and> is_Ok (roleHintFromByte v))"
    by (intro reads_slift) (auto simp: roleHintFromByte_def split: if_splits)
qed (use assms in auto)

lemma client_finish_reads:
  "reads decodeClientFinishBody (\<lambda>bs f. client_finish_ok f \<and> (\<exists>r s. bs = client_finish_bytes r s f))"
  unfolding decodeClientFinishBody_def
  by (intro reads_steps reads_roleHint_step)
     (auto simp: client_finish_bytes_def client_finish_ok_def)

interpretation client_finish_format:
    codec "client_finish_bytes 0 0" decodeClientFinishBody client_finish_ok
  by unfold_locales
     (auto intro: client_finish_roundtrip reads_imp_bounded [OF client_finish_reads])

lemma ClientFinish_ToFrame_Ok:
  assumes "client_finish_ok f"
  obtains fr where "ClientFinish_ToFrame f = Ok fr" "ClientFinishFromFrame fr = Ok f"
    "f_MsgType fr = MsgClientFinish" "f_Version fr = frame_Version" "f_Flags fr = 0"
    "length (f_Payload fr) = 84"
proof -
  have len: "length (client_finish_bytes 0 0 f) = 80"
    using assms by (simp add: client_finish_bytes_def client_finish_ok_def)
  obtain fr where fr: "wrap_body ClientFinishMsg MsgClientFinish HandshakePayloadFinish (client_finish_bytes 0 0 f) = Ok fr"
    "fr = frame_New MsgClientFinish 0
      (HandshakePayloadFinish # 0 # be16 (of_nat (length (client_finish_bytes 0 0 f))) @ client_finish_bytes 0 0 f)"
    using len by (simp add: wrap_body_Ok_iff max_u16_def)
  show ?thesis
    by (rule that [of fr])
       (use fr len unwrap_wrap [OF fr(1) client_finish_roundtrip [OF assms]] in
         \<open>simp_all add: ClientFinish_ToFrame_def client_finish_encoded ClientFinishFromFrame_def
            frame_New_def\<close>)
qed

text \<open>No frame, however malformed, makes a handshake parser panic.\<close>

lemma handshake_parsers_no_panic:
  assumes "length (f_Payload f) < 2 ^ 62"
  shows "ClientHelloFromFrame f \<noteq> Panic" "ServerHelloFromFrame f \<noteq> Panic"
    "ClientFinishFromFrame f \<noteq> Panic"
  unfolding ClientHelloFromFrame_def ServerHelloFromFrame_def ClientFinishFromFrame_def
  by (intro unwrap_no_panic assms client_hello_format.dec_bounded server_hello_format.dec_bounded
      client_finish_format.dec_bounded)+

section \<open>Properties\<close>

text \<open>C13: a client hello is accepted exactly when the frame has the hello's type and its payload is the
  init kind, any reserved byte, the body's length and the encoding of a well-formed hello, with
  nothing after it; so no two hellos share a frame.\<close>

theorem client_hello_frame_exact:
  assumes "length (f_Payload f) < 2 ^ 62"
  shows "ClientHelloFromFrame f = Ok h \<longleftrightarrow> f_MsgType f = MsgClientHello \<and> client_hello_ok h \<and>
    length (client_hello_bytes h) \<le> 65535 \<and>
    (\<exists>r. f_Payload f = HandshakePayloadInit # r # be16 (of_nat (length (client_hello_bytes h))) @
       client_hello_bytes h)"
proof -
  have "decode_all decodeClientHelloBody e body = Ok h \<longleftrightarrow> client_hello_ok h \<and> body = client_hello_bytes h"
    if "length body \<le> max_u16" for body e
  proof -
    have "length body < 2 ^ 62" using that by (simp add: max_u16_def)
    then show ?thesis
      using decode_all_reads [OF client_hello_reads] decode_all_parses [OF client_hello_roundtrip] by metis
  qed
  then show ?thesis
    by (auto simp: ClientHelloFromFrame_def unwrap_Ok_iff [OF assms] max_u16_def)
qed

definition blank_hello :: client_hello where
  "blank_hello = \<lparr>ch_CapabilityBits = 3, ch_RequestedMaxPayload = 100, ch_EphPublic = replicate 32 5,
     ch_IdentityBundle = blank_bundle\<rparr>"

lemma blank_hello_ok: "client_hello_ok blank_hello" "length (client_hello_bytes blank_hello) = 191"
proof -
  have b: "bundle_ok blank_bundle" by (simp add: bundle_ok_def blank_bundle_def max_u16_def)
  show ok: "client_hello_ok blank_hello"
    using b length_bundle_bytes [OF b]
    by (simp add: client_hello_ok_def hello_ok_def blank_hello_def max_u16_def) (simp add: blank_bundle_def)
  show "length (client_hello_bytes blank_hello) = 191"
    by (simp add: length_client_hello_bytes [OF ok]) (simp add: blank_hello_def blank_bundle_def)
qed

theorem client_hello_frame_exact_witness:
  "ClientHelloFromFrame \<lparr>f_Version = 1, f_MsgType = 1, f_Flags = 0,
     f_Payload = 1 # 77 # be16 191 @ client_hello_bytes blank_hello\<rparr> = Ok blank_hello"
  using client_hello_frame_exact [of "\<lparr>f_Version = 1, f_MsgType = 1, f_Flags = 0,
     f_Payload = 1 # 77 # be16 191 @ client_hello_bytes blank_hello\<rparr>" blank_hello]
  by (simp add: blank_hello_ok MsgClientHello_def MsgHandshakeInit_def HandshakePayloadInit_def)

text \<open>C29: the three messages survive being put in frames, when the key id leaves room in the 16-bit
  length of the body and the role hint is one of the four.\<close>

theorem handshake_messages_roundtrip:
  assumes "client_hello_ok h" "length (b_KeyID (ch_IdentityBundle h)) \<le> 65345"
    and "server_hello_ok s" "length (b_KeyID (sh_IdentityBundle s)) \<le> 65281"
    and "is_Ok (roleHintFromByte (cf_RoleHint c))" "length (cf_TranscriptSignature c) = 64"
  shows "obind (ClientHello_ToFrame h) ClientHelloFromFrame = Ok h \<and>
    obind (ServerHello_ToFrame s) ServerHelloFromFrame = Ok s \<and>
    obind (ClientFinish_ToFrame c) ClientFinishFromFrame = Ok c"
proof -
  obtain f where f: "ClientHello_ToFrame h = Ok f" "ClientHelloFromFrame f = Ok h"
    by (rule ClientHello_ToFrame_Ok [OF assms(1)])
       (use assms(2) in \<open>simp add: length_client_hello_bytes [OF assms(1)] max_u16_def\<close>)
  obtain g where g: "ServerHello_ToFrame s = Ok g" "ServerHelloFromFrame g = Ok s"
    by (rule ServerHello_ToFrame_Ok [OF assms(3)])
       (use assms(4) in \<open>simp add: length_server_hello_bytes [OF assms(3)] max_u16_def\<close>)
  obtain d where d: "ClientFinish_ToFrame c = Ok d" "ClientFinishFromFrame d = Ok c"
    by (rule ClientFinish_ToFrame_Ok [of c]) (use assms(5,6) in \<open>simp add: client_finish_ok_def\<close>)
  show ?thesis using f g d by simp
qed

definition blank_server_hello :: server_hello where
  "blank_server_hello = \<lparr>sh_AcceptedCapabilityBits = 1, sh_AcceptedMaxPayload = 50,
     sh_EphPublic = replicate 32 6, sh_IdentityBundle = blank_bundle,
     sh_TranscriptSignature = replicate 64 8\<rparr>"

theorem handshake_messages_roundtrip_witness:
  "obind (ClientHello_ToFrame blank_hello) ClientHelloFromFrame = Ok blank_hello \<and>
   obind (ServerHello_ToFrame blank_server_hello) ServerHelloFromFrame = Ok blank_server_hello"
proof -
  have "server_hello_ok blank_server_hello"
    using blank_hello_ok(1)
    by (simp add: server_hello_ok_def client_hello_ok_def hello_ok_def blank_hello_def blank_server_hello_def)
  moreover have "length (b_KeyID (ch_IdentityBundle blank_hello)) \<le> 65345"
    "length (b_KeyID (sh_IdentityBundle blank_server_hello)) \<le> 65281"
    by (simp_all add: blank_hello_def blank_server_hello_def blank_bundle_def)
  ultimately show ?thesis
    using handshake_messages_roundtrip [OF blank_hello_ok(1), of blank_server_hello
        "\<lparr>cf_MaxRekeyBytes = 1, cf_MaxRekeySeconds = 2, cf_RoleHint = 3,
          cf_TranscriptSignature = replicate 64 4\<rparr>"]
    by (simp add: roleHintFromByte_def RoleHintDuplex_def)
qed

end
