(* ===== verification/Handshake.thy ===== *)
theory Handshake
  imports Handshake_Messages
begin

unbundle bit_operations_syntax

text \<open>
  The two ends of the handshake (\<open>SecureInitiator\<close> and \<open>SecureResponder\<close> of
  \<open>transport/handshake/handshake.go\<close>), the signatures over the transcript and the derivation
  of the transport keys. The two Go structs have the same fields, so both ends are an
  \<open>endpoint\<close>; each operation returns its outcome and the endpoint it leaves. Random bytes and
  the current Unix time are arguments.
\<close>

section \<open>Transcript, signatures and keys\<close>

definition EndpointRoleInitiator :: byte where "EndpointRoleInitiator = 1"

definition EndpointRoleResponder :: byte where "EndpointRoleResponder = 2"

definition handshakeTranscriptHash :: "client_hello \<Rightarrow> server_hello \<Rightarrow> bytes outcome" where
  "handshakeTranscriptHash ch sh =
     obind (ClientHello_transcriptBytes ch) (\<lambda>clientTranscript.
     obind (ServerHello_transcriptBytesWithoutSignature sh) (\<lambda>serverTranscript.
     Ok (arr 32 (sha256 (str ''SHADOWLARK_XX_TRANSCRIPT'' @ clientTranscript @ serverTranscript)))))"

definition serverSignatureMessage :: "bytes \<Rightarrow> bytes \<Rightarrow> bytes \<Rightarrow> bytes \<Rightarrow> bytes \<Rightarrow> bytes" where
  "serverSignatureMessage transcriptHash clientEph serverEph clientStatic serverStatic =
     (let enc = WriteBytes (str ''SHADOWLARK_SERVER_HELLO_SIG'') NewEncoder;
          enc = WriteBytes transcriptHash enc;
          enc = WriteBytes clientEph enc;
          enc = WriteBytes serverEph enc;
          enc = WriteBytes clientStatic enc;
          enc = WriteBytes serverStatic enc
      in Encoder_Bytes enc)"

definition clientSignatureMessage :: "bytes \<Rightarrow> bytes \<Rightarrow> bytes \<Rightarrow> bytes \<Rightarrow> bytes \<Rightarrow> bytes" where
  "clientSignatureMessage transcriptHash clientEph serverEph clientStatic serverStatic =
     (let enc = WriteBytes (str ''SHADOWLARK_CLIENT_FINISH_SIG'') NewEncoder;
          enc = WriteBytes transcriptHash enc;
          enc = WriteBytes clientEph enc;
          enc = WriteBytes serverEph enc;
          enc = WriteBytes clientStatic enc;
          enc = WriteBytes serverStatic enc
      in Encoder_Bytes enc)"

definition deriveTransportKeys ::
    "primitives \<Rightarrow> byte \<Rightarrow> bytes \<Rightarrow> bytes \<Rightarrow> bytes \<Rightarrow> bytes \<Rightarrow> bytes \<Rightarrow> (u64 \<times> bytes \<times> bytes) outcome" where
  "deriveTransportKeys P role transcriptHash ee es se ss =
     (let ikm = arr 32 ee @ arr 32 es @ arr 32 se @ arr 32 ss;
          salt = sha256 (str ''SHADOWLARK_HANDSHAKE_SALT'' @ transcriptHash) in
      case p_hkdf P ikm salt (str ''SHADOWLARK_TRANSPORT_KEYS'') 64 of
        None \<Rightarrow> Err (HandshakeError HkdfExpand)
      | Some keys \<Rightarrow>
          let initiatorToResponder = arr 32 (take 32 keys);
              responderToInitiator = arr 32 (take 32 (drop 32 keys));
              (txKey, rxKey) = (if role = EndpointRoleInitiator
                then (initiatorToResponder, responderToInitiator)
                else (responderToInitiator, initiatorToResponder));
              sidDigest = sha256 (str ''SHADOWLARK_SESSION_ID'' @ transcriptHash) in
          obind (be_Uint64 (take 8 sidDigest)) (\<lambda>sessionID.
          Ok (if sessionID = 0 then 1 else sessionID, txKey, rxKey)))"

section \<open>The endpoints\<close>

record handshake_policy =
  pol_CapabilityBits :: u32
  pol_MaxPayload :: u32
  pol_MaxRekeyBytes :: u64
  pol_MaxRekeySeconds :: u32

definition DefaultHandshakePolicy :: handshake_policy where
  "DefaultHandshakePolicy = \<lparr>pol_CapabilityBits = 0xFFFFFFFF, pol_MaxPayload = 4194304,
     pol_MaxRekeyBytes = 1073741824, pol_MaxRekeySeconds = 900\<rparr>"

record handshake_output =
  ho_Role :: byte
  ho_SessionID :: u64
  ho_TxKey :: bytes
  ho_RxKey :: bytes
  ho_PeerIdentity :: identity_bundle
  ho_NegotiatedCapabilityBit :: u32
  ho_NegotiatedMaxPayload :: u32
  ho_MaxRekeyBytes :: u64
  ho_MaxRekeySeconds :: u32

record endpoint =
  hs_localIdentity :: identity_keypair
  hs_localBundle :: identity_bundle
  hs_trustStore :: trust_store
  hs_policy :: handshake_policy
  hs_ephPrivate :: bytes
  hs_ephPublic :: bytes
  hs_clientHello :: "client_hello option"
  hs_serverHello :: "server_hello option"

definition NewSecureInitiator :: "primitives \<Rightarrow> identity_keypair \<Rightarrow> identity_bundle \<Rightarrow> trust_store \<Rightarrow>
    handshake_policy \<Rightarrow> bytes option \<Rightarrow> endpoint outcome" where
  "NewSecureInitiator P localIdentity localBundle trustStore policy rnd =
     obind (random32 rnd) (\<lambda>ephPrivate.
     obind (x25519PublicFromPrivate P ephPrivate) (\<lambda>ephPublic.
     Ok \<lparr>hs_localIdentity = localIdentity, hs_localBundle = localBundle,
         hs_trustStore = trustStore, hs_policy = policy, hs_ephPrivate = ephPrivate,
         hs_ephPublic = ephPublic, hs_clientHello = None, hs_serverHello = None\<rparr>))"

definition NewSecureResponder :: "primitives \<Rightarrow> identity_keypair \<Rightarrow> identity_bundle \<Rightarrow> trust_store \<Rightarrow>
    handshake_policy \<Rightarrow> bytes option \<Rightarrow> endpoint outcome" where
  "NewSecureResponder P localIdentity localBundle trustStore policy rnd =
     obind (random32 rnd) (\<lambda>ephPrivate.
     obind (x25519PublicFromPrivate P ephPrivate) (\<lambda>ephPublic.
     Ok \<lparr>hs_localIdentity = localIdentity, hs_localBundle = localBundle,
         hs_trustStore = trustStore, hs_policy = policy, hs_ephPrivate = ephPrivate,
         hs_ephPublic = ephPublic, hs_clientHello = None, hs_serverHello = None\<rparr>))"

text \<open>\<open>if err := VerifyEd25519(..); err != nil { return fmt.Errorf(.., err) }\<close>.\<close>

definition verify_as :: "primitives \<Rightarrow> bytes \<Rightarrow> bytes \<Rightarrow> bytes \<Rightarrow> handshake_error \<Rightarrow> unit outcome" where
  "verify_as P publicKey m signature e = (case VerifyEd25519 P publicKey m signature of
      Ok _ \<Rightarrow> Ok () | Err _ \<Rightarrow> Err (HandshakeError e) | Panic \<Rightarrow> Panic)"

subsection \<open>Initiator\<close>

definition BuildClientHello :: "(endpoint, frame) go_method" where
  "BuildClientHello s =
     (let hello = \<lparr>ch_CapabilityBits = pol_CapabilityBits (hs_policy s),
            ch_RequestedMaxPayload = pol_MaxPayload (hs_policy s),
            ch_EphPublic = hs_ephPublic s, ch_IdentityBundle = hs_localBundle s\<rparr>;
          s = s\<lparr>hs_clientHello := Some hello\<rparr>
      in (ClientHello_ToFrame hello, s))"

definition checkServerHello :: "primitives \<Rightarrow> frame \<Rightarrow> u64 \<Rightarrow> endpoint \<Rightarrow> server_hello outcome" where
  "checkServerHello P f nowUnix s =
     obind (ServerHelloFromFrame f) (\<lambda>serverHello.
     obind (Validate P (sh_IdentityBundle serverHello) (hs_trustStore s) nowUnix) (\<lambda>_.
     case hs_clientHello s of
       None \<Rightarrow> Err (HandshakeError ClientHelloNotBuilt)
     | Some clientHello \<Rightarrow>
     let intersection = ch_CapabilityBits clientHello AND sh_AcceptedCapabilityBits serverHello in
     if intersection = 0 then Err (HandshakeError NoCommonCapabilities)
     else if sh_AcceptedMaxPayload serverHello = 0 \<or>
             sh_AcceptedMaxPayload serverHello > pol_MaxPayload (hs_policy s)
     then Err (HandshakeError InvalidAcceptedMaxPayload)
     else
     obind (handshakeTranscriptHash clientHello serverHello) (\<lambda>transcriptHash.
     let message = serverSignatureMessage transcriptHash (ch_EphPublic clientHello)
           (sh_EphPublic serverHello) (b_X25519StaticPublic (hs_localBundle s))
           (b_X25519StaticPublic (sh_IdentityBundle serverHello)) in
     obind (verify_as P (b_Ed25519Public (sh_IdentityBundle serverHello)) message
       (sh_TranscriptSignature serverHello) ServerSignature) (\<lambda>_.
     Ok serverHello))))"

definition HandleServerHello :: "primitives \<Rightarrow> frame \<Rightarrow> u64 \<Rightarrow> (endpoint, unit) go_method" where
  "HandleServerHello P f nowUnix s = (case checkServerHello P f nowUnix s of
      Ok serverHello \<Rightarrow> (Ok (), s\<lparr>hs_serverHello := Some serverHello\<rparr>)
    | Err e \<Rightarrow> (Err e, s)
    | Panic \<Rightarrow> (Panic, s))"

definition BuildClientFinish :: "primitives \<Rightarrow> endpoint \<Rightarrow> frame outcome" where
  "BuildClientFinish P s =
     (case hs_clientHello s of
        None \<Rightarrow> Err (HandshakeError ClientHelloNotBuilt)
      | Some clientHello \<Rightarrow>
      case hs_serverHello s of
        None \<Rightarrow> Err (HandshakeError ServerHelloNotProcessed)
      | Some serverHello \<Rightarrow>
      obind (handshakeTranscriptHash clientHello serverHello) (\<lambda>transcriptHash.
      let message = clientSignatureMessage transcriptHash (ch_EphPublic clientHello)
            (sh_EphPublic serverHello) (b_X25519StaticPublic (hs_localBundle s))
            (b_X25519StaticPublic (sh_IdentityBundle serverHello)) in
      obind (SignEd25519 P (hs_localIdentity s) message) (\<lambda>sig.
      ClientFinish_ToFrame \<lparr>cf_MaxRekeyBytes = pol_MaxRekeyBytes (hs_policy s),
        cf_MaxRekeySeconds = pol_MaxRekeySeconds (hs_policy s), cf_RoleHint = RoleHintDuplex,
        cf_TranscriptSignature = sig\<rparr>)))"

definition Finalize :: "primitives \<Rightarrow> endpoint \<Rightarrow> handshake_output outcome" where
  "Finalize P s =
     (case hs_clientHello s of
        None \<Rightarrow> Err (HandshakeError ClientHelloMissing)
      | Some clientHello \<Rightarrow>
      case hs_serverHello s of
        None \<Rightarrow> Err (HandshakeError ServerHelloMissing)
      | Some serverHello \<Rightarrow>
      obind (handshakeTranscriptHash clientHello serverHello) (\<lambda>transcriptHash.
      let initiatorStaticPrivate = id_x25519Private (hs_localIdentity s);
          peerStatic = b_X25519StaticPublic (sh_IdentityBundle serverHello) in
      obind (x25519Shared P (hs_ephPrivate s) (sh_EphPublic serverHello)) (\<lambda>ee.
      obind (x25519Shared P (hs_ephPrivate s) peerStatic) (\<lambda>es.
      obind (x25519Shared P initiatorStaticPrivate (sh_EphPublic serverHello)) (\<lambda>se.
      obind (x25519Shared P initiatorStaticPrivate peerStatic) (\<lambda>ss.
      obind (deriveTransportKeys P EndpointRoleInitiator transcriptHash ee es se ss)
        (\<lambda>(sessionID, txKey, rxKey).
      Ok \<lparr>ho_Role = EndpointRoleInitiator, ho_SessionID = sessionID, ho_TxKey = txKey,
          ho_RxKey = rxKey, ho_PeerIdentity = sh_IdentityBundle serverHello,
          ho_NegotiatedCapabilityBit =
            ch_CapabilityBits clientHello AND sh_AcceptedCapabilityBits serverHello,
          ho_NegotiatedMaxPayload = sh_AcceptedMaxPayload serverHello,
          ho_MaxRekeyBytes = pol_MaxRekeyBytes (hs_policy s),
          ho_MaxRekeySeconds = pol_MaxRekeySeconds (hs_policy s)\<rparr>)))))))"

subsection \<open>Responder\<close>

text \<open>The part of \<open>HandleClientHello\<close> before it stores the two hellos.\<close>

definition answerClientHello ::
    "primitives \<Rightarrow> frame \<Rightarrow> u64 \<Rightarrow> endpoint \<Rightarrow> (client_hello \<times> server_hello) outcome" where
  "answerClientHello P f nowUnix s =
     obind (ClientHelloFromFrame f) (\<lambda>clientHello.
     obind (Validate P (ch_IdentityBundle clientHello) (hs_trustStore s) nowUnix) (\<lambda>_.
     let acceptedCapabilityBits = ch_CapabilityBits clientHello AND pol_CapabilityBits (hs_policy s) in
     if acceptedCapabilityBits = 0 then Err (HandshakeError NoCommonCapabilities) else
     let acceptedMaxPayload = ch_RequestedMaxPayload clientHello;
         acceptedMaxPayload = (if acceptedMaxPayload > pol_MaxPayload (hs_policy s)
           then pol_MaxPayload (hs_policy s) else acceptedMaxPayload) in
     if acceptedMaxPayload = 0 then Err (HandshakeError InvalidNegotiatedMaxPayload) else
     let serverHello = \<lparr>sh_AcceptedCapabilityBits = acceptedCapabilityBits,
           sh_AcceptedMaxPayload = acceptedMaxPayload, sh_EphPublic = hs_ephPublic s,
           sh_IdentityBundle = hs_localBundle s, sh_TranscriptSignature = replicate 64 0\<rparr> in
     obind (handshakeTranscriptHash clientHello serverHello) (\<lambda>transcriptHash.
     let sigMessage = serverSignatureMessage transcriptHash (ch_EphPublic clientHello)
           (sh_EphPublic serverHello) (b_X25519StaticPublic (ch_IdentityBundle clientHello))
           (b_X25519StaticPublic (hs_localBundle s)) in
     obind (SignEd25519 P (hs_localIdentity s) sigMessage) (\<lambda>sig.
     Ok (clientHello, serverHello\<lparr>sh_TranscriptSignature := sig\<rparr>)))))"

definition HandleClientHello :: "primitives \<Rightarrow> frame \<Rightarrow> u64 \<Rightarrow> (endpoint, frame) go_method" where
  "HandleClientHello P f nowUnix s = (case answerClientHello P f nowUnix s of
      Ok (clientHello, serverHello) \<Rightarrow>
        (ServerHello_ToFrame serverHello,
         s\<lparr>hs_clientHello := Some clientHello, hs_serverHello := Some serverHello\<rparr>)
    | Err e \<Rightarrow> (Err e, s)
    | Panic \<Rightarrow> (Panic, s))"

definition HandleClientFinish :: "primitives \<Rightarrow> frame \<Rightarrow> endpoint \<Rightarrow> handshake_output outcome" where
  "HandleClientFinish P f s =
     obind (ClientFinishFromFrame f) (\<lambda>finish.
     case hs_clientHello s of
       None \<Rightarrow> Err (HandshakeError ClientHelloMissing)
     | Some clientHello \<Rightarrow>
     case hs_serverHello s of
       None \<Rightarrow> Err (HandshakeError ServerHelloMissing)
     | Some serverHello \<Rightarrow>
     obind (handshakeTranscriptHash clientHello serverHello) (\<lambda>transcriptHash.
     let message = clientSignatureMessage transcriptHash (ch_EphPublic clientHello)
           (sh_EphPublic serverHello) (b_X25519StaticPublic (ch_IdentityBundle clientHello))
           (b_X25519StaticPublic (hs_localBundle s)) in
     obind (verify_as P (b_Ed25519Public (ch_IdentityBundle clientHello)) message
       (cf_TranscriptSignature finish) ClientSignature) (\<lambda>_.
     let responderStaticPrivate = id_x25519Private (hs_localIdentity s);
         peerStatic = b_X25519StaticPublic (ch_IdentityBundle clientHello) in
     obind (x25519Shared P (hs_ephPrivate s) (ch_EphPublic clientHello)) (\<lambda>ee.
     obind (x25519Shared P responderStaticPrivate (ch_EphPublic clientHello)) (\<lambda>es.
     obind (x25519Shared P (hs_ephPrivate s) peerStatic) (\<lambda>se.
     obind (x25519Shared P responderStaticPrivate peerStatic) (\<lambda>ss.
     obind (deriveTransportKeys P EndpointRoleResponder transcriptHash ee es se ss)
       (\<lambda>(sessionID, txKey, rxKey).
     Ok \<lparr>ho_Role = EndpointRoleResponder, ho_SessionID = sessionID, ho_TxKey = txKey,
         ho_RxKey = rxKey, ho_PeerIdentity = ch_IdentityBundle clientHello,
         ho_NegotiatedCapabilityBit = sh_AcceptedCapabilityBits serverHello,
         ho_NegotiatedMaxPayload = sh_AcceptedMaxPayload serverHello,
         ho_MaxRekeyBytes = cf_MaxRekeyBytes finish,
         ho_MaxRekeySeconds = cf_MaxRekeySeconds finish\<rparr>))))))))"

section \<open>Transcript and key material, computed\<close>

definition transcript_hash :: "client_hello \<Rightarrow> server_hello \<Rightarrow> bytes" where
  "transcript_hash ch sh = sha256 (str ''SHADOWLARK_XX_TRANSCRIPT'' @ client_hello_bytes ch @
     server_unsigned_bytes sh)"

lemma length_transcript_hash [simp]: "length (transcript_hash ch sh) = 32"
  by (simp add: transcript_hash_def)

lemma transcript_hash_signature [simp]:
  "transcript_hash ch (sh\<lparr>sh_TranscriptSignature := s\<rparr>) = transcript_hash ch sh"
  by (simp add: transcript_hash_def server_unsigned_bytes_def)

lemma handshakeTranscriptHash_eq:
  "client_hello_ok ch \<Longrightarrow> hello_ok (sh_EphPublic sh) (sh_IdentityBundle sh) \<Longrightarrow>
     handshakeTranscriptHash ch sh = Ok (transcript_hash ch sh)"
  by (simp add: handshakeTranscriptHash_def ClientHello_transcriptBytes_eq ServerHello_transcript_eq
      transcript_hash_def)

text \<open>The two signed messages differ in their labels, and each determines its parts.\<close>

lemma signature_messages_eq:
  "serverSignatureMessage h ce se cs ss =
     str ''SHADOWLARK_SERVER_HELLO_SIG'' @ h @ ce @ se @ cs @ ss"
  "clientSignatureMessage h ce se cs ss =
     str ''SHADOWLARK_CLIENT_FINISH_SIG'' @ h @ ce @ se @ cs @ ss"
  by (simp_all add: serverSignatureMessage_def clientSignatureMessage_def Let_def encode_simps)

lemma serverSignatureMessage_inject:
  assumes "serverSignatureMessage h ce se cs ss = serverSignatureMessage h' ce' se' cs' ss'"
    and "length h = length h'" "length ce = length ce'" "length se = length se'" "length cs = length cs'"
  shows "h = h' \<and> ce = ce' \<and> se = se' \<and> cs = cs' \<and> ss = ss'"
  using assms by (simp add: signature_messages_eq)

lemma labels_differ:
  "serverSignatureMessage h ce se cs ss \<noteq> clientSignatureMessage h' ce' se' cs' ss'"
  "serverSignatureMessage h ce se cs ss \<noteq> str ''SHADOWLARK_ID_BUNDLE'' @ r"
  "clientSignatureMessage h ce se cs ss \<noteq> str ''SHADOWLARK_ID_BUNDLE'' @ r"
  by (simp_all add: signature_messages_eq str_def)

text \<open>What is hashed determines both hellos, up to the signature it does not cover.\<close>

lemma server_unsigned_inject:
  assumes "server_hello_ok s" "server_hello_ok t" "server_unsigned_bytes s = server_unsigned_bytes t"
  shows "s\<lparr>sh_TranscriptSignature := x\<rparr> = t\<lparr>sh_TranscriptSignature := x\<rparr>"
proof -
  let ?s = "s\<lparr>sh_TranscriptSignature := replicate 64 0\<rparr>"
  let ?t = "t\<lparr>sh_TranscriptSignature := replicate 64 0\<rparr>"
  have ok: "server_hello_ok ?s" "server_hello_ok ?t"
    using assms(1,2) by (simp_all add: server_hello_ok_def)
  have "server_hello_bytes ?s = server_hello_bytes ?t"
    using assms(3) by (simp add: server_hello_bytes_def server_unsigned_bytes_def)
  moreover have "length (server_hello_bytes ?s) < 2 ^ 62"
    using ok(1) by (simp add: length_server_hello_bytes)
      (simp add: server_hello_ok_def hello_ok_def bundle_ok_def max_u16_def)
  ultimately have "?s = ?t" using server_hello_format.enc_inject [OF ok] by blast
  then have "?s\<lparr>sh_TranscriptSignature := x\<rparr> = ?t\<lparr>sh_TranscriptSignature := x\<rparr>" by simp
  then show ?thesis by simp
qed

lemma transcript_inject:
  assumes "client_hello_ok c" "client_hello_ok d" "server_hello_ok s" "server_hello_ok t"
    and eq: "client_hello_bytes c @ server_unsigned_bytes s = client_hello_bytes d @ server_unsigned_bytes t"
  shows "c = d \<and> s\<lparr>sh_TranscriptSignature := x\<rparr> = t\<lparr>sh_TranscriptSignature := x\<rparr>"
proof -
  have short: "length (client_hello_bytes c) < 2 ^ 61" "length (client_hello_bytes d) < 2 ^ 61"
    "length (server_unsigned_bytes s) < 2 ^ 61" "length (server_unsigned_bytes t) < 2 ^ 61"
    using assms(1-4)
    by (auto simp: client_hello_ok_def hello_ok_def client_hello_bytes_def hello_bytes_def
        server_hello_ok_def server_unsigned_bytes_def max_u16_def)
  have "c = d \<and> server_unsigned_bytes s = server_unsigned_bytes t"
    using client_hello_format.prefix_free [OF assms(1,2) eq] short by (simp add: eq)
  then show ?thesis using server_unsigned_inject [OF assms(3,4)] by simp
qed

lemma hkdf_correctD:
  "hkdf_correct P \<Longrightarrow> n \<le> 8160 \<Longrightarrow> \<exists>out. p_hkdf P ikm salt info n = Some out \<and> length out = n"
  by (simp add: hkdf_correct_def)

lemma deriveTransportKeys_total:
  assumes "hkdf_correct P" "length th = 32"
  obtains sid itr rti where "sid \<noteq> 0" "length itr = 32" "length rti = 32"
    "deriveTransportKeys P EndpointRoleInitiator th ee es se ss = Ok (sid, itr, rti)"
    "deriveTransportKeys P EndpointRoleResponder th ee es se ss = Ok (sid, rti, itr)"
proof -
  obtain keys where keys: "p_hkdf P (arr 32 ee @ arr 32 es @ arr 32 se @ arr 32 ss)
      (sha256 (str ''SHADOWLARK_HANDSHAKE_SALT'' @ th)) (str ''SHADOWLARK_TRANSPORT_KEYS'') 64 = Some keys"
    using hkdf_correctD [OF assms(1), of 64] by fastforce
  obtain v where v: "be_Uint64 (take 8 (sha256 (str ''SHADOWLARK_SESSION_ID'' @ th))) = Ok v"
    using be_Uint64_total [of "take 8 (sha256 (str ''SHADOWLARK_SESSION_ID'' @ th))"] by auto
  show ?thesis
    by (rule that [of "if v = 0 then 1 else v" "arr 32 (take 32 keys)" "arr 32 (take 32 (drop 32 keys))"])
       (simp_all add: deriveTransportKeys_def Let_def keys v EndpointRoleInitiator_def
         EndpointRoleResponder_def)
qed

text \<open>Whatever the primitives do, a derived session id is not zero and the keys have 32 bytes.\<close>

lemma deriveTransportKeys_OkD:
  "deriveTransportKeys P role th ee es se ss = Ok (sid, tx, rx) \<Longrightarrow>
     sid \<noteq> 0 \<and> length tx = 32 \<and> length rx = 32"
  by (auto simp: deriveTransportKeys_def Let_def obind_eq_Ok split: option.splits if_splits)

lemma deriveTransportKeys_no_panic: "deriveTransportKeys P role th ee es se ss \<noteq> Panic"
proof -
  have "\<exists>v. be_Uint64 (take 8 (sha256 m)) = Ok v" for m by (rule be_Uint64_total) simp
  then show ?thesis
    by (auto simp: deriveTransportKeys_def Let_def obind_eq_Panic split: option.splits if_splits)
       (metis outcome.distinct(3))+
qed

section \<open>Honest endpoints\<close>

text \<open>65281 bytes of key id are the most for which a server hello fits its 16-bit length.\<close>

definition max_key_id :: nat where
  "max_key_id = 65281"

definition endpoint_ok :: "primitives \<Rightarrow> endpoint \<Rightarrow> bool" where
  "endpoint_ok P s \<longleftrightarrow> identity_ok P (hs_localIdentity s) \<and> bundle_ok (hs_localBundle s) \<and>
     length (b_KeyID (hs_localBundle s)) \<le> max_key_id \<and>
     b_X25519StaticPublic (hs_localBundle s) = id_x25519Public (hs_localIdentity s) \<and>
     b_Ed25519Public (hs_localBundle s) = id_ed25519Public (hs_localIdentity s) \<and>
     length (hs_ephPrivate s) = 32 \<and> length (hs_ephPublic s) = 32 \<and>
     p_x25519 P (hs_ephPrivate s) (p_x_basepoint P) = Some (hs_ephPublic s)"

lemma NewSecure_ok:
  assumes "signature_correct P" "dh_correct P" "identity_ok P k" "length keyID \<le> max_key_id"
    "SignedIdentityBundle P keyID nb na k = Ok b" "length rnd = 32"
  obtains s where "NewSecureInitiator P k b trust pol (Some rnd) = Ok s"
    "NewSecureResponder P k b trust pol (Some rnd) = Ok s" "endpoint_ok P s"
    "hs_localBundle s = b" "hs_trustStore s = trust" "hs_policy s = pol"
    "hs_clientHello s = None" "hs_serverHello s = None"
proof -
  obtain A where A: "x25519PublicFromPrivate P rnd = Ok A" "length A = 32"
    "p_x25519 P rnd (p_x_basepoint P) = Some A"
    by (rule x25519Public_total [OF assms(2,6)])
  have kid: "length keyID \<le> max_u16" using assms(4) by (simp add: max_key_id_def max_u16_def)
  obtain b' where b': "SignedIdentityBundle P keyID nb na k = Ok b'" "bundle_ok b'"
    "b_KeyID b' = keyID" "b_Ed25519Public b' = id_ed25519Public k"
    "b_X25519StaticPublic b' = id_x25519Public k"
    by (rule SignedIdentityBundle_Ok [OF assms(1-3) kid])
  show ?thesis
    by (rule that [of "\<lparr>hs_localIdentity = k, hs_localBundle = b, hs_trustStore = trust,
          hs_policy = pol, hs_ephPrivate = rnd, hs_ephPublic = A, hs_clientHello = None,
          hs_serverHello = None\<rparr>"])
       (use A b' assms in \<open>simp_all add: NewSecureInitiator_def NewSecureResponder_def random32_def
          endpoint_ok_def\<close>)
qed

definition hello_of :: "endpoint \<Rightarrow> client_hello" where
  "hello_of s = \<lparr>ch_CapabilityBits = pol_CapabilityBits (hs_policy s),
     ch_RequestedMaxPayload = pol_MaxPayload (hs_policy s), ch_EphPublic = hs_ephPublic s,
     ch_IdentityBundle = hs_localBundle s\<rparr>"

lemma hello_of_ok:
  "endpoint_ok P s \<Longrightarrow> client_hello_ok (hello_of s) \<and> length (client_hello_bytes (hello_of s)) \<le> max_u16"
  by (simp add: endpoint_ok_def client_hello_ok_def hello_ok_def hello_of_def length_bundle_bytes
      max_key_id_def max_u16_def client_hello_bytes_def hello_bytes_def)

lemma BuildClientHello_step:
  assumes "endpoint_ok P s"
  obtains f where "BuildClientHello s = (Ok f, s\<lparr>hs_clientHello := Some (hello_of s)\<rparr>)"
    "ClientHelloFromFrame f = Ok (hello_of s)" "f_MsgType f = MsgClientHello"
    "f_Version f = frame_Version" "length (f_Payload f) \<le> 65539"
proof -
  note ok = hello_of_ok [OF assms]
  from ok [THEN conjunct1] ok [THEN conjunct2] obtain f where f: "ClientHello_ToFrame (hello_of s) = Ok f"
    "ClientHelloFromFrame f = Ok (hello_of s)" "f_MsgType f = MsgClientHello"
    "f_Version f = frame_Version" "length (f_Payload f) = 4 + length (client_hello_bytes (hello_of s))"
    by (rule ClientHello_ToFrame_Ok)
  have "length (f_Payload f) \<le> 65539" using f(5) ok by (simp add: max_u16_def)
  moreover have "BuildClientHello s = (Ok f, s\<lparr>hs_clientHello := Some (hello_of s)\<rparr>)"
    using f(1) by (simp add: BuildClientHello_def Let_def hello_of_def)
  ultimately show ?thesis using f by (intro that [of f])
qed

text \<open>Two endpoints agree on each of the four Diffie-Hellman values.\<close>

lemma shared_agree:
  assumes "dh_correct P" "length a = 32" "length b = 32"
    "p_x25519 P a (p_x_basepoint P) = Some A" "p_x25519 P b (p_x_basepoint P) = Some B"
  obtains x where "x25519Shared P a B = Ok x" "x25519Shared P b A = Ok x" "length x = 32"
proof -
  from assms obtain x where "p_x25519 P a B = Some x" "p_x25519 P b A = Some x" "length x = 32"
    unfolding dh_correct_def by blast
  then show ?thesis by (intro that [of x]) (simp_all add: x25519Shared_def)
qed

lemma VerifyEd25519_Ok [simp]: "VerifyEd25519 P k m s = Ok u \<longleftrightarrow> p_ed_verify P k m s"
  by (simp add: VerifyEd25519_def)

lemma verify_as_Ok [simp]: "verify_as P k m s e = Ok u \<longleftrightarrow> p_ed_verify P k m s"
  by (simp add: verify_as_def VerifyEd25519_def ocheck_def)

lemma verify_as_eq:
  "verify_as P k m s e = (if p_ed_verify P k m s then Ok () else Err (HandshakeError e))"
  by (simp add: verify_as_def VerifyEd25519_def ocheck_def)

text \<open>Exactly when the initiator accepts a server hello.\<close>

lemma checkServerHello_Ok_iff:
  "checkServerHello P f now s = Ok sh \<longleftrightarrow>
     ServerHelloFromFrame f = Ok sh \<and>
     Validate P (sh_IdentityBundle sh) (hs_trustStore s) now = Ok () \<and>
     (\<exists>ch th. hs_clientHello s = Some ch \<and>
        ch_CapabilityBits ch AND sh_AcceptedCapabilityBits sh \<noteq> 0 \<and>
        sh_AcceptedMaxPayload sh \<noteq> 0 \<and> sh_AcceptedMaxPayload sh \<le> pol_MaxPayload (hs_policy s) \<and>
        handshakeTranscriptHash ch sh = Ok th \<and>
        p_ed_verify P (b_Ed25519Public (sh_IdentityBundle sh))
          (serverSignatureMessage th (ch_EphPublic ch) (sh_EphPublic sh)
            (b_X25519StaticPublic (hs_localBundle s)) (b_X25519StaticPublic (sh_IdentityBundle sh)))
          (sh_TranscriptSignature sh))"
  by (auto simp: checkServerHello_def obind_eq_Ok Let_def not_le split: option.splits if_splits)

lemma HandleServerHello_Ok_iff:
  "HandleServerHello P f now s = (Ok (), s') \<longleftrightarrow>
     (\<exists>sh. checkServerHello P f now s = Ok sh \<and> s' = s\<lparr>hs_serverHello := Some sh\<rparr>)"
  by (auto simp: HandleServerHello_def split: outcome.splits)

definition reply_of :: "endpoint \<Rightarrow> client_hello \<Rightarrow> bytes \<Rightarrow> server_hello" where
  "reply_of s ch sig = \<lparr>sh_AcceptedCapabilityBits = ch_CapabilityBits ch AND pol_CapabilityBits (hs_policy s),
     sh_AcceptedMaxPayload = min (ch_RequestedMaxPayload ch) (pol_MaxPayload (hs_policy s)),
     sh_EphPublic = hs_ephPublic s, sh_IdentityBundle = hs_localBundle s,
     sh_TranscriptSignature = sig\<rparr>"

lemma reply_of_sel [simp]:
  "sh_AcceptedCapabilityBits (reply_of s ch sig) = ch_CapabilityBits ch AND pol_CapabilityBits (hs_policy s)"
  "sh_AcceptedMaxPayload (reply_of s ch sig) = min (ch_RequestedMaxPayload ch) (pol_MaxPayload (hs_policy s))"
  "sh_EphPublic (reply_of s ch sig) = hs_ephPublic s"
  "sh_IdentityBundle (reply_of s ch sig) = hs_localBundle s"
  "sh_TranscriptSignature (reply_of s ch sig) = sig"
  by (simp_all add: reply_of_def)

lemma hello_of_sel [simp]:
  "ch_CapabilityBits (hello_of s) = pol_CapabilityBits (hs_policy s)"
  "ch_RequestedMaxPayload (hello_of s) = pol_MaxPayload (hs_policy s)"
  "ch_EphPublic (hello_of s) = hs_ephPublic s"
  "ch_IdentityBundle (hello_of s) = hs_localBundle s"
  by (simp_all add: hello_of_def)

lemma answerClientHello_Ok_iff:
  "answerClientHello P f now s = Ok (ch, sh) \<longleftrightarrow>
     ClientHelloFromFrame f = Ok ch \<and>
     Validate P (ch_IdentityBundle ch) (hs_trustStore s) now = Ok () \<and>
     ch_CapabilityBits ch AND pol_CapabilityBits (hs_policy s) \<noteq> 0 \<and>
     min (ch_RequestedMaxPayload ch) (pol_MaxPayload (hs_policy s)) \<noteq> 0 \<and>
     (\<exists>th sig. handshakeTranscriptHash ch (reply_of s ch (replicate 64 0)) = Ok th \<and>
        SignEd25519 P (hs_localIdentity s)
          (serverSignatureMessage th (ch_EphPublic ch) (hs_ephPublic s)
            (b_X25519StaticPublic (ch_IdentityBundle ch)) (b_X25519StaticPublic (hs_localBundle s))) = Ok sig \<and>
        sh = reply_of s ch sig)"
  by (auto simp: answerClientHello_def obind_eq_Ok Let_def reply_of_def min_def not_le
      split: if_splits)

text \<open>One honest step each: the responder's answer and what the initiator makes of it.\<close>

lemma HandleClientHello_step:
  assumes P: "signature_correct P" "dh_correct P" and r: "endpoint_ok P r"
    and f: "ClientHelloFromFrame f = Ok ch" "client_hello_ok ch"
    and "Validate P (ch_IdentityBundle ch) (hs_trustStore r) now = Ok ()"
    and "ch_CapabilityBits ch AND pol_CapabilityBits (hs_policy r) \<noteq> 0"
    and "min (ch_RequestedMaxPayload ch) (pol_MaxPayload (hs_policy r)) \<noteq> 0"
  obtains g sig where "HandleClientHello P f now r =
      (Ok g, r\<lparr>hs_clientHello := Some ch, hs_serverHello := Some (reply_of r ch sig)\<rparr>)"
    "ServerHelloFromFrame g = Ok (reply_of r ch sig)" "server_hello_ok (reply_of r ch sig)"
    "f_MsgType g = MsgServerHello"
    "f_Version g = frame_Version" "length (f_Payload g) \<le> 65539"
    "p_ed_verify P (b_Ed25519Public (hs_localBundle r))
      (serverSignatureMessage (transcript_hash ch (reply_of r ch sig)) (ch_EphPublic ch) (hs_ephPublic r)
        (b_X25519StaticPublic (ch_IdentityBundle ch)) (b_X25519StaticPublic (hs_localBundle r))) sig"
proof -
  let ?z = "replicate 64 0 :: bytes"
  let ?m = "serverSignatureMessage (transcript_hash ch (reply_of r ch ?z)) (ch_EphPublic ch)
    (hs_ephPublic r) (b_X25519StaticPublic (ch_IdentityBundle ch)) (b_X25519StaticPublic (hs_localBundle r))"
  have hello: "hello_ok (hs_ephPublic r) (hs_localBundle r)"
    using r by (simp add: endpoint_ok_def hello_ok_def length_bundle_bytes max_key_id_def max_u16_def)
  have th: "handshakeTranscriptHash ch (reply_of r ch ?z) = Ok (transcript_hash ch (reply_of r ch ?z))"
    by (rule handshakeTranscriptHash_eq [OF f(2)]) (simp add: reply_of_def hello)
  have idr: "identity_ok P (hs_localIdentity r)" using r by (simp add: endpoint_ok_def)
  obtain sig where sig: "SignEd25519 P (hs_localIdentity r) ?m = Ok sig" "length sig = 64"
    "p_ed_verify P (id_ed25519Public (hs_localIdentity r)) ?m sig"
    using identity_okD(6) [OF P idr] by blast
  have same: "transcript_hash ch (reply_of r ch sig) = transcript_hash ch (reply_of r ch ?z)"
    by (simp add: transcript_hash_def server_unsigned_bytes_def reply_of_def)
  have ok: "server_hello_ok (reply_of r ch sig)"
    using hello sig(2) by (simp add: server_hello_ok_def reply_of_def)
  have len: "length (server_hello_bytes (reply_of r ch sig)) \<le> max_u16"
    using r length_server_hello_bytes [OF ok]
    by (simp add: endpoint_ok_def max_key_id_def max_u16_def)
  obtain g where g: "ServerHello_ToFrame (reply_of r ch sig) = Ok g"
    "ServerHelloFromFrame g = Ok (reply_of r ch sig)" "f_MsgType g = MsgServerHello"
    "f_Version g = frame_Version"
    "length (f_Payload g) = 4 + length (server_hello_bytes (reply_of r ch sig))"
    by (rule ServerHello_ToFrame_Ok [OF ok len])
  have "answerClientHello P f now r = Ok (ch, reply_of r ch sig)"
    unfolding answerClientHello_Ok_iff using assms(4-) th sig(1) by (auto simp: reply_of_def)
  then have "HandleClientHello P f now r =
      (Ok g, r\<lparr>hs_clientHello := Some ch, hs_serverHello := Some (reply_of r ch sig)\<rparr>)"
    using g(1) by (simp add: HandleClientHello_def)
  moreover have "length (f_Payload g) \<le> 65539" using g(5) len by (simp add: max_u16_def)
  ultimately show ?thesis
    using g(2-4) ok sig(3) r same by (intro that [of g sig]) (simp_all add: endpoint_ok_def)
qed

lemma BuildClientFinish_step:
  assumes P: "signature_correct P" "dh_correct P" and i: "endpoint_ok P i"
    and "hs_clientHello i = Some ch" "hs_serverHello i = Some sh"
    and "client_hello_ok ch" "server_hello_ok sh"
  obtains g fin where "BuildClientFinish P i = Ok g" "ClientFinishFromFrame g = Ok fin"
    "cf_MaxRekeyBytes fin = pol_MaxRekeyBytes (hs_policy i)"
    "cf_MaxRekeySeconds fin = pol_MaxRekeySeconds (hs_policy i)"
    "f_MsgType g = MsgClientFinish"
    "f_Version g = frame_Version" "length (f_Payload g) \<le> 65539"
    "p_ed_verify P (b_Ed25519Public (hs_localBundle i))
      (clientSignatureMessage (transcript_hash ch sh) (ch_EphPublic ch) (sh_EphPublic sh)
        (b_X25519StaticPublic (hs_localBundle i)) (b_X25519StaticPublic (sh_IdentityBundle sh)))
      (cf_TranscriptSignature fin)"
proof -
  let ?m = "clientSignatureMessage (transcript_hash ch sh) (ch_EphPublic ch) (sh_EphPublic sh)
        (b_X25519StaticPublic (hs_localBundle i)) (b_X25519StaticPublic (sh_IdentityBundle sh))"
  have th: "handshakeTranscriptHash ch sh = Ok (transcript_hash ch sh)"
    by (rule handshakeTranscriptHash_eq) (use assms in \<open>simp_all add: server_hello_ok_def\<close>)
  have idi: "identity_ok P (hs_localIdentity i)" using i by (simp add: endpoint_ok_def)
  obtain sig where sig: "SignEd25519 P (hs_localIdentity i) ?m = Ok sig" "length sig = 64"
    "p_ed_verify P (id_ed25519Public (hs_localIdentity i)) ?m sig"
    using identity_okD(6) [OF P idi] by blast
  let ?fin = "\<lparr>cf_MaxRekeyBytes = pol_MaxRekeyBytes (hs_policy i),
    cf_MaxRekeySeconds = pol_MaxRekeySeconds (hs_policy i), cf_RoleHint = RoleHintDuplex,
    cf_TranscriptSignature = sig\<rparr>"
  have "client_finish_ok ?fin"
    using sig(2) by (simp add: client_finish_ok_def roleHintFromByte_def)
  then obtain g where g: "ClientFinish_ToFrame ?fin = Ok g" "ClientFinishFromFrame g = Ok ?fin"
    "f_MsgType g = MsgClientFinish" "f_Version g = frame_Version" "length (f_Payload g) = 84"
    by (rule ClientFinish_ToFrame_Ok)
  have "BuildClientFinish P i = Ok g"
    using assms(4,5) th sig(1) g(1) by (simp add: BuildClientFinish_def)
  then show ?thesis
    using g(2-5) sig(3) i by (intro that [of g ?fin]) (simp_all add: endpoint_ok_def)
qed

section \<open>A complete run\<close>

text \<open>The exchange of \<open>Client.Handshake\<close> with a responder at the other end: the frames of the
  three messages are passed on unchanged, and both ends finish.\<close>

definition run_handshake ::
    "primitives \<Rightarrow> endpoint \<Rightarrow> endpoint \<Rightarrow> u64 \<Rightarrow> u64 \<Rightarrow> (handshake_output \<times> handshake_output) outcome" where
  "run_handshake P i r nowI nowR =
     (let (hello, i) = BuildClientHello i in
      obind hello (\<lambda>f1.
      let (reply, r) = HandleClientHello P f1 nowR r in
      obind reply (\<lambda>f2.
      let (accepted, i) = HandleServerHello P f2 nowI i in
      obind accepted (\<lambda>_.
      obind (BuildClientFinish P i) (\<lambda>f3.
      obind (Finalize P i) (\<lambda>outI.
      obind (HandleClientFinish P f3 r) (\<lambda>outR.
      Ok (outI, outR))))))))"

text \<open>The four key agreements of two honest endpoints, and the keys both derive.\<close>

lemma agree_keys:
  assumes P: "dh_correct P" "signature_correct P" "hkdf_correct P"
    and ok: "endpoint_ok P i" "endpoint_ok P r"
  obtains ee es se ss where
    "x25519Shared P (hs_ephPrivate i) (hs_ephPublic r) = Ok ee"
    "x25519Shared P (hs_ephPrivate r) (hs_ephPublic i) = Ok ee"
    "x25519Shared P (hs_ephPrivate i) (b_X25519StaticPublic (hs_localBundle r)) = Ok es"
    "x25519Shared P (id_x25519Private (hs_localIdentity r)) (hs_ephPublic i) = Ok es"
    "x25519Shared P (id_x25519Private (hs_localIdentity i)) (hs_ephPublic r) = Ok se"
    "x25519Shared P (hs_ephPrivate r) (b_X25519StaticPublic (hs_localBundle i)) = Ok se"
    "x25519Shared P (id_x25519Private (hs_localIdentity i)) (b_X25519StaticPublic (hs_localBundle r)) = Ok ss"
    "x25519Shared P (id_x25519Private (hs_localIdentity r)) (b_X25519StaticPublic (hs_localBundle i)) = Ok ss"
proof -
  have static: "b_X25519StaticPublic (hs_localBundle s) = id_x25519Public (hs_localIdentity s)"
    "length (id_x25519Private (hs_localIdentity s)) = 32" "length (hs_ephPrivate s) = 32"
    "p_x25519 P (id_x25519Private (hs_localIdentity s)) (p_x_basepoint P) = Some (id_x25519Public (hs_localIdentity s))"
    "p_x25519 P (hs_ephPrivate s) (p_x_basepoint P) = Some (hs_ephPublic s)"
    if "endpoint_ok P s" for s
    using that identity_okD [OF P(2,1), of "hs_localIdentity s"] by (simp_all add: endpoint_ok_def)
  note si = static [OF ok(1)] and sr = static [OF ok(2)]
  obtain ee where ee: "x25519Shared P (hs_ephPrivate i) (hs_ephPublic r) = Ok ee"
    "x25519Shared P (hs_ephPrivate r) (hs_ephPublic i) = Ok ee"
    by (rule shared_agree [OF P(1) si(3) sr(3) si(5) sr(5)])
  obtain es where es: "x25519Shared P (hs_ephPrivate i) (id_x25519Public (hs_localIdentity r)) = Ok es"
    "x25519Shared P (id_x25519Private (hs_localIdentity r)) (hs_ephPublic i) = Ok es"
    by (rule shared_agree [OF P(1) si(3) sr(2) si(5) sr(4)])
  obtain se where se: "x25519Shared P (id_x25519Private (hs_localIdentity i)) (hs_ephPublic r) = Ok se"
    "x25519Shared P (hs_ephPrivate r) (id_x25519Public (hs_localIdentity i)) = Ok se"
    by (rule shared_agree [OF P(1) si(2) sr(3) si(4) sr(5)])
  obtain ss where ss: "x25519Shared P (id_x25519Private (hs_localIdentity i)) (id_x25519Public (hs_localIdentity r)) = Ok ss"
    "x25519Shared P (id_x25519Private (hs_localIdentity r)) (id_x25519Public (hs_localIdentity i)) = Ok ss"
    by (rule shared_agree [OF P(1) si(2) sr(2) si(4) sr(4)])
  show ?thesis using ee es se ss si(1) sr(1) by (intro that [of ee es se ss]) simp_all
qed

text \<open>What the two outputs of a run that went well have in common.\<close>

definition outputs_match :: "endpoint \<Rightarrow> endpoint \<Rightarrow> handshake_output \<Rightarrow> handshake_output \<Rightarrow> bool" where
  "outputs_match i r oi ro \<longleftrightarrow>
     ho_Role oi = EndpointRoleInitiator \<and> ho_Role ro = EndpointRoleResponder \<and>
     ho_SessionID oi = ho_SessionID ro \<and> ho_SessionID oi \<noteq> 0 \<and>
     ho_TxKey oi = ho_RxKey ro \<and> ho_RxKey oi = ho_TxKey ro \<and>
     length (ho_TxKey oi) = 32 \<and> length (ho_RxKey oi) = 32 \<and>
     ho_PeerIdentity oi = hs_localBundle r \<and> ho_PeerIdentity ro = hs_localBundle i \<and>
     ho_NegotiatedCapabilityBit oi = pol_CapabilityBits (hs_policy i) AND pol_CapabilityBits (hs_policy r) \<and>
     ho_NegotiatedCapabilityBit ro = ho_NegotiatedCapabilityBit oi \<and>
     ho_NegotiatedMaxPayload oi = min (pol_MaxPayload (hs_policy i)) (pol_MaxPayload (hs_policy r)) \<and>
     ho_NegotiatedMaxPayload ro = ho_NegotiatedMaxPayload oi \<and>
     ho_MaxRekeyBytes oi = pol_MaxRekeyBytes (hs_policy i) \<and> ho_MaxRekeyBytes ro = ho_MaxRekeyBytes oi \<and>
     ho_MaxRekeySeconds oi = pol_MaxRekeySeconds (hs_policy i) \<and>
     ho_MaxRekeySeconds ro = ho_MaxRekeySeconds oi"

text \<open>Two endpoints that may talk to each other at the given times.\<close>

definition compatible :: "primitives \<Rightarrow> endpoint \<Rightarrow> endpoint \<Rightarrow> u64 \<Rightarrow> u64 \<Rightarrow> bool" where
  "compatible P i r nowI nowR \<longleftrightarrow> endpoint_ok P i \<and> endpoint_ok P r \<and>
     Validate P (hs_localBundle i) (hs_trustStore r) nowR = Ok () \<and>
     Validate P (hs_localBundle r) (hs_trustStore i) nowI = Ok () \<and>
     pol_CapabilityBits (hs_policy i) AND pol_CapabilityBits (hs_policy r) \<noteq> 0 \<and>
     min (pol_MaxPayload (hs_policy i)) (pol_MaxPayload (hs_policy r)) \<noteq> 0"

lemma HandleServerHello_step:
  assumes ok: "compatible P i r nowI nowR" and s: "server_hello_ok (reply_of r (hello_of i) sig)"
    and g: "ServerHelloFromFrame g = Ok (reply_of r (hello_of i) sig)"
    and v: "p_ed_verify P (b_Ed25519Public (hs_localBundle r))
      (serverSignatureMessage (transcript_hash (hello_of i) (reply_of r (hello_of i) sig))
        (hs_ephPublic i) (hs_ephPublic r)
        (b_X25519StaticPublic (hs_localBundle i)) (b_X25519StaticPublic (hs_localBundle r))) sig"
  shows "HandleServerHello P g nowI (i\<lparr>hs_clientHello := Some (hello_of i)\<rparr>) =
    (Ok (), i\<lparr>hs_clientHello := Some (hello_of i),
              hs_serverHello := Some (reply_of r (hello_of i) sig)\<rparr>)"
proof -
  have "endpoint_ok P i" using ok by (simp add: compatible_def)
  then have th: "handshakeTranscriptHash (hello_of i) (reply_of r (hello_of i) sig) =
      Ok (transcript_hash (hello_of i) (reply_of r (hello_of i) sig))"
    using s hello_of_ok by (intro handshakeTranscriptHash_eq) (simp_all add: server_hello_ok_def)
  have "checkServerHello P g nowI (i\<lparr>hs_clientHello := Some (hello_of i)\<rparr>) =
      Ok (reply_of r (hello_of i) sig)"
    unfolding checkServerHello_Ok_iff using g v ok th by (auto simp: compatible_def)
  then show ?thesis by (simp add: HandleServerHello_def)
qed

lemma finish_step:
  assumes P: "primitives_correct P" and ok: "compatible P i r nowI nowR"
    and s: "server_hello_ok (reply_of r (hello_of i) sig)"
  defines "i' \<equiv> i\<lparr>hs_clientHello := Some (hello_of i),
              hs_serverHello := Some (reply_of r (hello_of i) sig)\<rparr>"
    and "r' \<equiv> r\<lparr>hs_clientHello := Some (hello_of i),
              hs_serverHello := Some (reply_of r (hello_of i) sig)\<rparr>"
  obtains f oi ro where "BuildClientFinish P i' = Ok f" "Finalize P i' = Ok oi"
    "HandleClientFinish P f r' = Ok ro" "outputs_match i r oi ro"
    "f_MsgType f = MsgClientFinish" "f_Version f = frame_Version" "length (f_Payload f) \<le> 65539"
proof -
  let ?sh = "reply_of r (hello_of i) sig" and ?ch = "hello_of i"
  have laws: "signature_correct P" "dh_correct P" "hkdf_correct P"
    using P by (simp_all add: primitives_correct_def)
  have ends: "endpoint_ok P i" "endpoint_ok P r" using ok by (simp_all add: compatible_def)
  have ch: "client_hello_ok ?ch" using hello_of_ok [OF ends(1)] by simp
  have i': "endpoint_ok P i'" using ends(1) by (simp add: i'_def endpoint_ok_def)
  obtain f fin where f: "BuildClientFinish P i' = Ok f" "ClientFinishFromFrame f = Ok fin"
    "cf_MaxRekeyBytes fin = pol_MaxRekeyBytes (hs_policy i')"
    "cf_MaxRekeySeconds fin = pol_MaxRekeySeconds (hs_policy i')"
    "f_MsgType f = MsgClientFinish" "f_Version f = frame_Version" "length (f_Payload f) \<le> 65539"
    "p_ed_verify P (b_Ed25519Public (hs_localBundle i'))
      (clientSignatureMessage (transcript_hash ?ch ?sh) (ch_EphPublic ?ch) (sh_EphPublic ?sh)
        (b_X25519StaticPublic (hs_localBundle i')) (b_X25519StaticPublic (sh_IdentityBundle ?sh)))
      (cf_TranscriptSignature fin)"
    by (rule BuildClientFinish_step [OF laws(1,2) i' _ _ ch s]) (simp_all add: i'_def)
  have th: "handshakeTranscriptHash ?ch ?sh = Ok (transcript_hash ?ch ?sh)"
    using ch s by (intro handshakeTranscriptHash_eq) (simp_all add: server_hello_ok_def)
  obtain ee es se ss where dh:
    "x25519Shared P (hs_ephPrivate i) (hs_ephPublic r) = Ok ee"
    "x25519Shared P (hs_ephPrivate r) (hs_ephPublic i) = Ok ee"
    "x25519Shared P (hs_ephPrivate i) (b_X25519StaticPublic (hs_localBundle r)) = Ok es"
    "x25519Shared P (id_x25519Private (hs_localIdentity r)) (hs_ephPublic i) = Ok es"
    "x25519Shared P (id_x25519Private (hs_localIdentity i)) (hs_ephPublic r) = Ok se"
    "x25519Shared P (hs_ephPrivate r) (b_X25519StaticPublic (hs_localBundle i)) = Ok se"
    "x25519Shared P (id_x25519Private (hs_localIdentity i)) (b_X25519StaticPublic (hs_localBundle r)) = Ok ss"
    "x25519Shared P (id_x25519Private (hs_localIdentity r)) (b_X25519StaticPublic (hs_localBundle i)) = Ok ss"
    by (rule agree_keys [OF laws(2,1,3) ends])
  obtain sid itr rti where k: "sid \<noteq> 0" "length itr = 32" "length rti = 32"
    "deriveTransportKeys P EndpointRoleInitiator (transcript_hash ?ch ?sh) ee es se ss = Ok (sid, itr, rti)"
    "deriveTransportKeys P EndpointRoleResponder (transcript_hash ?ch ?sh) ee es se ss = Ok (sid, rti, itr)"
    by (rule deriveTransportKeys_total [OF laws(3) length_transcript_hash])
  have fin: "\<exists>oi ro. Finalize P i' = Ok oi \<and> HandleClientFinish P f r' = Ok ro \<and> outputs_match i r oi ro"
    using f(2,3,4,8) th dh k
    by (simp add: Finalize_def HandleClientFinish_def i'_def r'_def verify_as_eq outputs_match_def Let_def and.left_commute and.commute)
  then show ?thesis using f(1,5,6,7) that by blast
qed

lemma run_handshake_matches:
  assumes P: "primitives_correct P" and ok: "compatible P i r nowI nowR"
  shows "\<exists>oi ro. run_handshake P i r nowI nowR = Ok (oi, ro) \<and> outputs_match i r oi ro"
proof -
  have laws: "signature_correct P" "dh_correct P" using P by (simp_all add: primitives_correct_def)
  have ends: "endpoint_ok P i" "endpoint_ok P r" using ok by (simp_all add: compatible_def)
  obtain f1 where 1: "BuildClientHello i = (Ok f1, i\<lparr>hs_clientHello := Some (hello_of i)\<rparr>)"
    "ClientHelloFromFrame f1 = Ok (hello_of i)"
    by (rule BuildClientHello_step [OF ends(1)])
  obtain f2 sig where 2: "HandleClientHello P f1 nowR r =
      (Ok f2, r\<lparr>hs_clientHello := Some (hello_of i), hs_serverHello := Some (reply_of r (hello_of i) sig)\<rparr>)"
    "ServerHelloFromFrame f2 = Ok (reply_of r (hello_of i) sig)" "server_hello_ok (reply_of r (hello_of i) sig)"
    "p_ed_verify P (b_Ed25519Public (hs_localBundle r))
      (serverSignatureMessage (transcript_hash (hello_of i) (reply_of r (hello_of i) sig))
        (ch_EphPublic (hello_of i)) (hs_ephPublic r)
        (b_X25519StaticPublic (ch_IdentityBundle (hello_of i))) (b_X25519StaticPublic (hs_localBundle r))) sig"
    by (rule HandleClientHello_step [OF laws ends(2) 1(2)])
       (use hello_of_ok [OF ends(1)] ok in \<open>auto simp: compatible_def\<close>)
  have 3: "HandleServerHello P f2 nowI (i\<lparr>hs_clientHello := Some (hello_of i)\<rparr>) =
    (Ok (), i\<lparr>hs_clientHello := Some (hello_of i), hs_serverHello := Some (reply_of r (hello_of i) sig)\<rparr>)"
    by (rule HandleServerHello_step [OF ok 2(3,2)]) (use 2(4) in simp)
  show ?thesis
    by (rule finish_step [OF P ok 2(3)]) (simp add: run_handshake_def Let_def 1(1) 2(1) 3)
qed

section \<open>What acceptance implies\<close>

lemma HandleServerHello_OkD:
  assumes "HandleServerHello P f now s = (Ok (), s')" "length (f_Payload f) < 2 ^ 62"
  obtains sh where "s' = s\<lparr>hs_serverHello := Some sh\<rparr>" "checkServerHello P f now s = Ok sh"
    "server_hello_ok sh"
  using assms ServerHelloFromFrame_OkD [OF assms(2)]
  by (auto simp: HandleServerHello_Ok_iff checkServerHello_Ok_iff)

lemma HandleClientHello_OkD:
  assumes "HandleClientHello P f now s = (Ok g, s')"
  obtains ch sh where "answerClientHello P f now s = Ok (ch, sh)" "ServerHello_ToFrame sh = Ok g"
    "s' = s\<lparr>hs_clientHello := Some ch, hs_serverHello := Some sh\<rparr>"
  using assms by (auto simp: HandleClientHello_def split: outcome.splits prod.splits)

text \<open>
  An initiator cannot see who sent the hello it accepts; what it can rely on is that nobody else
  signs with the server's key. \<open>hello_run\<close> is a call of \<open>HandleClientHello\<close>: the frame, the time and
  the responder before it. \<open>signs_hello\<close> finds out whether such a call signs a given message with the
  responder's private key, by running it with a signer that answers that message alone with a mark.
  \<open>genuine_only\<close> are the primitives whose verification takes a signature on a server hello only
  when one of the given calls made it. A run of the initiator that ends the same way under these
  accepted no forgery.
\<close>

type_synonym hello_run = "frame \<times> u64 \<times> endpoint"

definition signs_hello :: "primitives \<Rightarrow> hello_run \<Rightarrow> bytes \<Rightarrow> bool" where
  "signs_hello P run m = (case run of (g, now, r) \<Rightarrow>
     (case HandleClientHello (P\<lparr>p_ed_sign := \<lambda>k m'. replicate 64
           (if k = id_ed25519Private (hs_localIdentity r) \<and> m' = m then 1 else 0)\<rparr>) g now r of
        (Ok _, r') \<Rightarrow> map_option sh_TranscriptSignature (hs_serverHello r') = Some (replicate 64 1)
      | _ \<Rightarrow> False))"

definition genuine_only :: "primitives \<Rightarrow> hello_run list \<Rightarrow> primitives" where
  "genuine_only P runs = P\<lparr>p_ed_verify := \<lambda>k m sig. p_ed_verify P k m sig \<and>
     (take 27 m = str ''SHADOWLARK_SERVER_HELLO_SIG'' \<longrightarrow>
       list_ex (\<lambda>run. id_ed25519Public (hs_localIdentity (snd (snd run))) = k \<and>
         signs_hello P run m) runs)\<rparr>"

text \<open>Two transcripts that do not collide under SHA-256.\<close>

definition collision_free :: "client_hello \<Rightarrow> server_hello \<Rightarrow> client_hello \<Rightarrow> server_hello \<Rightarrow> bool" where
  "collision_free c s d t \<longleftrightarrow> (transcript_hash c s = transcript_hash d t \<longrightarrow>
     client_hello_bytes c @ server_unsigned_bytes s = client_hello_bytes d @ server_unsigned_bytes t)"

text \<open>The hellos a responder holds after such a call.\<close>

definition hellos_of :: "primitives \<Rightarrow> hello_run \<Rightarrow> (client_hello \<times> server_hello) option" where
  "hellos_of P run = (case run of (g, now, r) \<Rightarrow>
     (case HandleClientHello P g now r of
        (Ok _, r') \<Rightarrow> (case (hs_clientHello r', hs_serverHello r') of
            (Some ch, Some sh) \<Rightarrow> Some (ch, sh) | _ \<Rightarrow> None)
      | _ \<Rightarrow> None))"

lemma answer_signs:
  assumes "signs_hello P (g, now, r) m" "length (f_Payload g) < 2 ^ 62" "endpoint_ok P r"
  obtains h ch sig where "ClientHelloFromFrame g = Ok ch" "client_hello_ok ch"
    "HandleClientHello P g now r = (Ok h, r\<lparr>hs_clientHello := Some ch, hs_serverHello := Some (reply_of r ch sig)\<rparr>)"
    "server_hello_ok (reply_of r ch sig)"
    "m = serverSignatureMessage (transcript_hash ch (reply_of r ch sig)) (ch_EphPublic ch) (hs_ephPublic r)
       (b_X25519StaticPublic (ch_IdentityBundle ch)) (b_X25519StaticPublic (hs_localBundle r))"
proof -
  let ?mark = "\<lambda>k m'. replicate 64 (if k = id_ed25519Private (hs_localIdentity r) \<and> m' = m then 1 else 0) :: bytes"
  let ?M = "P\<lparr>p_ed_sign := ?mark\<rparr>"
  obtain h' r' where h': "HandleClientHello ?M g now r = (Ok h', r')"
    "map_option sh_TranscriptSignature (hs_serverHello r') = Some (replicate 64 1)"
    using assms(1) by (auto simp: signs_hello_def split: prod.splits outcome.splits)
  obtain ch sh where run: "answerClientHello ?M g now r = Ok (ch, sh)"
    "r' = r\<lparr>hs_clientHello := Some ch, hs_serverHello := Some sh\<rparr>"
    by (rule HandleClientHello_OkD [OF h'(1)])
  from run(1) obtain th sig where ans: "ClientHelloFromFrame g = Ok ch"
    "Validate ?M (ch_IdentityBundle ch) (hs_trustStore r) now = Ok ()"
    "ch_CapabilityBits ch AND pol_CapabilityBits (hs_policy r) \<noteq> 0"
    "min (ch_RequestedMaxPayload ch) (pol_MaxPayload (hs_policy r)) \<noteq> 0"
    "handshakeTranscriptHash ch (reply_of r ch (replicate 64 0)) = Ok th"
    "SignEd25519 ?M (hs_localIdentity r) (serverSignatureMessage th (ch_EphPublic ch) (hs_ephPublic r)
       (b_X25519StaticPublic (ch_IdentityBundle ch)) (b_X25519StaticPublic (hs_localBundle r))) = Ok sig"
    "sh = reply_of r ch sig"
    by (auto simp: answerClientHello_Ok_iff)
  have ch: "client_hello_ok ch" by (rule ClientHelloFromFrame_OkD [OF assms(2) ans(1)])
  have hello: "hello_ok (hs_ephPublic r) (hs_localBundle r)"
    using assms(3) by (simp add: endpoint_ok_def hello_ok_def length_bundle_bytes max_key_id_def max_u16_def)
  have same: "transcript_hash ch (reply_of r ch x) = transcript_hash ch (reply_of r ch y)" for x y
    by (simp add: transcript_hash_def server_unsigned_bytes_def reply_of_def)
  have th: "th = transcript_hash ch (reply_of r ch (replicate 64 0))"
    using ans(5) handshakeTranscriptHash_eq [OF ch, of "reply_of r ch (replicate 64 0)"] hello by simp
  have key: "length (id_ed25519Private (hs_localIdentity r)) = 64" "sig = replicate 64 1"
    using ans(6,7) h'(2) run(2) by (auto simp: SignEd25519_def split: if_splits)
  have m: "m = serverSignatureMessage th (ch_EphPublic ch) (hs_ephPublic r)
       (b_X25519StaticPublic (ch_IdentityBundle ch)) (b_X25519StaticPublic (hs_localBundle r))"
    using ans(6) key by (simp add: SignEd25519_def split: if_splits)
  let ?sig = "arr 64 (p_ed_sign P (id_ed25519Private (hs_localIdentity r)) m)"
  have ok: "server_hello_ok (reply_of r ch ?sig)" using hello by (simp add: server_hello_ok_def)
  have len: "length (server_hello_bytes (reply_of r ch ?sig)) \<le> max_u16"
    using assms(3) length_server_hello_bytes [OF ok]
    by (simp add: endpoint_ok_def max_key_id_def max_u16_def)
  obtain h where h: "ServerHello_ToFrame (reply_of r ch ?sig) = Ok h"
    by (rule ServerHello_ToFrame_Ok [OF ok len])
  have "Validate P (ch_IdentityBundle ch) (hs_trustStore r) now = Ok ()"
    using ans(2) by (simp add: Validate_Ok_iff)
  then have "answerClientHello P g now r = Ok (ch, reply_of r ch ?sig)"
    unfolding answerClientHello_Ok_iff using ans(1,3-5) m key(1) by (simp add: SignEd25519_def)
  then have "HandleClientHello P g now r =
      (Ok h, r\<lparr>hs_clientHello := Some ch, hs_serverHello := Some (reply_of r ch ?sig)\<rparr>)"
    using h by (simp add: HandleClientHello_def)
  with ans(1) ch ok m th same [of ?sig "replicate 64 0"] show ?thesis by (intro that [of ch h ?sig]) simp_all
qed

text \<open>An honest exchange has no forgery in it.\<close>

lemma signs_own_hello:
  assumes "HandleClientHello P g now r = (Ok h, r')" "length (f_Payload g) < 2 ^ 62" "endpoint_ok P r"
    and "length (id_ed25519Private (hs_localIdentity r)) = 64"
    and "hs_clientHello r' = Some ch" "hs_serverHello r' = Some sh"
  shows "signs_hello P (g, now, r) (serverSignatureMessage (transcript_hash ch sh) (ch_EphPublic ch)
    (sh_EphPublic sh) (b_X25519StaticPublic (ch_IdentityBundle ch)) (b_X25519StaticPublic (sh_IdentityBundle sh)))"
    (is "signs_hello P (g, now, r) ?m")
proof -
  let ?M = "P\<lparr>p_ed_sign := \<lambda>k m'. replicate 64
    (if k = id_ed25519Private (hs_localIdentity r) \<and> m' = ?m then 1 else 0)\<rparr>"
  let ?sh = "reply_of r ch (replicate 64 1)"
  obtain sig th where ans: "ClientHelloFromFrame g = Ok ch"
    "Validate P (ch_IdentityBundle ch) (hs_trustStore r) now = Ok ()"
    "ch_CapabilityBits ch AND pol_CapabilityBits (hs_policy r) \<noteq> 0"
    "min (ch_RequestedMaxPayload ch) (pol_MaxPayload (hs_policy r)) \<noteq> 0"
    "handshakeTranscriptHash ch (reply_of r ch (replicate 64 0)) = Ok th" "sh = reply_of r ch sig"
    using assms(1,5,6) by (auto elim!: HandleClientHello_OkD simp: answerClientHello_Ok_iff)
  have hello: "hello_ok (hs_ephPublic r) (hs_localBundle r)"
    using assms(3) by (simp add: endpoint_ok_def hello_ok_def length_bundle_bytes max_key_id_def max_u16_def)
  have "client_hello_ok ch" by (rule ClientHelloFromFrame_OkD [OF assms(2) ans(1)])
  then have th: "th = transcript_hash ch sh"
    using ans(5,6) handshakeTranscriptHash_eq [of ch "reply_of r ch (replicate 64 0)"] hello
    by (simp add: transcript_hash_def server_unsigned_bytes_def)
  have ok: "server_hello_ok ?sh" using hello by (simp add: server_hello_ok_def)
  have len: "length (server_hello_bytes ?sh) \<le> max_u16"
    using assms(3) length_server_hello_bytes [OF ok]
    by (simp add: endpoint_ok_def max_key_id_def max_u16_def)
  obtain h' where h': "ServerHello_ToFrame ?sh = Ok h'"
    by (rule ServerHello_ToFrame_Ok [OF ok len])
  have "Validate ?M (ch_IdentityBundle ch) (hs_trustStore r) now = Ok ()"
    using ans(2) by (simp add: Validate_Ok_iff)
  then have "answerClientHello ?M g now r = Ok (ch, ?sh)"
    unfolding answerClientHello_Ok_iff using ans th assms(4) by (simp add: SignEd25519_def)
  with h' show ?thesis by (simp add: signs_hello_def HandleClientHello_def)
qed

lemma honest_is_genuine:
  assumes "HandleServerHello P f nowI i = (Ok (), i')" "length (f_Payload f) < 2 ^ 62"
    and "hs_clientHello i = Some c" "client_hello_ok c" "ch_IdentityBundle c = hs_localBundle i"
    and "HandleClientHello P g nowR r = (Ok h, r')" "length (f_Payload g) < 2 ^ 62" "endpoint_ok P r"
    and "length (id_ed25519Private (hs_localIdentity r)) = 64"
    and "hs_clientHello r' = Some c" "hs_serverHello r' = hs_serverHello i'"
  shows "HandleServerHello (genuine_only P [(g, nowR, r)]) f nowI i = HandleServerHello P f nowI i"
proof -
  obtain sh where sh: "i' = i\<lparr>hs_serverHello := Some sh\<rparr>" "checkServerHello P f nowI i = Ok sh"
    "server_hello_ok sh"
    by (rule HandleServerHello_OkD [OF assms(1,2)])
  have th: "handshakeTranscriptHash c sh = Ok (transcript_hash c sh)"
    using assms(4) sh(3) by (intro handshakeTranscriptHash_eq) (simp_all add: server_hello_ok_def)
  have signs: "signs_hello P (g, nowR, r) (serverSignatureMessage (transcript_hash c sh) (ch_EphPublic c)
    (sh_EphPublic sh) (b_X25519StaticPublic (hs_localBundle i)) (b_X25519StaticPublic (sh_IdentityBundle sh)))"
    using signs_own_hello [OF assms(6-10), of sh] assms(5,11) sh(1) by simp
  have "sh_IdentityBundle sh = hs_localBundle r"
    using assms(6,11) sh(1) by (auto elim!: HandleClientHello_OkD simp: answerClientHello_Ok_iff)
  then have "id_ed25519Public (hs_localIdentity r) = b_Ed25519Public (sh_IdentityBundle sh)"
    using assms(8) by (simp add: endpoint_ok_def)
  then have "checkServerHello (genuine_only P [(g, nowR, r)]) f nowI i = Ok sh"
    using sh(2) assms(3) th signs
    by (simp add: checkServerHello_Ok_iff Validate_Ok_iff genuine_only_def str_def)
  then show ?thesis unfolding assms(1) by (simp add: HandleServerHello_Ok_iff sh(1))
qed

text \<open>If the message a responder signed is the one the initiator verified, and the transcripts do
  not collide, both have the same hellos, up to the signature.\<close>

lemma same_message_same_view:
  assumes "client_hello_ok c" "client_hello_ok d" "server_hello_ok s" "server_hello_ok t"
    and m: "serverSignatureMessage (transcript_hash c s) ce se cs ss =
      serverSignatureMessage (transcript_hash d t) ce' se' cs' ss'"
    and cf: "collision_free c s d t"
  shows "c = d \<and> s\<lparr>sh_TranscriptSignature := x\<rparr> = t\<lparr>sh_TranscriptSignature := x\<rparr>"
proof -
  have "transcript_hash c s = transcript_hash d t"
    using m by (simp add: signature_messages_eq)
  then show ?thesis
    using cf by (intro transcript_inject [OF assms(1-4)]) (simp add: collision_free_def)
qed

text \<open>The finish message contributes its signature, which is checked, and its rekey limits, which
  are copied into the output.\<close>

lemma HandleClientFinish_limits:
  assumes "HandleClientFinish P f s = Ok out" "ClientFinishFromFrame f = Ok fin"
    and "ClientFinishFromFrame g = Ok (fin\<lparr>cf_MaxRekeyBytes := mb, cf_MaxRekeySeconds := ms, cf_RoleHint := rh\<rparr>)"
  shows "HandleClientFinish P g s = Ok (out\<lparr>ho_MaxRekeyBytes := mb, ho_MaxRekeySeconds := ms\<rparr>)"
  using assms by (auto simp: HandleClientFinish_def obind_eq_Ok Let_def split: option.splits)

lemma ClientFinishFromFrame_OkD:
  assumes "length (f_Payload f) < 2 ^ 62" "ClientFinishFromFrame f = Ok fin"
  shows "client_finish_ok fin"
proof -
  from assms obtain body where body: "length body \<le> max_u16"
    "decode_all decodeClientFinishBody (WireError ClientFinishMsg TrailingBody) body = Ok fin"
    by (auto simp: ClientFinishFromFrame_def unwrap_Ok_iff)
  from body(1) have "length body < 2 ^ 62" by (simp add: max_u16_def)
  from decode_all_reads [OF client_finish_reads this body(2)] show ?thesis by simp
qed

lemma HandleClientFinish_OkD:
  assumes "HandleClientFinish P f s = Ok out"
  shows "\<exists>ch sh th fin. hs_clientHello s = Some ch \<and> hs_serverHello s = Some sh \<and>
     ClientFinishFromFrame f = Ok fin \<and> handshakeTranscriptHash ch sh = Ok th \<and>
     p_ed_verify P (b_Ed25519Public (ch_IdentityBundle ch))
       (clientSignatureMessage th (ch_EphPublic ch) (sh_EphPublic sh)
         (b_X25519StaticPublic (ch_IdentityBundle ch)) (b_X25519StaticPublic (hs_localBundle s)))
       (cf_TranscriptSignature fin) \<and>
     ho_Role out = EndpointRoleResponder \<and> ho_PeerIdentity out = ch_IdentityBundle ch \<and>
     ho_NegotiatedCapabilityBit out = sh_AcceptedCapabilityBits sh \<and>
     ho_NegotiatedMaxPayload out = sh_AcceptedMaxPayload sh \<and>
     ho_SessionID out \<noteq> 0 \<and> length (ho_TxKey out) = 32 \<and> length (ho_RxKey out) = 32"
  using assms
  by (cases "hs_clientHello s"; cases "hs_serverHello s")
     (auto simp: HandleClientFinish_def obind_eq_Ok Let_def dest!: deriveTransportKeys_OkD)

lemma Finalize_OkD:
  assumes "Finalize P s = Ok out"
  shows "\<exists>ch sh. hs_clientHello s = Some ch \<and> hs_serverHello s = Some sh \<and>
     ho_Role out = EndpointRoleInitiator \<and> ho_PeerIdentity out = sh_IdentityBundle sh \<and>
     ho_NegotiatedCapabilityBit out = ch_CapabilityBits ch AND sh_AcceptedCapabilityBits sh \<and>
     ho_NegotiatedMaxPayload out = sh_AcceptedMaxPayload sh \<and>
     ho_SessionID out \<noteq> 0 \<and> length (ho_TxKey out) = 32 \<and> length (ho_RxKey out) = 32"
  using assms
  by (cases "hs_clientHello s"; cases "hs_serverHello s")
     (auto simp: Finalize_def obind_eq_Ok Let_def dest!: deriveTransportKeys_OkD)

section \<open>No panics\<close>

lemma handshakeTranscriptHash_no_panic: "handshakeTranscriptHash ch sh \<noteq> Panic"
  by (auto simp: handshakeTranscriptHash_def ClientHello_transcriptBytes_def obind_eq_Panic
      ServerHello_transcriptBytesWithoutSignature_def encoded_def ClientHello_encodeBody_def
      hello_fields_def Bundle_ToBytes_eq Let_def split: if_splits)

lemma wrap_body_no_panic: "wrap_body msg mt kind body \<noteq> Panic"
  by (simp add: wrap_body_def Let_def)

lemma encoders_no_panic:
  "ClientHello_ToFrame ch \<noteq> Panic" "ServerHello_ToFrame sh \<noteq> Panic" "ClientFinish_ToFrame fin \<noteq> Panic"
  by (auto simp: ClientHello_ToFrame_def ServerHello_ToFrame_def ClientFinish_ToFrame_def
      obind_eq_Panic encoded_def ClientHello_encodeBody_def ServerHello_encodeBody_def sbind_def
      hello_fields_def Bundle_ToBytes_eq Let_def wrap_body_no_panic split: if_splits)

lemma x25519Shared_no_panic: "x25519Shared P a b \<noteq> Panic"
  by (simp add: x25519Shared_def split: option.splits)

lemma SignEd25519_no_panic: "length (id_ed25519Private k) = 64 \<Longrightarrow> SignEd25519 P k m \<noteq> Panic"
  by (simp add: SignEd25519_def)

lemmas no_panics = handshakeTranscriptHash_no_panic encoders_no_panic x25519Shared_no_panic
  SignEd25519_no_panic deriveTransportKeys_no_panic Validate_no_panic

text \<open>With a 64-byte signing key no frame makes a handler panic, in whatever state it arrives.\<close>

lemma handlers_no_panic:
  assumes "length (f_Payload f) < 2 ^ 62" "length (id_ed25519Private (hs_localIdentity s)) = 64"
  shows "fst (HandleServerHello P f now s) \<noteq> Panic" "fst (HandleClientHello P f now s) \<noteq> Panic"
    "HandleClientFinish P f s \<noteq> Panic" "fst (BuildClientHello s) \<noteq> Panic"
    "BuildClientFinish P s \<noteq> Panic" "Finalize P s \<noteq> Panic"
proof -
  note parsers = handshake_parsers_no_panic [OF assms(1)]
  have "checkServerHello P f now s \<noteq> Panic"
    by (auto simp: checkServerHello_def obind_eq_Panic Let_def no_panics parsers assms(2) verify_as_eq
        split: option.splits if_splits)
  then show "fst (HandleServerHello P f now s) \<noteq> Panic"
    by (auto simp: HandleServerHello_def split: outcome.splits)
  have "answerClientHello P f now s \<noteq> Panic"
    by (auto simp: answerClientHello_def obind_eq_Panic Let_def no_panics parsers assms(2) split: if_splits)
  then show "fst (HandleClientHello P f now s) \<noteq> Panic"
    by (auto simp: HandleClientHello_def no_panics split: outcome.splits prod.splits)
  show "HandleClientFinish P f s \<noteq> Panic"
    by (auto simp: HandleClientFinish_def obind_eq_Panic Let_def no_panics parsers assms(2) verify_as_eq
        split: option.splits if_splits)
  show "fst (BuildClientHello s) \<noteq> Panic" by (simp add: BuildClientHello_def Let_def no_panics)
  show "BuildClientFinish P s \<noteq> Panic"
    by (auto simp: BuildClientFinish_def obind_eq_Panic Let_def no_panics parsers assms(2) split: option.splits)
  show "Finalize P s \<noteq> Panic"
    by (auto simp: Finalize_def obind_eq_Panic Let_def no_panics split: option.splits)
qed

text \<open>Messages out of order are refused, and a refused server hello leaves no trace.\<close>

lemma out_of_order:
  "hs_clientHello s = None \<Longrightarrow> checkServerHello P f now s \<noteq> Ok sh"
  "hs_serverHello s = None \<Longrightarrow> \<not> is_Ok (BuildClientFinish P s)"
  "hs_serverHello s = None \<Longrightarrow> \<not> is_Ok (Finalize P s)"
  "hs_serverHello s = None \<Longrightarrow> \<not> is_Ok (HandleClientFinish P g s)"
  by (auto simp: checkServerHello_Ok_iff BuildClientFinish_def Finalize_def HandleClientFinish_def
      is_Ok_iff obind_eq_Ok split: option.splits)

lemma HandleServerHello_refused:
  "HandleServerHello P f now s = (r, s') \<Longrightarrow> r \<noteq> Ok () \<Longrightarrow> s' = s"
  by (auto simp: HandleServerHello_def split: outcome.splits)

section \<open>Two concrete parties\<close>

fun the_Ok :: "'a outcome \<Rightarrow> 'a" where
  "the_Ok (Ok x) = x"

definition sample_keys :: "byte \<Rightarrow> identity_keypair" where
  "sample_keys n = the_Ok (IdentityKeypairFromSeeds sample (replicate 32 n) (replicate 32 (n + 16)))"

definition sample_bundle :: "byte \<Rightarrow> identity_bundle" where
  "sample_bundle n = the_Ok (SignedIdentityBundle sample [n] 0 1000 (sample_keys n))"

text \<open>The party with number \<open>n\<close>, who trusts the one with number \<open>m\<close>.\<close>

definition sample_party :: "byte \<Rightarrow> byte \<Rightarrow> endpoint" where
  "sample_party n m = the_Ok (NewSecureInitiator sample (sample_keys n) (sample_bundle n)
     (Pin (id_ed25519Public (sample_keys m)) StrictTrustStore) DefaultHandshakePolicy
     (Some (replicate 32 (n + 32))))"

lemma sample_keys_Ok:
  "IdentityKeypairFromSeeds sample (replicate 32 n) (replicate 32 (n + 16)) = Ok (sample_keys n)"
  using FromSeeds_total [OF sample_dh, of "replicate 32 n" "replicate 32 (n + 16)"]
  by (auto simp: sample_keys_def)

lemma sample_keys_ok: "identity_ok sample (sample_keys n)"
  unfolding identity_ok_def
  by (intro exI [of _ "replicate 32 n"] exI [of _ "replicate 32 (n + 16)"]) (simp add: sample_keys_Ok)

lemma sample_bundle_Ok:
  "SignedIdentityBundle sample [n] 0 1000 (sample_keys n) = Ok (sample_bundle n)"
  "Validate sample (sample_bundle n) t now = Ok () \<longleftrightarrow>
     now \<le> 1000 \<and> IsTrusted t (id_ed25519Public (sample_keys n))"
proof -
  obtain b where b: "SignedIdentityBundle sample [n] 0 1000 (sample_keys n) = Ok b"
    "\<And>t now. Validate sample b t now = Ok () \<longleftrightarrow>
       0 \<le> now \<and> now \<le> 1000 \<and> IsTrusted t (id_ed25519Public (sample_keys n))"
    by (rule SignedIdentityBundle_Ok [OF sample_signature sample_dh sample_keys_ok [of n], where keyID = "[n]" and nb = 0 and na = 1000])
       (simp add: max_u16_def, blast)
  then show "SignedIdentityBundle sample [n] 0 1000 (sample_keys n) = Ok (sample_bundle n)"
    "Validate sample (sample_bundle n) t now = Ok () \<longleftrightarrow>
      now \<le> 1000 \<and> IsTrusted t (id_ed25519Public (sample_keys n))"
    by (simp_all add: sample_bundle_def)
qed

lemma sample_party_Ok:
  shows "NewSecureInitiator sample (sample_keys n) (sample_bundle n)
      (Pin (id_ed25519Public (sample_keys m)) StrictTrustStore) DefaultHandshakePolicy
      (Some (replicate 32 (n + 32))) = Ok (sample_party n m)"
    and "NewSecureResponder sample (sample_keys n) (sample_bundle n)
      (Pin (id_ed25519Public (sample_keys m)) StrictTrustStore) DefaultHandshakePolicy
      (Some (replicate 32 (n + 32))) = Ok (sample_party n m)"
    and "endpoint_ok sample (sample_party n m)" "hs_localBundle (sample_party n m) = sample_bundle n"
    and "hs_trustStore (sample_party n m) = Pin (id_ed25519Public (sample_keys m)) StrictTrustStore"
    and "hs_policy (sample_party n m) = DefaultHandshakePolicy" "hs_serverHello (sample_party n m) = None"
proof -
  obtain s where s: "NewSecureInitiator sample (sample_keys n) (sample_bundle n)
      (Pin (id_ed25519Public (sample_keys m)) StrictTrustStore) DefaultHandshakePolicy
      (Some (replicate 32 (n + 32))) = Ok s"
    "NewSecureResponder sample (sample_keys n) (sample_bundle n)
      (Pin (id_ed25519Public (sample_keys m)) StrictTrustStore) DefaultHandshakePolicy
      (Some (replicate 32 (n + 32))) = Ok s"
    "endpoint_ok sample s" "hs_localBundle s = sample_bundle n"
    "hs_trustStore s = Pin (id_ed25519Public (sample_keys m)) StrictTrustStore"
    "hs_policy s = DefaultHandshakePolicy" "hs_serverHello s = None"
    by (rule NewSecure_ok [OF sample_signature sample_dh sample_keys_ok _ sample_bundle_Ok(1),
          where rnd = "replicate 32 (n + 32)" and trust = "Pin (id_ed25519Public (sample_keys m)) StrictTrustStore"
          and pol = DefaultHandshakePolicy])
       (auto simp: max_key_id_def)
  then have "sample_party n m = s" by (simp add: sample_party_def)
  with s show
    "NewSecureInitiator sample (sample_keys n) (sample_bundle n)
      (Pin (id_ed25519Public (sample_keys m)) StrictTrustStore) DefaultHandshakePolicy
      (Some (replicate 32 (n + 32))) = Ok (sample_party n m)"
    "NewSecureResponder sample (sample_keys n) (sample_bundle n)
      (Pin (id_ed25519Public (sample_keys m)) StrictTrustStore) DefaultHandshakePolicy
      (Some (replicate 32 (n + 32))) = Ok (sample_party n m)"
    "endpoint_ok sample (sample_party n m)" "hs_localBundle (sample_party n m) = sample_bundle n"
    "hs_trustStore (sample_party n m) = Pin (id_ed25519Public (sample_keys m)) StrictTrustStore"
    "hs_policy (sample_party n m) = DefaultHandshakePolicy" "hs_serverHello (sample_party n m) = None"
    by simp_all
qed

lemma sample_party_key: "length (id_ed25519Private (hs_localIdentity (sample_party n m))) = 64"
  using sample_party_Ok(3) [of n m] identity_okD(1) [OF sample_signature sample_dh]
  by (simp add: endpoint_ok_def)

lemma sample_compatible:
  assumes "nowI \<le> 1000" "nowR \<le> 1000"
  shows "compatible sample (sample_party n m) (sample_party m n) nowI nowR"
  using assms
  by (simp add: compatible_def sample_party_Ok sample_bundle_Ok(2) IsTrusted_Pin DefaultHandshakePolicy_def)

text \<open>The states the two parties go through.\<close>

lemma sample_exchange:
  obtains f g f3 i r ro sh where
    "BuildClientHello (sample_party 1 2) = (Ok f, i)" "hs_clientHello i = Some (hello_of (sample_party 1 2))"
    "HandleClientHello sample f 100 (sample_party 2 1) = (Ok g, r)" "length (f_Payload g) < 2 ^ 62"
    "length (f_Payload f) < 2 ^ 62"
    "hs_clientHello r = Some (hello_of (sample_party 1 2))" "hs_serverHello r = Some sh"
    "HandleServerHello sample g 100 i = (Ok (), i\<lparr>hs_serverHello := Some sh\<rparr>)"
    "HandleClientFinish sample f3 r = Ok ro" "length (f_Payload f3) < 2 ^ 62"
proof -
  let ?i = "sample_party 1 2" and ?r = "sample_party 2 1"
  have ok: "compatible sample ?i ?r 100 100" by (rule sample_compatible) simp_all
  note ends = sample_party_Ok(3)
  obtain f where 1: "BuildClientHello ?i = (Ok f, ?i\<lparr>hs_clientHello := Some (hello_of ?i)\<rparr>)"
    "ClientHelloFromFrame f = Ok (hello_of ?i)" "length (f_Payload f) \<le> 65539"
    by (rule BuildClientHello_step [OF ends])
  obtain g sig where 2: "HandleClientHello sample f 100 ?r =
      (Ok g, ?r\<lparr>hs_clientHello := Some (hello_of ?i), hs_serverHello := Some (reply_of ?r (hello_of ?i) sig)\<rparr>)"
    "ServerHelloFromFrame g = Ok (reply_of ?r (hello_of ?i) sig)" "server_hello_ok (reply_of ?r (hello_of ?i) sig)"
    "length (f_Payload g) \<le> 65539"
    "p_ed_verify sample (b_Ed25519Public (hs_localBundle ?r))
      (serverSignatureMessage (transcript_hash (hello_of ?i) (reply_of ?r (hello_of ?i) sig))
        (ch_EphPublic (hello_of ?i)) (hs_ephPublic ?r)
        (b_X25519StaticPublic (ch_IdentityBundle (hello_of ?i))) (b_X25519StaticPublic (hs_localBundle ?r))) sig"
    by (rule HandleClientHello_step [OF sample_signature sample_dh ends [of 2 1] 1(2), where now = 100])
       (use hello_of_ok [OF ends] ok in \<open>auto simp: compatible_def\<close>)
  have 3: "HandleServerHello sample g 100 (?i\<lparr>hs_clientHello := Some (hello_of ?i)\<rparr>) =
    (Ok (), ?i\<lparr>hs_clientHello := Some (hello_of ?i), hs_serverHello := Some (reply_of ?r (hello_of ?i) sig)\<rparr>)"
    by (rule HandleServerHello_step [OF ok 2(3,2)]) (use 2(5) in simp)
  obtain f3 ro where 4: "HandleClientFinish sample f3 (?r\<lparr>hs_clientHello := Some (hello_of ?i),
      hs_serverHello := Some (reply_of ?r (hello_of ?i) sig)\<rparr>) = Ok ro" "length (f_Payload f3) \<le> 65539"
    by (rule finish_step [OF sample_correct ok 2(3)])
  show ?thesis
    by (rule that [OF 1(1) _ 2(1) _ _ _ _ _ 4(1)]) (use 1(3) 2(4) 3 4(2) in simp_all)
qed

section \<open>Properties\<close>

text \<open>C1: two parties with identities from seeds and bundles signed for them, who pinned each other's
  key, meet inside both validity periods and have a capability and a nonzero payload limit in
  common, always complete the handshake. They then have the same nonzero session id, keys crossed,
  each other's bundle as the peer's identity, the intersection of their capabilities, the smaller
  payload limit and the initiator's rekey limits.\<close>

theorem handshake_agreement:
  assumes "primitives_correct P"
    and "length seedI = 32" "length xI = 32" "IdentityKeypairFromSeeds P seedI xI = Ok kI"
    and "length seedR = 32" "length xR = 32" "IdentityKeypairFromSeeds P seedR xR = Ok kR"
    and "length idI \<le> 65281" "SignedIdentityBundle P idI nbI naI kI = Ok bI"
    and "length idR \<le> 65281" "SignedIdentityBundle P idR nbR naR kR = Ok bR"
    and "length rI = 32" "NewSecureInitiator P kI bI tI polI (Some rI) = Ok i"
    and "length rR = 32" "NewSecureResponder P kR bR tR polR (Some rR) = Ok r"
    and "IsTrusted tI (id_ed25519Public kR)" "IsTrusted tR (id_ed25519Public kI)"
    and "nbI \<le> nowR" "nowR \<le> naI" "nbR \<le> nowI" "nowI \<le> naR"
    and "pol_CapabilityBits polI AND pol_CapabilityBits polR \<noteq> 0"
    and "pol_MaxPayload polI \<noteq> 0" "pol_MaxPayload polR \<noteq> 0"
  shows "\<exists>oi ro. run_handshake P i r nowI nowR = Ok (oi, ro) \<and>
    ho_SessionID oi = ho_SessionID ro \<and> ho_SessionID oi \<noteq> 0 \<and>
    ho_TxKey oi = ho_RxKey ro \<and> ho_RxKey oi = ho_TxKey ro \<and>
    length (ho_TxKey oi) = 32 \<and> length (ho_RxKey oi) = 32 \<and>
    ho_PeerIdentity oi = bR \<and> ho_PeerIdentity ro = bI \<and>
    ho_NegotiatedCapabilityBit oi = pol_CapabilityBits polI AND pol_CapabilityBits polR \<and>
    ho_NegotiatedCapabilityBit ro = ho_NegotiatedCapabilityBit oi \<and>
    ho_NegotiatedMaxPayload oi = min (pol_MaxPayload polI) (pol_MaxPayload polR) \<and>
    ho_NegotiatedMaxPayload ro = ho_NegotiatedMaxPayload oi \<and>
    ho_MaxRekeyBytes ro = pol_MaxRekeyBytes polI \<and> ho_MaxRekeySeconds ro = pol_MaxRekeySeconds polI"
proof -
  have laws: "signature_correct P" "dh_correct P" using assms(1) by (simp_all add: primitives_correct_def)
  have k: "identity_ok P kI" "identity_ok P kR" using assms(2-7) by (auto simp: identity_ok_def)
  have kid: "length idI \<le> max_key_id" "length idR \<le> max_key_id" "length idI \<le> max_u16" "length idR \<le> max_u16"
    using assms(8,10) by (simp_all add: max_key_id_def max_u16_def)
  obtain i' where i': "NewSecureInitiator P kI bI tI polI (Some rI) = Ok i'" "endpoint_ok P i'"
    "hs_localBundle i' = bI" "hs_trustStore i' = tI" "hs_policy i' = polI"
    by (rule NewSecure_ok [OF laws k(1) kid(1) assms(9,12)])
  obtain r' where r': "NewSecureResponder P kR bR tR polR (Some rR) = Ok r'" "endpoint_ok P r'"
    "hs_localBundle r' = bR" "hs_trustStore r' = tR" "hs_policy r' = polR"
    by (rule NewSecure_ok [OF laws k(2) kid(2) assms(11,14)])
  have valid: "Validate P b t now = Ok () \<longleftrightarrow> nb \<le> now \<and> now \<le> na \<and> IsTrusted t (id_ed25519Public kk)"
    if "SignedIdentityBundle P keyID nb na kk = Ok b" "identity_ok P kk" "length keyID \<le> max_u16"
    for keyID nb na kk b t now
  proof -
    from laws that(2,3) obtain b' where "SignedIdentityBundle P keyID nb na kk = Ok b'"
      "\<And>t now. Validate P b' t now = Ok () \<longleftrightarrow> nb \<le> now \<and> now \<le> na \<and> IsTrusted t (id_ed25519Public kk)"
      by (rule SignedIdentityBundle_Ok) blast
    with that(1) show ?thesis by simp
  qed
  have "compatible P i r nowI nowR"
    using i' r' assms valid [OF assms(9) k(1) kid(3)] valid [OF assms(11) k(2) kid(4)]
    by (simp add: compatible_def min_def)
  from run_handshake_matches [OF assms(1) this] show ?thesis
    using i' r' assms(13,15) by (auto simp: outputs_match_def)
qed

theorem handshake_agreement_witness:
  "\<exists>oi ro. run_handshake sample (sample_party 1 2) (sample_party 2 1) 100 200 = Ok (oi, ro) \<and>
     ho_SessionID oi = ho_SessionID ro \<and> ho_TxKey oi = ho_RxKey ro \<and> ho_NegotiatedMaxPayload ro = 4194304"
  using handshake_agreement [OF sample_correct _ _ sample_keys_Ok [of 1] _ _ sample_keys_Ok [of 2]
      _ sample_bundle_Ok(1) [of 1] _ sample_bundle_Ok(1) [of 2] _ sample_party_Ok(1) [of 1 2]
      _ sample_party_Ok(2) [of 2 1], of 200 100]
  by (auto simp: IsTrusted_Pin DefaultHandshakePolicy_def)

text \<open>C7: an initiator that accepts a server hello has checked that the server's key is pinned, that
  its bundle is in force now and properly signed, that the accepted capabilities meet its own, that
  the payload limit is positive and within its policy, and that the server's key signed this very
  transcript; and it has stored exactly that hello.\<close>

theorem server_hello_accepted:
  assumes "HandleServerHello P f now s = (Ok (), s')" "length (f_Payload f) < 2 ^ 62"
    "hs_clientHello s = Some ch" "client_hello_ok ch"
  shows "\<exists>sh. s' = s\<lparr>hs_serverHello := Some sh\<rparr> \<and> ServerHelloFromFrame f = Ok sh \<and>
    IsTrusted (hs_trustStore s) (b_Ed25519Public (sh_IdentityBundle sh)) \<and>
    b_NotBeforeUnix (sh_IdentityBundle sh) \<le> now \<and> now \<le> b_NotAfterUnix (sh_IdentityBundle sh) \<and>
    p_ed_verify P (b_Ed25519Public (sh_IdentityBundle sh))
      (str ''SHADOWLARK_ID_BUNDLE'' @ bundle_fields (sh_IdentityBundle sh)) (b_Signature (sh_IdentityBundle sh)) \<and>
    ch_CapabilityBits ch AND sh_AcceptedCapabilityBits sh \<noteq> 0 \<and>
    0 < sh_AcceptedMaxPayload sh \<and> sh_AcceptedMaxPayload sh \<le> pol_MaxPayload (hs_policy s) \<and>
    p_ed_verify P (b_Ed25519Public (sh_IdentityBundle sh))
      (serverSignatureMessage (transcript_hash ch sh) (ch_EphPublic ch) (sh_EphPublic sh)
        (b_X25519StaticPublic (hs_localBundle s)) (b_X25519StaticPublic (sh_IdentityBundle sh)))
      (sh_TranscriptSignature sh)"
proof -
  obtain sh where sh: "s' = s\<lparr>hs_serverHello := Some sh\<rparr>" "checkServerHello P f now s = Ok sh"
    "server_hello_ok sh"
    by (rule HandleServerHello_OkD [OF assms(1,2)])
  have "handshakeTranscriptHash ch sh = Ok (transcript_hash ch sh)"
    using sh(3) assms(4) by (intro handshakeTranscriptHash_eq) (simp_all add: server_hello_ok_def)
  with sh(1,2) assms(3) show ?thesis
    by (auto simp: checkServerHello_Ok_iff Validate_Ok_iff word_neq_0_conv)
qed

theorem server_hello_accepted_witness:
  "\<exists>g i i' sh. HandleServerHello sample g 100 i = (Ok (), i') \<and> hs_serverHello i' = Some sh \<and>
     0 < sh_AcceptedMaxPayload sh"
proof -
  obtain f g f3 i r ro sh where x:
    "BuildClientHello (sample_party 1 2) = (Ok f, i)" "hs_clientHello i = Some (hello_of (sample_party 1 2))"
    "HandleClientHello sample f 100 (sample_party 2 1) = (Ok g, r)" "length (f_Payload g) < 2 ^ 62"
    "HandleServerHello sample g 100 i = (Ok (), i\<lparr>hs_serverHello := Some sh\<rparr>)"
    by (rule sample_exchange)
  have "client_hello_ok (hello_of (sample_party 1 2))" using hello_of_ok [OF sample_party_Ok(3)] by blast
  from server_hello_accepted [OF x(5,4,2) this] x(5) show ?thesis by fastforce
qed

text \<open>C6: matching views. When an initiator accepts a server hello and no signature it verified was
  forged (it accepts also when only signatures made by the given responder calls count), and SHA-256
  does not collide on the transcripts, then one of those calls answered with success, its key is one
  the initiator trusts, and it left the responder with the very client hello the initiator sent and
  the server hello the initiator stored, the signature apart; so nobody changed a capability, a
  limit, a key or a bundle on the way.\<close>

theorem matching_views:
  assumes "HandleServerHello P f nowI i = (Ok (), i')" "length (f_Payload f) < 2 ^ 62"
    and "hs_clientHello i = Some c" "client_hello_ok c" "hs_serverHello i' = Some si"
    and "HandleServerHello (genuine_only P runs) f nowI i = HandleServerHello P f nowI i"
    and "\<And>g now r. (g, now, r) \<in> set runs \<Longrightarrow> length (f_Payload g) < 2 ^ 62 \<and> endpoint_ok P r"
    and "\<And>run cr sr. run \<in> set runs \<Longrightarrow> hellos_of P run = Some (cr, sr) \<Longrightarrow> collision_free c si cr sr"
  shows "\<exists>g now r h r'. (g, now, r) \<in> set runs \<and> HandleClientHello P g now r = (Ok h, r') \<and>
    IsTrusted (hs_trustStore i) (id_ed25519Public (hs_localIdentity r)) \<and>
    hs_clientHello r' = hs_clientHello i \<and>
    map_option (\<lambda>s. s\<lparr>sh_TranscriptSignature := x\<rparr>) (hs_serverHello r') =
      Some (si\<lparr>sh_TranscriptSignature := x\<rparr>)"
proof -
  let ?G = "genuine_only P runs"
  have acc: "HandleServerHello ?G f nowI i = (Ok (), i')" using assms(1,6) by simp
  obtain sh where sh: "i' = i\<lparr>hs_serverHello := Some sh\<rparr>" "checkServerHello ?G f nowI i = Ok sh"
    "server_hello_ok sh"
    by (rule HandleServerHello_OkD [OF acc assms(2)])
  with assms(5) have si: "sh = si" by simp
  have "handshakeTranscriptHash c si = Ok (transcript_hash c si)"
    using assms(4) sh(3) si by (intro handshakeTranscriptHash_eq) (simp_all add: server_hello_ok_def)
  with sh(2) si assms(3) obtain m where m:
    "Validate ?G (sh_IdentityBundle si) (hs_trustStore i) nowI = Ok ()"
    "m = serverSignatureMessage (transcript_hash c si) (ch_EphPublic c) (sh_EphPublic si)
       (b_X25519StaticPublic (hs_localBundle i)) (b_X25519StaticPublic (sh_IdentityBundle si))"
    "p_ed_verify ?G (b_Ed25519Public (sh_IdentityBundle si)) m (sh_TranscriptSignature si)"
    by (auto simp: checkServerHello_Ok_iff)
  have "take 27 m = str ''SHADOWLARK_SERVER_HELLO_SIG''"
    unfolding m(2) signature_messages_eq by (simp add: str_def)
  with m(3) obtain g now r where run: "(g, now, r) \<in> set runs"
    "id_ed25519Public (hs_localIdentity r) = b_Ed25519Public (sh_IdentityBundle si)"
    "signs_hello P (g, now, r) m"
    by (auto simp: genuine_only_def list_ex_iff)
  have good: "length (f_Payload g) < 2 ^ 62" "endpoint_ok P r" using assms(7) [OF run(1)] by simp_all
  obtain h ch sig where ans: "client_hello_ok ch" "HandleClientHello P g now r =
      (Ok h, r\<lparr>hs_clientHello := Some ch, hs_serverHello := Some (reply_of r ch sig)\<rparr>)"
    "server_hello_ok (reply_of r ch sig)"
    "m = serverSignatureMessage (transcript_hash ch (reply_of r ch sig)) (ch_EphPublic ch) (hs_ephPublic r)
       (b_X25519StaticPublic (ch_IdentityBundle ch)) (b_X25519StaticPublic (hs_localBundle r))"
    by (rule answer_signs [OF run(3) good]) blast
  have "hellos_of P (g, now, r) = Some (ch, reply_of r ch sig)" by (simp add: hellos_of_def ans(2))
  then have cf: "collision_free c si ch (reply_of r ch sig)" by (rule assms(8) [OF run(1)])
  have "c = ch \<and> si\<lparr>sh_TranscriptSignature := x\<rparr> = (reply_of r ch sig)\<lparr>sh_TranscriptSignature := x\<rparr>"
    using same_message_same_view [OF assms(4) ans(1) _ ans(3) trans [OF m(2) [symmetric] ans(4)] cf]
      sh(3) si by simp
  moreover have "IsTrusted (hs_trustStore i) (id_ed25519Public (hs_localIdentity r))"
    using m(1) run(2) by (simp add: Validate_Ok_iff)
  ultimately show ?thesis using run(1) ans(2) assms(3)
    by (intro exI [of _ g] exI [of _ now] exI [of _ r] exI [of _ h] exI conjI) (assumption | simp)+
qed

theorem matching_views_witness:
  "\<exists>f g i i' r. BuildClientHello (sample_party 1 2) = (Ok f, i) \<and>
     HandleClientHello sample f 100 (sample_party 2 1) = (Ok g, r) \<and>
     HandleServerHello sample g 100 i = (Ok (), i') \<and>
     HandleServerHello (genuine_only sample [(f, 100, sample_party 2 1)]) g 100 i = (Ok (), i') \<and>
     hs_clientHello r = hs_clientHello i"
proof -
  let ?c = "hello_of (sample_party 1 2)"
  obtain f g f3 i r ro sh where x:
    "BuildClientHello (sample_party 1 2) = (Ok f, i)" "hs_clientHello i = Some ?c"
    "HandleClientHello sample f 100 (sample_party 2 1) = (Ok g, r)" "length (f_Payload g) < 2 ^ 62"
    "length (f_Payload f) < 2 ^ 62" "hs_clientHello r = Some ?c" "hs_serverHello r = Some sh"
    "HandleServerHello sample g 100 i = (Ok (), i\<lparr>hs_serverHello := Some sh\<rparr>)"
    by (rule sample_exchange)
  have c: "client_hello_ok ?c" using hello_of_ok [OF sample_party_Ok(3)] by blast
  let ?runs = "[(f, 100, sample_party 2 1)]"
  have genuine: "HandleServerHello (genuine_only sample ?runs) g 100 i = HandleServerHello sample g 100 i"
    by (rule honest_is_genuine [OF x(8,4,2) c _ x(3,5) sample_party_Ok(3) sample_party_key x(6)])
       (use x(1,2,7) in \<open>auto simp: BuildClientHello_def Let_def hello_of_def\<close>)
  from matching_views [OF x(8,4,2) c _ genuine, of sh] x(3,5-7) sample_party_Ok(3)
  have "hs_clientHello r = hs_clientHello i"
    by (auto simp: hellos_of_def collision_free_def)
  moreover have "HandleServerHello (genuine_only sample ?runs) g 100 i = (Ok (), i\<lparr>hs_serverHello := Some sh\<rparr>)"
    using genuine x(8) by simp
  ultimately show ?thesis using x(1,3,8) by blast
qed

text \<open>C8: a responder that finishes has a client hello and a server hello from before, and the
  client's pinned key has signed both of them for the finish, a message that no server signs; its
  output names that client and the values it offered, with a nonzero session id and 32-byte keys.\<close>

theorem client_finish_accepted:
  assumes "HandleClientFinish P f s = Ok out"
  shows "\<exists>ch sh th fin. hs_clientHello s = Some ch \<and> hs_serverHello s = Some sh \<and>
    ClientFinishFromFrame f = Ok fin \<and> handshakeTranscriptHash ch sh = Ok th \<and>
    (let m = clientSignatureMessage th (ch_EphPublic ch) (sh_EphPublic sh)
           (b_X25519StaticPublic (ch_IdentityBundle ch)) (b_X25519StaticPublic (hs_localBundle s)) in
     p_ed_verify P (b_Ed25519Public (ch_IdentityBundle ch)) m (cf_TranscriptSignature fin) \<and>
     (\<forall>h ce se cs ss. serverSignatureMessage h ce se cs ss \<noteq> m)) \<and>
    ho_Role out = EndpointRoleResponder \<and> ho_PeerIdentity out = ch_IdentityBundle ch \<and>
    ho_NegotiatedCapabilityBit out = sh_AcceptedCapabilityBits sh \<and>
    ho_NegotiatedMaxPayload out = sh_AcceptedMaxPayload sh \<and>
    ho_SessionID out \<noteq> 0 \<and> length (ho_TxKey out) = 32 \<and> length (ho_RxKey out) = 32"
  using HandleClientFinish_OkD [OF assms] labels_differ(1) unfolding Let_def by blast

theorem client_finish_accepted_witness:
  "\<exists>f s out. HandleClientFinish sample f s = Ok out \<and> ho_SessionID out \<noteq> 0"
proof -
  obtain f3 r ro where "HandleClientFinish sample f3 r = Ok ro" by (rule sample_exchange)
  with client_finish_accepted [OF this] show ?thesis by blast
qed

text \<open>C35: the client's signature does not cover the rekey limits of its finish message: whoever can
  change the message on the way makes the responder accept any limits at all, with the output
  otherwise the same.\<close>

theorem rekey_limits_not_signed:
  assumes "HandleClientFinish P f s = Ok out" "length (f_Payload f) < 2 ^ 62"
  shows "\<exists>g. HandleClientFinish P g s = Ok (out\<lparr>ho_MaxRekeyBytes := mb, ho_MaxRekeySeconds := ms\<rparr>)"
proof -
  from HandleClientFinish_OkD [OF assms(1)] obtain fin where fin: "ClientFinishFromFrame f = Ok fin" by blast
  let ?fin = "fin\<lparr>cf_MaxRekeyBytes := mb, cf_MaxRekeySeconds := ms, cf_RoleHint := cf_RoleHint fin\<rparr>"
  have "client_finish_ok ?fin" using ClientFinishFromFrame_OkD [OF assms(2) fin] by (simp add: client_finish_ok_def)
  then obtain g where "ClientFinishFromFrame g = Ok ?fin" by (rule ClientFinish_ToFrame_Ok)
  from HandleClientFinish_limits [OF assms(1) fin this] show ?thesis by blast
qed

theorem rekey_limits_not_signed_witness:
  "\<exists>g s out. HandleClientFinish sample g s = Ok out \<and> ho_MaxRekeyBytes out = 2 ^ 60"
proof -
  obtain f3 r ro where "HandleClientFinish sample f3 r = Ok ro" "length (f_Payload f3) < 2 ^ 62"
    by (rule sample_exchange)
  from rekey_limits_not_signed [OF this, where mb = "2 ^ 60" and ms = 1] obtain g where
    "HandleClientFinish sample g r = Ok (ro\<lparr>ho_MaxRekeyBytes := 2 ^ 60, ho_MaxRekeySeconds := 1\<rparr>)" by blast
  then show ?thesis by (intro exI [of _ g] exI [of _ r] exI) auto
qed

text \<open>C28: the messages are taken in order only. Without a client hello an initiator accepts no server
  hello, without a server hello neither end finishes, and a server hello that is refused leaves the
  initiator as it was.\<close>

theorem handshake_order:
  "(hs_clientHello s = None \<longrightarrow> \<not> is_Ok (fst (HandleServerHello P f now s))) \<and>
   (hs_serverHello s = None \<longrightarrow> \<not> is_Ok (BuildClientFinish P s) \<and> \<not> is_Ok (Finalize P s) \<and>
      \<not> is_Ok (HandleClientFinish P f s)) \<and>
   (\<not> is_Ok (fst (HandleServerHello P f now s)) \<longrightarrow> snd (HandleServerHello P f now s) = s)"
proof -
  have "\<not> is_Ok (fst (HandleServerHello P f now s))" if "hs_clientHello s = None"
  proof -
    have "\<forall>sh. checkServerHello P f now s \<noteq> Ok sh" using out_of_order(1) [OF that] by blast
    then show ?thesis by (cases "checkServerHello P f now s") (simp_all add: HandleServerHello_def)
  qed
  moreover have "snd (HandleServerHello P f now s) = s" if "\<not> is_Ok (fst (HandleServerHello P f now s))"
    using that by (cases "checkServerHello P f now s") (simp_all add: HandleServerHello_def)
  ultimately show ?thesis using out_of_order(2-4) [of s] by blast
qed

theorem handshake_order_witness:
  "\<not> is_Ok (Finalize sample (sample_party 1 2)) \<and>
   \<not> is_Ok (HandleClientFinish sample (frame_New 3 0 []) (sample_party 2 1))"
  using handshake_order [of "sample_party 1 2" sample "frame_New 3 0 []" 0]
    handshake_order [of "sample_party 2 1" sample "frame_New 3 0 []" 0]
  by (simp add: sample_party_Ok)

text \<open>C27: no frame makes a handshake handler panic, whatever it contains and in whatever state it
  arrives, as long as the party's signing key has its 64 bytes.\<close>

theorem handshake_never_panics:
  assumes "length (f_Payload f) < 2 ^ 62" "length (id_ed25519Private (hs_localIdentity s)) = 64"
  shows "fst (HandleServerHello P f now s) \<noteq> Panic \<and> fst (HandleClientHello P f now s) \<noteq> Panic \<and>
    HandleClientFinish P f s \<noteq> Panic \<and> fst (BuildClientHello s) \<noteq> Panic \<and>
    BuildClientFinish P s \<noteq> Panic \<and> Finalize P s \<noteq> Panic"
  using handlers_no_panic [OF assms] by blast

theorem handshake_never_panics_witness:
  "fst (HandleClientHello sample (frame_New 1 0 [1, 0, 0, 9]) 0 (sample_party 1 2)) \<noteq> Panic"
proof -
  have "identity_ok sample (hs_localIdentity (sample_party 1 2))"
    using sample_party_Ok(3) [of 1 2] by (simp add: endpoint_ok_def)
  from identity_okD(1) [OF sample_signature sample_dh this]
  show ?thesis
    using handshake_never_panics [of "frame_New 1 0 [1, 0, 0, 9]" "sample_party 1 2" sample 0]
    by (simp add: frame_New_def)
qed

end
