(* ===== verification/Replay_Window.thy ===== *)
theory Replay_Window
  imports Prelude
begin

unbundle bit_operations_syntax

text \<open>
  The UDP replay window of \<open>transport/session/session.go\<close>: a 1024-bit bitmap in sixteen
  64-bit words, bit \<open>i\<close> standing for the sequence number \<open>i\<close> below the highest one seen.
  Distances are 64-bit subtractions converted to \<open>int\<close>, so a distance of \<open>2 ^ 63\<close> or more is
  negative and indexes out of range or shifts by a negative count: both panic.

  \<open>window_rel\<close> relates a window to the set of sequence numbers it has marked; against it
  the operations are shown to refine "reject what is in the set or too old, insert the
  rest", and the locale \<open>replay_filter\<close> derives from that contract that no run accepts a
  number twice.
\<close>

definition udpReplayWindowSize :: int where
  "udpReplayWindowSize = 1024"

definition udpReplayWindowWords :: nat where
  "udpReplayWindowWords = 16"

record replay_window =
  w_initialized :: bool
  w_highestSeen :: u64
  w_bits :: "u64 list"

definition empty_window :: replay_window where
  "empty_window = \<lparr>w_initialized = False, w_highestSeen = 0,
     w_bits = replicate udpReplayWindowWords 0\<rparr>"

text \<open>Go's \<open>int(v)\<close> of a \<open>uint64\<close>.\<close>

definition int_of_u64 :: "u64 \<Rightarrow> int" where
  "int_of_u64 v = sint v"

definition window_clear :: "replay_window \<Rightarrow> replay_window" where
  "window_clear w = w\<lparr>w_bits := map (\<lambda>_. 0) (w_bits w)\<rparr>"

text \<open>\<open>w.bits[word]\<close> and \<open>1 << bit\<close>, with Go's truncating division, or a panic.\<close>

definition window_contains :: "replay_window \<Rightarrow> int \<Rightarrow> bool outcome" where
  "window_contains w bitIndex =
     (let word = bitIndex sdiv 64; b = bitIndex smod 64 in
      if word < 0 \<or> int (length (w_bits w)) \<le> word \<or> b < 0 then Panic
      else Ok (w_bits w ! nat word AND push_bit (nat b) 1 \<noteq> 0))"

definition window_set :: "replay_window \<Rightarrow> int \<Rightarrow> replay_window outcome" where
  "window_set w bitIndex =
     (let word = bitIndex sdiv 64; b = bitIndex smod 64 in
      if word < 0 \<or> int (length (w_bits w)) \<le> word \<or> b < 0 then Panic
      else Ok (w\<lparr>w_bits := (w_bits w)[nat word := w_bits w ! nat word OR push_bit (nat b) 1]\<rparr>))"

definition shift_value :: "u64 list \<Rightarrow> int \<Rightarrow> int \<Rightarrow> u64 outcome" where
  "shift_value bits src bitShift =
     (if src < 0 \<or> int (length bits) \<le> src \<or> bitShift < 0 then Panic
      else let v = push_bit (nat bitShift) (bits ! nat src) in
        Ok (if bitShift \<noteq> 0 \<and> 0 < src
            then v OR drop_bit (nat (64 - bitShift)) (bits ! (nat src - 1)) else v))"

text \<open>The loop over \<open>dst\<close>, from the last word down.\<close>

fun shift_loop :: "u64 list \<Rightarrow> int \<Rightarrow> int \<Rightarrow> nat list \<Rightarrow> u64 list \<Rightarrow> u64 list outcome" where
  "shift_loop bits wordShift bitShift [] acc = Ok acc"
| "shift_loop bits wordShift bitShift (dst # dsts) acc =
     (if int dst < wordShift then shift_loop bits wordShift bitShift dsts acc
      else obind (shift_value bits (int dst - wordShift) bitShift) (\<lambda>v.
        shift_loop bits wordShift bitShift dsts (acc[dst := v])))"

definition shiftWindow :: "replay_window \<Rightarrow> int \<Rightarrow> replay_window outcome" where
  "shiftWindow w shift =
     (if udpReplayWindowSize \<le> shift then Ok (window_clear w)
      else if shift = 0 then Ok w
      else obind (shift_loop (w_bits w) (shift sdiv 64) (shift smod 64)
                    (rev [0..<udpReplayWindowWords]) (replicate udpReplayWindowWords 0))
             (\<lambda>bits. Ok (w\<lparr>w_bits := bits\<rparr>)))"

definition validateCandidate :: "replay_window \<Rightarrow> u64 \<Rightarrow> unit outcome" where
  "validateCandidate w sequence =
     (if \<not> w_initialized w then Ok ()
      else if sequence > w_highestSeen w then Ok ()
      else let distance = int_of_u64 (w_highestSeen w - sequence) in
        if udpReplayWindowSize \<le> distance then Err (SessionError ReplayOutsideWindow)
        else obind (window_contains w distance) (\<lambda>seen.
          if seen then Err (SessionError ReplayDuplicate) else Ok ()))"

definition markSeen :: "replay_window \<Rightarrow> u64 \<Rightarrow> replay_window outcome" where
  "markSeen w sequence =
     (if \<not> w_initialized w then
        window_set (window_clear (w\<lparr>w_initialized := True, w_highestSeen := sequence\<rparr>)) 0
      else if sequence > w_highestSeen w then
        (let shift = int_of_u64 (sequence - w_highestSeen w) in
         obind (shiftWindow w shift) (\<lambda>w. window_set (w\<lparr>w_highestSeen := sequence\<rparr>) 0))
      else let distance = int_of_u64 (w_highestSeen w - sequence) in
        if distance < udpReplayWindowSize then window_set w distance else Ok w)"

section \<open>The bitmap as a set of indices\<close>

definition window_ok :: "replay_window \<Rightarrow> bool" where
  "window_ok w \<longleftrightarrow> length (w_bits w) = udpReplayWindowWords"

definition bit_at :: "u64 list \<Rightarrow> nat \<Rightarrow> bool" where
  "bit_at bits i \<longleftrightarrow> bit (bits ! (i div 64)) (i mod 64)"

lemma int_sdiv_64 [simp]: "int i sdiv 64 = int (i div 64)"
  by (cases "i = 0") (simp_all add: signed_divide_int_def zdiv_int)

lemma int_smod_64 [simp]: "int i smod 64 = int (i mod 64)"
  by (cases "i = 0") (simp_all add: signed_modulo_int_def zmod_int)

lemma and_bit_iff: "w AND push_bit n 1 \<noteq> (0 :: u64) \<longleftrightarrow> bit w n"
  by (simp add: bit_iff_and_push_bit_not_eq_0)

lemma window_contains_ok:
  assumes "window_ok w" "i < 1024"
  shows "window_contains w (int i) = Ok (bit_at (w_bits w) i)"
proof -
  have "i div 64 < 16" using assms(2) by simp
  then have "\<not> int (length (w_bits w)) \<le> int (i div 64)"
    using assms(1) by (simp only: window_ok_def udpReplayWindowWords_def of_nat_le_iff)
  then show ?thesis
    unfolding window_contains_def Let_def int_sdiv_64 int_smod_64 bit_at_def
    by (simp only: nat_int and_bit_iff) simp
qed

lemma window_set_ok:
  assumes "window_ok w" "i < 1024"
  obtains bits where "window_set w (int i) = Ok (w\<lparr>w_bits := bits\<rparr>)"
    "length bits = udpReplayWindowWords"
    "\<forall>j<1024. bit_at bits j \<longleftrightarrow> j = i \<or> bit_at (w_bits w) j"
proof
  define bits where
    "bits = (w_bits w)[i div 64 := w_bits w ! (i div 64) OR push_bit (i mod 64) 1]"
  have len: "length (w_bits w) = 16" using assms(1) by (simp add: window_ok_def udpReplayWindowWords_def)
  have d: "i div 64 < 16" using assms(2) by simp
  then have "\<not> int (length (w_bits w)) \<le> int (i div 64)"
    by (simp only: len of_nat_le_iff)
  then show "window_set w (int i) = Ok (w\<lparr>w_bits := bits\<rparr>)"
    unfolding window_set_def Let_def int_sdiv_64 int_smod_64 bits_def
    by (simp only: nat_int) simp
  show "length bits = udpReplayWindowWords"
    by (simp add: bits_def len udpReplayWindowWords_def)
  have "j = i \<longleftrightarrow> j div 64 = i div 64 \<and> j mod 64 = i mod 64" for j
    by (metis div_mult_mod_eq)
  then show "\<forall>j<1024. bit_at bits j \<longleftrightarrow> j = i \<or> bit_at (w_bits w) j"
    using d len by (auto simp: bits_def bit_at_def nth_list_update bit_simps)
qed

lemma bit_at_clear: "i < 1024 \<Longrightarrow> window_ok w \<Longrightarrow> \<not> bit_at (w_bits (window_clear w)) i"
  by (simp add: bit_at_def window_clear_def window_ok_def udpReplayWindowWords_def)

lemma window_ok_clear: "window_ok w \<Longrightarrow> window_ok (window_clear w)"
  by (simp add: window_ok_def window_clear_def)

text \<open>A distance of \<open>2 ^ 63\<close> or more is a negative index, and every negative index panics.\<close>

lemma negative_index:
  assumes "k < 0"
  shows "k sdiv 64 < 0 \<or> k smod 64 < (0 :: int)"
proof -
  have "k = (k sdiv 64) * 64 + k smod 64" using sdiv_mult_smod_eq [of k 64] by simp
  with assms show ?thesis by arith
qed

lemma window_contains_negative: "k < 0 \<Longrightarrow> window_contains w k = Panic"
  using negative_index [of k] by (auto simp: window_contains_def Let_def)

section \<open>Shifting\<close>

text \<open>One word of the shifted bitmap, bit by bit.\<close>

lemma shift_value_bit:
  assumes len: "length bits = 16" and src: "q \<le> d" "d < 16" and r: "r < 64"
  obtains v where "shift_value bits (int d - int q) (int r) = Ok v"
    "\<And>m. m < 64 \<Longrightarrow> bit v m \<longleftrightarrow>
       64 * q + r \<le> 64 * d + m \<and> bit_at bits (64 * d + m - (64 * q + r))"
proof
  define s where "s = d - q"
  have s: "int d - int q = int s" "s < 16" using src by (simp_all add: s_def)
  define v where "v = (if r \<noteq> 0 \<and> 0 < s
    then push_bit r (bits ! s) OR drop_bit (64 - r) (bits ! (s - 1)) else push_bit r (bits ! s))"
  have "nat (64 - int r) = 64 - r" using r by simp
  then show "shift_value bits (int d - int q) (int r) = Ok v"
    using len s by (simp add: shift_value_def s(1) v_def Let_def)
  fix m :: nat assume m: "m < 64"
  show "bit v m \<longleftrightarrow> 64 * q + r \<le> 64 * d + m \<and> bit_at bits (64 * d + m - (64 * q + r))"
  proof (cases "r \<le> m")
    case True
    have idx: "64 * d + m - (64 * q + r) = 64 * s + (m - r)" "64 * q + r \<le> 64 * d + m"
      using True src by (simp_all add: s_def)
    have "(64 * s + (m - r)) div 64 = s" "(64 * s + (m - r)) mod 64 = m - r"
      using m by auto
    then have rhs: "(64 * q + r \<le> 64 * d + m \<and> bit_at bits (64 * d + m - (64 * q + r))) =
        bit (bits ! s) (m - r)"
      by (simp only: bit_at_def idx simp_thms)
    have "\<not> bit (bits ! (s - 1)) (m + (64 - r))" if "r \<noteq> 0"
      using True that bit_imp_le_length [of "bits ! (s - 1)" "m + (64 - r)"] by auto
    then show ?thesis
      unfolding rhs using True m by (auto simp: v_def bit_simps add.commute)
  next
    case False
    show ?thesis
    proof (cases "s = 0")
      case True
      then have "d = q" using src by (simp add: s_def)
      then show ?thesis using False m by (simp add: v_def bit_simps \<open>s = 0\<close>)
    next
      case nz: False
      have idx: "64 * d + m - (64 * q + r) = 64 * (s - 1) + (64 + m - r)" "64 * q + r \<le> 64 * d + m"
        using False nz r src by (auto simp: s_def)
      have "(64 * (s - 1) + (64 + m - r)) div 64 = s - 1"
        "(64 * (s - 1) + (64 + m - r)) mod 64 = 64 + m - r"
        using False by auto
      then have rhs: "(64 * q + r \<le> 64 * d + m \<and> bit_at bits (64 * d + m - (64 * q + r))) =
          bit (bits ! (s - 1)) (64 + m - r)"
        by (simp only: bit_at_def idx simp_thms)
      have "m + (64 - r) = 64 + m - r" using r by simp
      then show ?thesis
        unfolding rhs using False nz m r by (simp add: v_def bit_simps add.commute)
    qed
  qed
qed

lemma shift_loop_ok:
  assumes len: "length bits = 16" and r: "r < 64"
  shows "distinct dsts \<Longrightarrow> set dsts \<subseteq> {..<16} \<Longrightarrow> length acc = 16 \<Longrightarrow>
    \<exists>out. shift_loop bits (int q) (int r) dsts acc = Ok out \<and> length out = 16 \<and>
      (\<forall>d<16. d \<notin> set dsts \<or> d < q \<longrightarrow> out ! d = acc ! d) \<and>
      (\<forall>d\<in>set dsts. q \<le> d \<longrightarrow> (\<forall>m<64. bit (out ! d) m \<longleftrightarrow>
         64 * q + r \<le> 64 * d + m \<and> bit_at bits (64 * d + m - (64 * q + r))))"
proof (induction dsts arbitrary: acc)
  case (Cons x dsts)
  have x: "x < 16" "x \<notin> set dsts" and rest: "distinct dsts" "set dsts \<subseteq> {..<16}"
    using Cons.prems by auto
  show ?case
  proof (cases "x < q")
    case True
    then show ?thesis
      using Cons.IH [OF rest Cons.prems(3)] by auto
  next
    case False
    then have "q \<le> x" by simp
    from shift_value_bit [OF len this x(1) r] obtain v where
      v: "shift_value bits (int x - int q) (int r) = Ok v"
      "\<And>m. m < 64 \<Longrightarrow> bit v m \<longleftrightarrow>
         64 * q + r \<le> 64 * x + m \<and> bit_at bits (64 * x + m - (64 * q + r))" by metis
    from Cons.IH [OF rest, of "acc[x := v]"] Cons.prems(3) obtain out where
      out: "shift_loop bits (int q) (int r) dsts (acc[x := v]) = Ok out" "length out = 16"
      "\<forall>d<16. d \<notin> set dsts \<or> d < q \<longrightarrow> out ! d = acc[x := v] ! d"
      "\<forall>d\<in>set dsts. q \<le> d \<longrightarrow> (\<forall>m<64. bit (out ! d) m \<longleftrightarrow>
         64 * q + r \<le> 64 * d + m \<and> bit_at bits (64 * d + m - (64 * q + r)))" by auto
    have "out ! x = v" using out(3) x Cons.prems(3) by simp
    moreover have "\<forall>d<16. d \<notin> set (x # dsts) \<or> d < q \<longrightarrow> out ! d = acc ! d"
      using out(3) \<open>q \<le> x\<close> by (metis leD list.set_intros(1) nth_list_update_neq list.set_intros(2))
    ultimately show ?thesis
      using out v False by auto
  qed
qed simp

lemma shiftWindow_ok:
  assumes w: "window_ok w" and n: "0 < n"
  obtains bits where "shiftWindow w (int n) = Ok (w\<lparr>w_bits := bits\<rparr>)"
    "length bits = udpReplayWindowWords"
    "\<forall>i<1024. bit_at bits i \<longleftrightarrow> n \<le> i \<and> bit_at (w_bits w) (i - n)"
proof (cases "1024 \<le> n")
  case True
  then show ?thesis
    using w bit_at_clear [OF _ w]
    by (intro that [of "w_bits (window_clear w)"])
       (auto simp: shiftWindow_def udpReplayWindowSize_def window_clear_def window_ok_def)
next
  case False
  define q r where "q = n div 64" and "r = n mod 64"
  have qr: "n = 64 * q + r" "r < 64" "q < 16" using False by (simp_all add: q_def r_def)
  have len: "length (w_bits w) = 16" using w by (simp add: window_ok_def udpReplayWindowWords_def)
  from shift_loop_ok [OF len qr(2), of "rev [0..<16]" "replicate 16 0" q] obtain bits where
    bits: "shift_loop (w_bits w) (int q) (int r) (rev [0..<16]) (replicate 16 0) = Ok bits"
    "length bits = 16" "\<forall>d<16. d < q \<longrightarrow> bits ! d = 0"
    "\<forall>d<16. q \<le> d \<longrightarrow> (\<forall>m<64. bit (bits ! d) m \<longleftrightarrow>
       64 * q + r \<le> 64 * d + m \<and> bit_at (w_bits w) (64 * d + m - (64 * q + r)))"
    by (auto simp: atLeast0LessThan)
  show ?thesis
  proof (rule that [of bits])
    show "shiftWindow w (int n) = Ok (w\<lparr>w_bits := bits\<rparr>)"
      using n False bits(1)
      by (simp add: shiftWindow_def udpReplayWindowSize_def udpReplayWindowWords_def q_def r_def)
    show "length bits = udpReplayWindowWords" by (simp add: bits(2) udpReplayWindowWords_def)
    show "\<forall>i<1024. bit_at bits i \<longleftrightarrow> n \<le> i \<and> bit_at (w_bits w) (i - n)"
    proof (intro allI impI)
    fix i :: nat assume i: "i < 1024"
    have d: "i div 64 < 16" "i mod 64 < 64" and i_eq: "64 * (i div 64) + i mod 64 = i"
      using i by simp_all
    show "bit_at bits i \<longleftrightarrow> n \<le> i \<and> bit_at (w_bits w) (i - n)"
    proof (cases "i div 64 < q")
      case True
      then have "i < n" using qr d(2) i_eq by linarith
      with True show ?thesis using bits(3) d by (simp add: bit_at_def)
    next
      case False
      then have "q \<le> i div 64" by simp
      from bits(4) [rule_format, OF d(1) this d(2)] show ?thesis
        unfolding i_eq qr(1) [symmetric] by (simp only: bit_at_def [of bits])
    qed
    qed
  qed
qed

lemma shiftWindow_negative:
  assumes "window_ok w" "k < 0"
  shows "shiftWindow w k = Panic"
proof -
  have "(k sdiv 64) * 64 + k smod 64 = k" by (rule sdiv_mult_smod_eq)
  have le: "k sdiv 64 \<le> 0" using assms(2)
    by (simp add: signed_divide_int_def)
  have "shift_value (w_bits w) (15 - k sdiv 64) (k smod 64) = Panic"
    using negative_index [OF assms(2)] assms(1) le
    by (auto simp: shift_value_def window_ok_def udpReplayWindowWords_def)
  moreover have "rev [0..<udpReplayWindowWords] = 15 # rev [0..<15]"
    using upt_Suc_append [of 0 15] by (simp add: udpReplayWindowWords_def)
  ultimately show ?thesis
    using assms(2) le by (simp add: shiftWindow_def udpReplayWindowSize_def)
qed

section \<open>Refinement of a set of sequence numbers\<close>

text \<open>\<open>S\<close> is every number marked since the window was last reset.\<close>

definition window_rel :: "replay_window \<Rightarrow> u64 set \<Rightarrow> bool" where
  "window_rel w S \<longleftrightarrow> window_ok w \<and>
     (if w_initialized w then
        w_highestSeen w \<in> S \<and> (\<forall>s\<in>S. s \<le> w_highestSeen w) \<and>
        (\<forall>i<1024. bit_at (w_bits w) i \<longleftrightarrow>
           i \<le> unat (w_highestSeen w) \<and> w_highestSeen w - of_nat i \<in> S)
      else S = {})"

lemma window_rel_empty: "window_rel empty_window {}"
  by (simp add: window_rel_def empty_window_def window_ok_def)

lemma window_rel_ok: "window_rel w S \<Longrightarrow> window_ok w"
  by (simp add: window_rel_def)

lemma int_of_u64_small:
  assumes "unat v < 2 ^ 63"
  shows "int_of_u64 v = int (unat v)"
proof -
  have "int (unat v) < int (2 ^ 63)" using assms by (simp only: of_nat_less_iff)
  then have "uint v < 2 ^ 63" by simp
  then have "signed_take_bit 63 (uint v) = uint v"
    by (simp add: signed_take_bit_int_eq_self_iff order_trans [of _ 0])
  then show ?thesis by (simp add: int_of_u64_def sint_uint)
qed

lemma int_of_u64_large:
  assumes "2 ^ 63 \<le> unat v"
  shows "int_of_u64 v < 0"
proof -
  have "int (2 ^ 63) \<le> int (unat v)" "int (unat v) < int (2 ^ 64)"
    using assms unat64_less [of v] by (simp_all only: of_nat_le_iff of_nat_less_iff)
  then have v: "2 ^ 63 \<le> uint v" "uint v < 2 ^ 64" by simp_all
  have "int_of_u64 v = signed_take_bit 63 (uint v)" by (simp add: int_of_u64_def sint_uint)
  also have "\<dots> \<le> uint v - 2 ^ Suc 63" by (rule signed_take_bit_int_less_eq [OF v(1)])
  also have "\<dots> < 0" using v(2) by simp
  finally show ?thesis .
qed

lemma unat_diff: "b \<le> a \<Longrightarrow> unat (a - b :: u64) = unat a - unat b"
  by (simp add: unat_sub_if' word_le_nat_alt)

lemma unat_minus_of_nat:
  assumes "i \<le> unat q"
  shows "unat (q - of_nat i :: u64) = unat q - i"
proof -
  have "i < 2 ^ 64" using assms unat64_less [of q] by (rule order_le_less_trans)
  then have "unat (of_nat i :: u64) = i" by (simp add: unat_of_nat)
  then show ?thesis using assms by (simp add: unat_diff word_le_nat_alt)
qed

text \<open>The decision of \<open>validateCandidate\<close> in terms of the set.\<close>

lemma validate_init:
  "window_rel w S \<Longrightarrow> \<not> w_initialized w \<Longrightarrow> validateCandidate w q = Ok ()"
  by (simp add: validateCandidate_def)

lemma validate_newer:
  "w_highestSeen w < q \<Longrightarrow> validateCandidate w q = Ok ()"
  by (simp add: validateCandidate_def)

lemma validate_older:
  assumes rel: "window_rel w S" and init: "w_initialized w" and le: "q \<le> w_highestSeen w"
  shows "validateCandidate w q =
    (let n = unat (w_highestSeen w) - unat q in
     if 2 ^ 63 \<le> n then Panic
     else if 1024 \<le> n then Err (SessionError ReplayOutsideWindow)
     else if q \<in> S then Err (SessionError ReplayDuplicate) else Ok ())"
proof -
  define n where "n = unat (w_highestSeen w) - unat q"
  have n: "unat (w_highestSeen w - q) = n" by (simp add: n_def unat_diff le)
  have q: "w_highestSeen w - of_nat n = q" by (simp add: n [symmetric])
  show ?thesis
  proof (cases "2 ^ 63 \<le> n")
    case True
    then have "int_of_u64 (w_highestSeen w - q) < 0" using n by (simp add: int_of_u64_large)
    then show ?thesis
      using True init le by (simp add: validateCandidate_def Let_def n_def [symmetric]
        udpReplayWindowSize_def window_contains_negative not_less)
  next
    case False
    then have d: "int_of_u64 (w_highestSeen w - q) = int n" using n by (simp add: int_of_u64_small)
    show ?thesis
    proof (cases "1024 \<le> n")
      case True
      then show ?thesis
        using False init le by (simp add: validateCandidate_def Let_def n_def [symmetric] d
          udpReplayWindowSize_def not_less)
    next
      case small: False
      then have "bit_at (w_bits w) n \<longleftrightarrow> q \<in> S"
        using rel init by (simp add: window_rel_def q) (simp add: n_def)
      then have "window_contains w (int n) = Ok (q \<in> S)"
        using window_contains_ok [OF window_rel_ok [OF rel], of n] small by simp
      then show ?thesis
        using False small init le by (auto simp: validateCandidate_def Let_def n_def [symmetric] d
          udpReplayWindowSize_def)
    qed
  qed
qed

text \<open>The effect of \<open>markSeen\<close> on the set.\<close>

lemma mark_init:
  assumes rel: "window_rel w S" and init: "\<not> w_initialized w"
  obtains w' where "markSeen w q = Ok w'" "window_rel w' {q}"
proof -
  let ?v = "w\<lparr>w_initialized := True, w_highestSeen := q\<rparr>"
  let ?w = "window_clear ?v"
  have ok0: "window_ok ?v" using window_rel_ok [OF rel] by (simp add: window_ok_def)
  obtain bits where
    set0: "window_set ?w (int 0) = Ok (?w\<lparr>w_bits := bits\<rparr>)" and
    len: "length bits = udpReplayWindowWords" and
    at: "\<forall>j<1024. bit_at bits j \<longleftrightarrow> j = 0 \<or> bit_at (w_bits ?w) j"
    by (rule window_set_ok [OF window_ok_clear [OF ok0], of 0]) simp
  have only0: "bit_at bits i \<longleftrightarrow> i = 0" if "i < 1024" for i
    using at [rule_format, OF that] bit_at_clear [OF that ok0] by simp
  have zero: "q - of_nat i = q \<longleftrightarrow> i = 0" if "i \<le> unat q" for i
    using unat_minus_of_nat [rule_format, OF that] that by (auto simp: word_unat_eq_iff)
  show ?thesis
  proof (rule that)
    show "markSeen w q = Ok (?w\<lparr>w_bits := bits\<rparr>)" using init set0 by (simp add: markSeen_def)
    show "window_rel (?w\<lparr>w_bits := bits\<rparr>) {q}"
      using len only0 zero
      by (auto simp: window_rel_def window_ok_def window_clear_def)
  qed
qed

lemma mark_newer:
  assumes rel: "window_rel w S" and init: "w_initialized w" and gt: "w_highestSeen w < q"
    and small: "unat q - unat (w_highestSeen w) < 2 ^ 63"
  obtains w' where "markSeen w q = Ok w'" "window_rel w' (insert q S)"
proof -
  let ?h = "w_highestSeen w"
  define n where "n = unat q - unat ?h"
  have n0: "0 < n" and hq: "unat q = unat ?h + n"
    using gt by (simp_all add: n_def word_less_nat_alt)
  have "unat (q - ?h) = n" using gt by (simp add: n_def unat_diff)
  then have shift: "int_of_u64 (q - ?h) = int n" using small by (simp add: int_of_u64_small n_def)
  obtain bits1 where
    sh: "shiftWindow w (int n) = Ok (w\<lparr>w_bits := bits1\<rparr>)"
    "length bits1 = udpReplayWindowWords"
    "\<forall>i<1024. bit_at bits1 i \<longleftrightarrow> n \<le> i \<and> bit_at (w_bits w) (i - n)"
    by (rule shiftWindow_ok [OF window_rel_ok [OF rel] n0])
  let ?w = "w\<lparr>w_bits := bits1, w_highestSeen := q\<rparr>"
  have ok: "window_ok ?w" using sh(2) by (simp add: window_ok_def)
  obtain bits where
    set0: "window_set ?w (int 0) = Ok (?w\<lparr>w_bits := bits\<rparr>)" and
    len: "length bits = udpReplayWindowWords" and
    at: "\<forall>j<1024. bit_at bits j \<longleftrightarrow> j = 0 \<or> bit_at (w_bits ?w) j"
    by (rule window_set_ok [OF ok, of 0]) simp
  have bits: "bit_at bits i \<longleftrightarrow> i \<le> unat q \<and> q - of_nat i \<in> insert q S" if i: "i < 1024" for i
  proof (cases "i \<le> unat q")
    case True
    note u = unat_minus_of_nat [OF True]
    have zero: "q - of_nat i = q \<longleftrightarrow> i = 0" using u True by (auto simp: word_unat_eq_iff)
    show ?thesis
    proof (cases "n \<le> i")
      case True
      then have le: "i - n \<le> unat ?h" using \<open>i \<le> unat q\<close> hq by simp
      have eq: "q - of_nat i = ?h - of_nat (i - n)"
        using u unat_minus_of_nat [OF le] True hq by (simp add: word_unat_eq_iff)
      have "bit_at (w_bits w) (i - n) \<longleftrightarrow> ?h - of_nat (i - n) \<in> S"
        using rel init i le by (simp add: window_rel_def)
      then have "bit_at bits1 i \<longleftrightarrow> q - of_nat i \<in> S"
        unfolding eq using sh(3) [rule_format, OF i] True by simp
      then show ?thesis
        using at [rule_format, OF i] True n0 zero \<open>i \<le> unat q\<close> by simp
    next
      case False
      then have "?h < q - of_nat i" using u hq by (simp add: word_less_nat_alt)
      then have "q - of_nat i \<notin> S" using rel init by (auto simp: window_rel_def)
      then show ?thesis using at [rule_format, OF i] sh(3) [rule_format, OF i] False zero \<open>i \<le> unat q\<close> by simp
    qed
  next
    case False
    then have "\<not> i - n \<le> unat ?h" "i - n < 1024" using hq i by auto
    then have "\<not> bit_at (w_bits w) (i - n)" using rel init by (simp add: window_rel_def)
    then show ?thesis using at [rule_format, OF i] sh(3) [rule_format, OF i] False by auto
  qed
  show ?thesis
  proof (rule that)
    show "markSeen w q = Ok (?w\<lparr>w_bits := bits\<rparr>)"
      using init gt shift sh(1) set0 by (simp add: markSeen_def Let_def)
    show "window_rel (?w\<lparr>w_bits := bits\<rparr>) (insert q S)"
      using rel init gt len bits by (auto simp: window_rel_def window_ok_def)
  qed
qed

lemma mark_newer_panics:
  assumes "window_rel w S" "w_initialized w" "w_highestSeen w < q"
    and "2 ^ 63 \<le> unat q - unat (w_highestSeen w)"
  shows "markSeen w q = Panic"
proof -
  have "int_of_u64 (q - w_highestSeen w) < 0"
    using assms(3,4) by (intro int_of_u64_large) (simp add: unat_diff)
  from shiftWindow_negative [OF window_rel_ok [OF assms(1)] this] show ?thesis
    using assms(2,3) by (simp add: markSeen_def Let_def)
qed

lemma mark_older:
  assumes rel: "window_rel w S" and init: "w_initialized w" and le: "q \<le> w_highestSeen w"
    and small: "unat (w_highestSeen w) - unat q < 1024"
  obtains w' where "markSeen w q = Ok w'" "window_rel w' (insert q S)"
proof -
  let ?h = "w_highestSeen w"
  define n where "n = unat ?h - unat q"
  have n: "unat (?h - q) = n" by (simp add: n_def unat_diff le)
  have "n < 2 ^ 63" using small unfolding n_def [symmetric] by simp
  then have d: "int_of_u64 (?h - q) = int n" using n by (simp add: int_of_u64_small)
  obtain bits where
    set: "window_set w (int n) = Ok (w\<lparr>w_bits := bits\<rparr>)" and
    len: "length bits = udpReplayWindowWords" and
    at: "\<forall>j<1024. bit_at bits j \<longleftrightarrow> j = n \<or> bit_at (w_bits w) j"
    by (rule window_set_ok [OF window_rel_ok [OF rel], of n]) (use small in \<open>simp add: n_def\<close>)
  have hq: "unat ?h = unat q + n" using le by (simp add: n_def word_le_nat_alt)
  have q: "?h - of_nat i = q \<longleftrightarrow> i = n" if "i \<le> unat ?h" for i
    using unat_minus_of_nat [rule_format, OF that] that hq by (auto simp: word_unat_eq_iff)
  show ?thesis
  proof (rule that)
    show "markSeen w q = Ok (w\<lparr>w_bits := bits\<rparr>)"
      using init d set small leD [OF le]
      by (simp add: markSeen_def Let_def udpReplayWindowSize_def n_def)
    show "window_rel (w\<lparr>w_bits := bits\<rparr>) (insert q S)"
      using rel init le len at q hq by (auto simp: window_rel_def window_ok_def)
  qed
qed

lemma mark_adds:
  assumes rel: "window_rel w S" and ok: "validateCandidate w q = Ok ()" and m: "markSeen w q = Ok w'"
  shows "window_rel w' (insert q S)"
proof (cases "w_initialized w")
  case False
  with rel have "S = {}" by (simp add: window_rel_def)
  with mark_init [OF rel False, of q] m show ?thesis by auto
next
  case True
  show ?thesis
  proof (cases "w_highestSeen w < q")
    case gt: True
    then have "unat q - unat (w_highestSeen w) < 2 ^ 63"
      using mark_newer_panics [OF rel True gt] m by (force simp: not_less)
    from mark_newer [OF rel True gt this] m show ?thesis by auto
  next
    case False
    then have le: "q \<le> w_highestSeen w" by simp
    have "unat (w_highestSeen w) - unat q < 1024"
      using validate_older [OF rel True le] ok by (auto simp: Let_def split: if_splits)
    from mark_older [OF rel True le this] m show ?thesis by auto
  qed
qed

lemma check_fresh:
  assumes rel: "window_rel w S" and ok: "validateCandidate w q = Ok ()"
  shows "q \<notin> S"
proof (cases "w_initialized w")
  case False
  with rel show ?thesis by (simp add: window_rel_def)
next
  case True
  show ?thesis
  proof (cases "w_highestSeen w < q")
    case False
    with validate_older [OF rel True] ok show ?thesis
      by (auto simp: Let_def split: if_splits)
  qed (use rel True in \<open>auto simp: window_rel_def\<close>)
qed

text \<open>Sequence numbers below \<open>2 ^ 63\<close> never panic, and a number is accepted exactly when it
  is fresh and less than 1024 below the highest one marked.\<close>

definition small_seqs :: "u64 set \<Rightarrow> bool" where
  "small_seqs S \<longleftrightarrow> (\<forall>s\<in>S. unat s < 2 ^ 63)"

lemma validate_small:
  assumes rel: "window_rel w S" and S: "small_seqs S"
  shows "validateCandidate w q =
    (if \<exists>s\<in>S. unat q + 1024 \<le> unat s then Err (SessionError ReplayOutsideWindow)
     else if q \<in> S then Err (SessionError ReplayDuplicate) else Ok ())"
proof (cases "w_initialized w")
  case False
  with rel have "S = {}" by (simp add: window_rel_def)
  then show ?thesis using False by (simp add: validate_init [OF rel])
next
  case True
  let ?h = "w_highestSeen w"
  have h: "?h \<in> S" "\<forall>s\<in>S. s \<le> ?h" using rel True by (auto simp: window_rel_def)
  have old: "(\<exists>s\<in>S. unat q + 1024 \<le> unat s) \<longleftrightarrow> unat q + 1024 \<le> unat ?h"
    using h by (meson order_trans word_le_nat_alt)
  show ?thesis
  proof (cases "?h < q")
    case gt: True
    have "q \<notin> S" using h(2) leD gt by blast
    moreover have "\<not> unat q + 1024 \<le> unat ?h" using gt by (simp add: word_less_nat_alt)
    ultimately show ?thesis using validate_newer [OF gt] by (simp add: old)
  next
    case False
    then have le: "q \<le> ?h" by simp
    have "unat ?h - unat q < 2 ^ 63" using S h(1) by (simp add: small_seqs_def less_imp_diff_less)
    moreover have "1024 \<le> unat ?h - unat q \<longleftrightarrow> unat q + 1024 \<le> unat ?h"
      using le by (auto simp: word_le_nat_alt)
    ultimately show ?thesis
      using validate_older [OF rel True le] by (simp add: Let_def old)
  qed
qed

lemma mark_small:
  assumes rel: "window_rel w S" and S: "small_seqs (insert q S)" and ok: "validateCandidate w q = Ok ()"
  obtains w' where "markSeen w q = Ok w'" "window_rel w' (insert q S)"
proof -
  have "\<exists>w'. markSeen w q = Ok w'"
  proof (cases "w_initialized w")
    case False
    with mark_init [OF rel False, of q] show ?thesis by auto
  next
    case True
    show ?thesis
    proof (cases "w_highestSeen w < q")
      case gt: True
      have "unat q - unat (w_highestSeen w) < 2 ^ 63"
        using S by (simp add: small_seqs_def less_imp_diff_less)
      with mark_newer [OF rel True gt] show ?thesis by auto
    next
      case False
      then have le: "q \<le> w_highestSeen w" by simp
      have "unat (w_highestSeen w) - unat q < 1024"
        using validate_older [OF rel True le] ok by (auto simp: Let_def split: if_splits)
      with mark_older [OF rel True le] show ?thesis by auto
    qed
  qed
  then show ?thesis using mark_adds [OF rel ok] that by blast
qed

section \<open>Replay filters\<close>

text \<open>
  What a receiver needs of a window: what it accepts has not been recorded, and recording
  adds it. \<open>filter_run\<close> is the receiver's use of it on a list of arriving numbers: a
  rejected number is skipped, a panic ends the run.
\<close>

fun filter_run :: "('w \<Rightarrow> 'q \<Rightarrow> unit outcome) \<Rightarrow> ('w \<Rightarrow> 'q \<Rightarrow> 'w outcome) \<Rightarrow>
    'w \<Rightarrow> 'q list \<Rightarrow> 'q list" where
  "filter_run check mark w [] = []"
| "filter_run check mark w (q # qs) = (case check w q of
      Ok _ \<Rightarrow> (case mark w q of Ok w' \<Rightarrow> q # filter_run check mark w' qs | _ \<Rightarrow> [])
    | Err _ \<Rightarrow> filter_run check mark w qs
    | Panic \<Rightarrow> [])"

locale replay_filter =
  fixes check :: "'w \<Rightarrow> 'q \<Rightarrow> unit outcome"
    and mark :: "'w \<Rightarrow> 'q \<Rightarrow> 'w outcome"
    and rel :: "'w \<Rightarrow> 'q set \<Rightarrow> bool"
  assumes accepts_fresh: "rel w S \<Longrightarrow> check w q = Ok () \<Longrightarrow> q \<notin> S"
    and mark_inserts: "rel w S \<Longrightarrow> check w q = Ok () \<Longrightarrow> mark w q = Ok w' \<Longrightarrow> rel w' (insert q S)"
begin

lemma run_accepts_once:
  "rel w S \<Longrightarrow> distinct (filter_run check mark w qs) \<and> set (filter_run check mark w qs) \<inter> S = {}"
proof (induction qs arbitrary: w S)
  case (Cons q qs)
  show ?case
  proof (cases "\<exists>w'. check w q = Ok () \<and> mark w q = Ok w'")
    case True
    then obtain w' where w': "check w q = Ok ()" "mark w q = Ok w'" by blast
    from Cons.IH [OF mark_inserts [OF Cons.prems w']] accepts_fresh [OF Cons.prems w'(1)] w'
    show ?thesis by auto
  next
    case False
    with Cons.IH [OF Cons.prems] show ?thesis
      by (cases "check w q"; cases "mark w q") auto
  qed
qed simp

end

interpretation udp_filter: replay_filter validateCandidate markSeen window_rel
  by unfold_locales (auto dest: check_fresh mark_adds)

section \<open>Properties\<close>

text \<open>C9: the bitmap decides exactly as the set of marked numbers would: for numbers below \<open>2 ^ 63\<close>
  a candidate is outside the window when a marked number is at least 1024 above it, a duplicate
  when it is marked itself, and accepted otherwise; accepting it adds it to the set.\<close>

theorem window_decides_like_set:
  assumes "window_rel w S" "small_seqs (insert q S)"
  shows "validateCandidate w q =
      (if \<exists>s\<in>S. unat q + 1024 \<le> unat s then Err (SessionError ReplayOutsideWindow)
       else if q \<in> S then Err (SessionError ReplayDuplicate) else Ok ()) \<and>
    (validateCandidate w q = Ok () \<longrightarrow>
       (\<exists>w'. markSeen w q = Ok w' \<and> window_rel w' (insert q S)))"
proof -
  have "small_seqs S" using assms(2) by (simp add: small_seqs_def)
  with validate_small [OF assms(1)] mark_small [OF assms] show ?thesis by metis
qed

theorem window_decides_like_set_witness:
  "validateCandidate empty_window 5 = Ok () \<and>
   (\<exists>w. markSeen empty_window 5 = Ok w \<and> window_rel w {5} \<and>
      validateCandidate w 5 = Err (SessionError ReplayDuplicate))"
proof -
  have 1: "validateCandidate empty_window 5 = Ok ()" "\<exists>w. markSeen empty_window 5 = Ok w \<and> window_rel w {5}"
    using window_decides_like_set [OF window_rel_empty, of 5] by (simp_all add: small_seqs_def)
  then obtain w where w: "markSeen empty_window 5 = Ok w" "window_rel w {5}" by blast
  have "validateCandidate w 5 = Err (SessionError ReplayDuplicate)"
    using window_decides_like_set [OF w(2), of 5] by (simp add: small_seqs_def)
  with 1 w show ?thesis by blast
qed

text \<open>C21: whatever numbers arrive in whatever order, those the window lets through are distinct.\<close>

theorem window_never_accepts_twice:
  "distinct (filter_run validateCandidate markSeen empty_window qs)"
  using udp_filter.run_accepts_once [OF window_rel_empty] by blast

text \<open>C37: a number \<open>2 ^ 63\<close> or more below the highest one seen is not rejected: its distance is
  converted to a negative \<open>int\<close>, which passes the size check and indexes the bitmap out of range.
  The check runs before the record is authenticated.\<close>

theorem window_distance_panics:
  assumes "window_rel w S" "w_initialized w" "q \<le> w_highestSeen w"
    and "2 ^ 63 \<le> unat (w_highestSeen w) - unat q"
  shows "validateCandidate w q = Panic"
  using validate_older [OF assms(1-3)] assms(4) by (simp add: Let_def)

theorem window_distance_panics_witness:
  "\<exists>w. markSeen empty_window (2 ^ 63) = Ok w \<and> validateCandidate w 0 = Panic"
proof -
  have rel: "window_rel empty_window {}" by (rule window_rel_empty)
  have init: "\<not> w_initialized empty_window" by (simp add: empty_window_def)
  from mark_init [OF rel init, of "2 ^ 63"] obtain w where w: "markSeen empty_window (2 ^ 63) = Ok w"
    "window_rel w {2 ^ 63}" by auto
  from w(1) have h: "w_initialized w" "w_highestSeen w = 2 ^ 63"
    by (auto simp: markSeen_def empty_window_def window_set_def window_clear_def Let_def split: if_splits)
  have "validateCandidate w 0 = Panic"
    by (rule window_distance_panics [OF w(2)]) (simp_all add: h)
  with w(1) show ?thesis by blast
qed

end
