(* ===== verification/Session.thy ===== *)
theory Session
  imports Cipher Handshake Replay_Window
begin

unbundle bit_operations_syntax

text \<open>
  Package \<open>transport/session\<close>: the state of an established session, the encryption and the
  two ways of decryption of a frame under it, rekeying of each direction and the rekey
  trigger. The clock is read by the operations, so each reading is an argument: \<open>tTrig\<close> is the
  one \<open>refreshRekeyTrigger\<close> may take, \<open>now\<close> the one of \<open>Touch\<close> or of the epoch start.
\<close>

section \<open>State\<close>

definition ReplayModeOrderedTCP :: byte where "ReplayModeOrderedTCP = 1"

definition ReplayModeSlidingUDP :: byte where "ReplayModeSlidingUDP = 2"

definition RekeyReasonTime :: byte where "RekeyReasonTime = 1"

definition RekeyReasonBytes :: byte where "RekeyReasonBytes = 2"

definition RekeyReasonManual :: byte where "RekeyReasonManual = 3"

record session_state =
  s_Role :: byte
  s_SessionID :: u64
  s_TxKey :: session_key
  s_RxKey :: session_key
  s_TxEpoch :: u32
  s_RxEpoch :: u32
  s_TxSequence :: u64
  s_RxSequence :: u64
  s_LastSeen :: time
  s_ReplayMode :: byte
  s_TxBytesInEpoch :: u64
  s_TxEpochStarted :: time
  s_RekeyMaxBytes :: u64
  s_RekeyMaxAge :: duration
  s_rekeyRequired :: bool
  s_rekeyReason :: "byte option"
  s_udpReplayWindow :: replay_window

text \<open>\<open>math.MaxUint64\<close>.\<close>

definition MaxUint64 :: u64 where "MaxUint64 = 0xFFFFFFFFFFFFFFFF"

definition maxUint64 :: "u64 \<Rightarrow> u64 \<Rightarrow> u64" where
  "maxUint64 v minimum = (if v < minimum then minimum else v)"

definition maxDuration :: "duration \<Rightarrow> duration \<Rightarrow> duration" where
  "maxDuration v minimum = (if v < minimum then minimum else v)"

definition FromHandshakeOutput :: "time \<Rightarrow> handshake_output \<Rightarrow> session_state" where
  "FromHandshakeOutput now out = \<lparr>s_Role = ho_Role out, s_SessionID = ho_SessionID out,
     s_TxKey = ho_TxKey out, s_RxKey = ho_RxKey out, s_TxEpoch = 0, s_RxEpoch = 0,
     s_TxSequence = 0, s_RxSequence = 0, s_LastSeen = now, s_ReplayMode = ReplayModeOrderedTCP,
     s_TxBytesInEpoch = 0, s_TxEpochStarted = now,
     s_RekeyMaxBytes = maxUint64 (ho_MaxRekeyBytes out) 1,
     s_RekeyMaxAge = maxDuration (go_int (uint (ho_MaxRekeySeconds out) * second_ns)) second_ns,
     s_rekeyRequired = False, s_rekeyReason = None, s_udpReplayWindow = empty_window\<rparr>"

definition Touch :: "time \<Rightarrow> session_state \<Rightarrow> session_state" where
  "Touch now s = s\<lparr>s_LastSeen := now\<rparr>"

definition IsTimedOut :: "time \<Rightarrow> session_state \<Rightarrow> duration \<Rightarrow> bool" where
  "IsTimedOut now s timeout \<longleftrightarrow> time_since now (s_LastSeen s) \<ge> timeout"

definition SetReplayMode :: "byte \<Rightarrow> session_state \<Rightarrow> session_state" where
  "SetReplayMode mode s =
     (let s = s\<lparr>s_ReplayMode := mode\<rparr> in
      if mode = ReplayModeSlidingUDP then s\<lparr>s_udpReplayWindow := empty_window\<rparr> else s)"

definition SetRekeyPolicy :: "u64 \<Rightarrow> duration \<Rightarrow> session_state \<Rightarrow> session_state" where
  "SetRekeyPolicy maxBytes maxAge s =
     s\<lparr>s_RekeyMaxBytes := maxUint64 maxBytes 1, s_RekeyMaxAge := maxDuration maxAge second_ns\<rparr>"

definition IsRekeyRequired :: "session_state \<Rightarrow> bool" where
  "IsRekeyRequired s = s_rekeyRequired s"

definition RekeyReason :: "session_state \<Rightarrow> byte \<times> bool" where
  "RekeyReason s = (case s_rekeyReason s of None \<Rightarrow> (0, False) | Some r \<Rightarrow> (r, True))"

definition MarkRekeyManual :: "session_state \<Rightarrow> session_state" where
  "MarkRekeyManual s = s\<lparr>s_rekeyRequired := True, s_rekeyReason := Some RekeyReasonManual\<rparr>"

definition txDirection :: "session_state \<Rightarrow> byte" where
  "txDirection s = (if s_Role s = EndpointRoleInitiator then 0x01 else 0x02)"

definition rxDirection :: "session_state \<Rightarrow> byte" where
  "rxDirection s = (if s_Role s = EndpointRoleInitiator then 0x02 else 0x01)"

definition refreshRekeyTrigger :: "time \<Rightarrow> session_state \<Rightarrow> session_state" where
  "refreshRekeyTrigger now s =
     (if s_rekeyRequired s then s
      else if s_TxBytesInEpoch s \<ge> s_RekeyMaxBytes s
        then s\<lparr>s_rekeyRequired := True, s_rekeyReason := Some RekeyReasonBytes\<rparr>
      else if time_since now (s_TxEpochStarted s) \<ge> s_RekeyMaxAge s
        then s\<lparr>s_rekeyRequired := True, s_rekeyReason := Some RekeyReasonTime\<rparr>
      else s)"

definition IsEncrypted :: "frame \<Rightarrow> bool" where
  "IsEncrypted f \<longleftrightarrow> f_Flags f AND FlagEncrypted \<noteq> 0"

section \<open>Records\<close>

definition Session_EncryptFrame ::
    "primitives \<Rightarrow> time \<Rightarrow> time \<Rightarrow> frame \<Rightarrow> (session_state, frame) go_method" where
  "Session_EncryptFrame P tTrig now f s =
     (if f_Flags f AND FlagEncrypted \<noteq> 0 then (Err (SessionError FrameAlreadyEncrypted), s)
      else if s_TxSequence s = MaxUint64 then (Err (SessionError OutboundCounterOverflow), s)
      else let nonce = DeriveNonce (s_SessionID s) (s_TxKey s) (txDirection s) (s_TxSequence s);
               aad = BuildAAD f (s_TxEpoch s) (s_TxSequence s) in
      case EncryptFrame P f (s_TxKey s) nonce aad of
        Err e \<Rightarrow> (Err e, s)
      | Panic \<Rightarrow> (Panic, s)
      | Ok sealed \<Rightarrow>
          let s = s\<lparr>s_TxSequence := s_TxSequence s + 1\<rparr>;
              s = s\<lparr>s_TxBytesInEpoch := s_TxBytesInEpoch s + of_nat (length (f_Payload sealed))\<rparr>;
              s = refreshRekeyTrigger tTrig s
          in (Ok sealed, Touch now s))"

definition Session_DecryptFrame :: "primitives \<Rightarrow> time \<Rightarrow> frame \<Rightarrow> (session_state, frame) go_method" where
  "Session_DecryptFrame P now f s =
     (if f_Flags f AND FlagEncrypted = 0 then (Err (SessionError FrameNotEncrypted), s)
      else if s_ReplayMode s \<noteq> ReplayModeOrderedTCP then (Err (SessionError OrderedModeRequired), s)
      else if s_RxSequence s = MaxUint64 then (Err (SessionError InboundCounterOverflow), s)
      else let nonce = DeriveNonce (s_SessionID s) (s_RxKey s) (rxDirection s) (s_RxSequence s);
               aad = BuildAAD f (s_RxEpoch s) (s_RxSequence s) in
      case DecryptFrame P f (s_RxKey s) nonce aad of
        Err e \<Rightarrow> (Err (SessionError DecryptOrReplay), s)
      | Panic \<Rightarrow> (Panic, s)
      | Ok decrypted \<Rightarrow> (Ok decrypted, Touch now (s\<lparr>s_RxSequence := s_RxSequence s + 1\<rparr>)))"

definition Session_DecryptFrameUDP ::
    "primitives \<Rightarrow> time \<Rightarrow> frame \<Rightarrow> u64 \<Rightarrow> (session_state, frame) go_method" where
  "Session_DecryptFrameUDP P now f sequence s =
     (if f_Flags f AND FlagEncrypted = 0 then (Err (SessionError FrameNotEncrypted), s)
      else if s_ReplayMode s \<noteq> ReplayModeSlidingUDP then (Err (SessionError UdpModeRequired), s)
      else case validateCandidate (s_udpReplayWindow s) sequence of
        Err e \<Rightarrow> (Err e, s)
      | Panic \<Rightarrow> (Panic, s)
      | Ok _ \<Rightarrow>
      let nonce = DeriveNonce (s_SessionID s) (s_RxKey s) (rxDirection s) sequence;
          aad = BuildAAD f (s_RxEpoch s) sequence in
      case DecryptFrame P f (s_RxKey s) nonce aad of
        Err e \<Rightarrow> (Err (SessionError DecryptFailed), s)
      | Panic \<Rightarrow> (Panic, s)
      | Ok decrypted \<Rightarrow>
      case markSeen (s_udpReplayWindow s) sequence of
        Err e \<Rightarrow> (Err e, s)
      | Panic \<Rightarrow> (Panic, s)
      | Ok w \<Rightarrow> (Ok decrypted, Touch now (s\<lparr>s_udpReplayWindow := w\<rparr>)))"

definition RekeyOutbound :: "time \<Rightarrow> session_state \<Rightarrow> session_state" where
  "RekeyOutbound now s =
     s\<lparr>s_TxKey := RekeyMaterial (s_TxKey s) (s_SessionID s) (txDirection s),
       s_TxEpoch := s_TxEpoch s + 1, s_TxSequence := 0, s_TxBytesInEpoch := 0,
       s_TxEpochStarted := now, s_rekeyRequired := False, s_rekeyReason := None\<rparr>"

definition RekeyInbound :: "session_state \<Rightarrow> session_state" where
  "RekeyInbound s =
     s\<lparr>s_RxKey := RekeyMaterial (s_RxKey s) (s_SessionID s) (rxDirection s),
       s_RxEpoch := s_RxEpoch s + 1, s_RxSequence := 0, s_udpReplayWindow := empty_window\<rparr>"

section \<open>What each operation does\<close>

lemma refreshRekeyTrigger_frame [simp]:
  "s_Role (refreshRekeyTrigger t s) = s_Role s" "s_SessionID (refreshRekeyTrigger t s) = s_SessionID s"
  "s_TxKey (refreshRekeyTrigger t s) = s_TxKey s" "s_RxKey (refreshRekeyTrigger t s) = s_RxKey s"
  "s_TxEpoch (refreshRekeyTrigger t s) = s_TxEpoch s" "s_RxEpoch (refreshRekeyTrigger t s) = s_RxEpoch s"
  "s_TxSequence (refreshRekeyTrigger t s) = s_TxSequence s"
  "s_RxSequence (refreshRekeyTrigger t s) = s_RxSequence s"
  "s_LastSeen (refreshRekeyTrigger t s) = s_LastSeen s"
  "s_ReplayMode (refreshRekeyTrigger t s) = s_ReplayMode s"
  "s_TxBytesInEpoch (refreshRekeyTrigger t s) = s_TxBytesInEpoch s"
  "s_TxEpochStarted (refreshRekeyTrigger t s) = s_TxEpochStarted s"
  "s_RekeyMaxBytes (refreshRekeyTrigger t s) = s_RekeyMaxBytes s"
  "s_RekeyMaxAge (refreshRekeyTrigger t s) = s_RekeyMaxAge s"
  "s_udpReplayWindow (refreshRekeyTrigger t s) = s_udpReplayWindow s"
  by (simp_all add: refreshRekeyTrigger_def)

lemma directions_frame [simp]:
  "txDirection (refreshRekeyTrigger t s) = txDirection s" "txDirection (Touch t s) = txDirection s"
  "rxDirection (refreshRekeyTrigger t s) = rxDirection s" "rxDirection (Touch t s) = rxDirection s"
  by (simp_all add: txDirection_def rxDirection_def Touch_def)

lemma max_eq: "maxUint64 v m = max v m" "maxDuration x y = max x y"
  by (auto simp: maxUint64_def maxDuration_def max_def)

text \<open>The product of seconds and nanoseconds does not overflow, so the limits of a session are
  those of the handshake, with the minimum applied.\<close>

lemma rekey_limits:
  "s_RekeyMaxAge (FromHandshakeOutput now out) = max (uint (ho_MaxRekeySeconds out) * second_ns) second_ns"
  "s_RekeyMaxBytes (FromHandshakeOutput now out) = max (ho_MaxRekeyBytes out) 1"
proof -
  have "uint (ho_MaxRekeySeconds out) < 2 ^ 32"
    using uint_range_size [of "ho_MaxRekeySeconds out"] by (simp add: word_size)
  moreover have "go_int (x * second_ns) = x * second_ns" if "0 \<le> x" "x < 2 ^ 32" for x :: int
    using that by (intro go_int_id) (simp_all add: second_ns_def)
  ultimately have "go_int (uint (ho_MaxRekeySeconds out) * second_ns) = uint (ho_MaxRekeySeconds out) * second_ns"
    by simp
  then show "s_RekeyMaxAge (FromHandshakeOutput now out) = max (uint (ho_MaxRekeySeconds out) * second_ns) second_ns"
    by (simp add: FromHandshakeOutput_def max_eq)
  show "s_RekeyMaxBytes (FromHandshakeOutput now out) = max (ho_MaxRekeyBytes out) 1"
    by (simp add: FromHandshakeOutput_def max_eq)
qed

lemma less_MaxUint64: "unat n < 2 ^ 64 - 1 \<longleftrightarrow> n \<noteq> MaxUint64"
proof -
  have "unat n = 2 ^ 64 - 1 \<longleftrightarrow> n = MaxUint64"
    by (subst word_unat_eq_iff) (simp add: MaxUint64_def)
  moreover have "unat n < 2 ^ 64" by (rule unat64_less)
  ultimately show ?thesis by linarith
qed

lemma MaxUint64_next: "n \<noteq> MaxUint64 \<Longrightarrow> unat (n + 1) = unat n + 1"
  using less_MaxUint64 [of n] by (simp add: unat_plus_if')

text \<open>The record a frame becomes, and when each operation produces it.\<close>

definition tx_nonce :: "session_state \<Rightarrow> bytes" where
  "tx_nonce s = DeriveNonce (s_SessionID s) (s_TxKey s) (txDirection s) (s_TxSequence s)"

definition sealed_frame :: "primitives \<Rightarrow> frame \<Rightarrow> session_state \<Rightarrow> frame" where
  "sealed_frame P f s = \<lparr>f_Version = f_Version f, f_MsgType = f_MsgType f,
     f_Flags = f_Flags f OR FlagEncrypted,
     f_Payload = p_seal P (s_TxKey s) (tx_nonce s) (f_Payload f)
       (BuildAAD f (s_TxEpoch s) (s_TxSequence s))\<rparr>"

definition after_seal :: "primitives \<Rightarrow> time \<Rightarrow> time \<Rightarrow> frame \<Rightarrow> session_state \<Rightarrow> session_state" where
  "after_seal P tTrig now f s = Touch now (refreshRekeyTrigger tTrig (s\<lparr>
     s_TxSequence := s_TxSequence s + 1,
     s_TxBytesInEpoch := s_TxBytesInEpoch s + of_nat (length (f_Payload (sealed_frame P f s)))\<rparr>))"

lemma Session_EncryptFrame_Ok_iff:
  "Session_EncryptFrame P tTrig now f s = (Ok g, s') \<longleftrightarrow>
     \<not> encrypted f \<and> s_TxSequence s \<noteq> MaxUint64 \<and> p_aead_key_ok P (s_TxKey s) \<and>
     g = sealed_frame P f s \<and> s' = after_seal P tTrig now f s"
  by (auto simp: Session_EncryptFrame_def encrypted_def EncryptFrame_def Let_def sealed_frame_def
      tx_nonce_def after_seal_def)

lemma Session_EncryptFrame_not_Ok:
  "\<not> is_Ok (fst (Session_EncryptFrame P tTrig now f s)) \<Longrightarrow>
     snd (Session_EncryptFrame P tTrig now f s) = s \<and> fst (Session_EncryptFrame P tTrig now f s) \<noteq> Panic"
  by (auto simp: Session_EncryptFrame_def EncryptFrame_def Let_def split: if_splits)

lemma after_seal_sel [simp]:
  "s_Role (after_seal P a b f s) = s_Role s" "s_SessionID (after_seal P a b f s) = s_SessionID s"
  "s_TxKey (after_seal P a b f s) = s_TxKey s" "s_RxKey (after_seal P a b f s) = s_RxKey s"
  "s_TxEpoch (after_seal P a b f s) = s_TxEpoch s" "s_RxEpoch (after_seal P a b f s) = s_RxEpoch s"
  "s_TxSequence (after_seal P a b f s) = s_TxSequence s + 1"
  "s_RxSequence (after_seal P a b f s) = s_RxSequence s"
  "s_LastSeen (after_seal P a b f s) = b"
  "s_ReplayMode (after_seal P a b f s) = s_ReplayMode s"
  "s_udpReplayWindow (after_seal P a b f s) = s_udpReplayWindow s"
  "txDirection (after_seal P a b f s) = txDirection s"
  "rxDirection (after_seal P a b f s) = rxDirection s"
  by (simp_all add: after_seal_def Touch_def txDirection_def rxDirection_def)

text \<open>What a receiver opens: the record under its receive key, epoch and a sequence number.\<close>

definition opened_frame :: "primitives \<Rightarrow> frame \<Rightarrow> session_state \<Rightarrow> u64 \<Rightarrow> frame outcome" where
  "opened_frame P g s q = DecryptFrame P g (s_RxKey s)
     (DeriveNonce (s_SessionID s) (s_RxKey s) (rxDirection s) q) (BuildAAD g (s_RxEpoch s) q)"

lemma Session_DecryptFrame_Ok_iff:
  "Session_DecryptFrame P now g s = (Ok f, s') \<longleftrightarrow>
     s_ReplayMode s = ReplayModeOrderedTCP \<and> s_RxSequence s \<noteq> MaxUint64 \<and>
     opened_frame P g s (s_RxSequence s) = Ok f \<and>
     s' = Touch now (s\<lparr>s_RxSequence := s_RxSequence s + 1\<rparr>)"
  by (auto simp: Session_DecryptFrame_def opened_frame_def encrypted_def Let_def
      dest: DecryptFrame_OkD(1) split: outcome.splits if_splits)

lemma Session_DecryptFrame_not_Ok:
  "\<not> is_Ok (fst (Session_DecryptFrame P now g s)) \<Longrightarrow>
     snd (Session_DecryptFrame P now g s) = s \<and> fst (Session_DecryptFrame P now g s) \<noteq> Panic"
  by (auto simp: Session_DecryptFrame_def Let_def cipher_never_panics split: outcome.splits if_splits)

lemma Session_DecryptFrameUDP_Ok_iff:
  "Session_DecryptFrameUDP P now g q s = (Ok f, s') \<longleftrightarrow>
     s_ReplayMode s = ReplayModeSlidingUDP \<and> validateCandidate (s_udpReplayWindow s) q = Ok () \<and>
     opened_frame P g s q = Ok f \<and>
     (\<exists>w. markSeen (s_udpReplayWindow s) q = Ok w \<and> s' = Touch now (s\<lparr>s_udpReplayWindow := w\<rparr>))"
  by (auto simp: Session_DecryptFrameUDP_def opened_frame_def encrypted_def Let_def
      dest: DecryptFrame_OkD(1) split: outcome.splits if_splits)

lemma Session_DecryptFrameUDP_not_Ok:
  "\<not> is_Ok (fst (Session_DecryptFrameUDP P now g q s)) \<Longrightarrow>
     snd (Session_DecryptFrameUDP P now g q s) = s"
  by (auto simp: Session_DecryptFrameUDP_def Let_def split: outcome.splits if_splits)

text \<open>Two sessions share a direction when what one seals under the other's receive state opens.\<close>

definition paired :: "session_state \<Rightarrow> session_state \<Rightarrow> bool" where
  "paired a b \<longleftrightarrow> s_SessionID a = s_SessionID b \<and> s_TxKey a = s_RxKey b \<and> length (s_TxKey a) = 32 \<and>
     txDirection a = rxDirection b \<and> s_TxEpoch a = s_RxEpoch b"

lemma open_sealed:
  assumes "aead_correct P" "paired a b" "\<not> encrypted f"
  shows "opened_frame P (sealed_frame P f a) b (s_TxSequence a) = Ok f"
proof -
  have enc: "EncryptFrame P f (s_TxKey a) (tx_nonce a) (BuildAAD f (s_TxEpoch a) (s_TxSequence a)) =
      Ok (sealed_frame P f a)"
    using assms(2) unfolding sealed_frame_def
    by (intro EncryptFrame_Ok [OF assms(1) _ assms(3)]) (auto simp: paired_def)
  have aad: "BuildAAD (sealed_frame P f a) (s_RxEpoch b) (s_TxSequence a) =
      BuildAAD f (s_TxEpoch a) (s_TxSequence a)"
    using assms(2) by (simp add: paired_def sealed_frame_def BuildAAD_encrypted)
  have "length (s_TxKey a) = 32" "length (tx_nonce a) = 12"
    using assms(2) by (auto simp: paired_def tx_nonce_def)
  from DecryptFrame_EncryptFrame [OF assms(1) this enc] show ?thesis
    using assms(2) by (simp add: opened_frame_def aad) (simp add: tx_nonce_def paired_def)
qed

lemma paired_rekey: "paired a b \<Longrightarrow> paired (RekeyOutbound t a) (RekeyInbound b)"
  by (simp add: paired_def RekeyOutbound_def RekeyInbound_def txDirection_def rxDirection_def)

lemma paired_after [simp]:
  "paired (after_seal P x y f a) b \<longleftrightarrow> paired a b"
  "paired a (Touch t (b\<lparr>s_RxSequence := q\<rparr>)) \<longleftrightarrow> paired a b"
  "paired a (Touch t (b\<lparr>s_udpReplayWindow := w\<rparr>)) \<longleftrightarrow> paired a b"
  by (simp_all add: paired_def Touch_def rxDirection_def)

text \<open>A handshake leaves both directions paired.\<close>

lemma handshake_paired:
  assumes "outputs_match i r oi ro"
  shows "paired (FromHandshakeOutput t oi) (FromHandshakeOutput u ro)"
    "paired (FromHandshakeOutput u ro) (FromHandshakeOutput t oi)"
  using assms
  by (auto simp: paired_def outputs_match_def FromHandshakeOutput_def txDirection_def
      rxDirection_def EndpointRoleInitiator_def EndpointRoleResponder_def)

section \<open>Properties\<close>

text \<open>Two ends of a concrete session, as a handshake leaves them.\<close>

definition sample_output :: "byte \<Rightarrow> handshake_output" where
  "sample_output role = \<lparr>ho_Role = role, ho_SessionID = 9,
     ho_TxKey = replicate 32 role, ho_RxKey = replicate 32 (3 - role),
     ho_PeerIdentity = blank_bundle, ho_NegotiatedCapabilityBit = 1, ho_NegotiatedMaxPayload = 50,
     ho_MaxRekeyBytes = 1000, ho_MaxRekeySeconds = 60\<rparr>"

definition sample_session :: "byte \<Rightarrow> session_state" where
  "sample_session role = FromHandshakeOutput 0 (sample_output role)"

lemma sample_session_sel [simp]:
  "s_TxKey (sample_session r) = replicate 32 r" "s_RxKey (sample_session r) = replicate 32 (3 - r)"
  "s_TxSequence (sample_session r) = 0" "s_RxSequence (sample_session r) = 0"
  "s_TxEpoch (sample_session r) = 0" "s_RxEpoch (sample_session r) = 0"
  "s_SessionID (sample_session r) = 9" "s_ReplayMode (sample_session r) = ReplayModeOrderedTCP"
  "s_udpReplayWindow (sample_session r) = empty_window" "s_rekeyRequired (sample_session r) = False"
  "s_TxBytesInEpoch (sample_session r) = 0" "s_RekeyMaxBytes (sample_session r) = 1000"
  by (simp_all add: sample_session_def FromHandshakeOutput_def sample_output_def maxUint64_def)

lemma sample_paired: "paired (sample_session 1) (sample_session 2)" "paired (sample_session 2) (sample_session 1)"
  by (simp_all add: paired_def)
    (simp_all add: txDirection_def rxDirection_def sample_session_def FromHandshakeOutput_def
      sample_output_def EndpointRoleInitiator_def)

definition sample_frame :: frame where
  "sample_frame = frame_New 0x10 0 [1, 2, 3]"

lemma sample_frame_plain: "\<not> encrypted sample_frame"
  by (simp add: sample_frame_def frame_New_def encrypted_def)

lemma sample_seals:
  "Session_EncryptFrame sample t u sample_frame (sample_session r) =
     (Ok (sealed_frame sample sample_frame (sample_session r)), after_seal sample t u sample_frame (sample_session r))"
  using sample_frame_plain
  by (simp add: Session_EncryptFrame_Ok_iff MaxUint64_def) (simp add: sample_def)

text \<open>C19: an operation on records that does not succeed leaves the session as it was: a refused
  encryption uses up no number, a refused record moves neither the counter nor the window.\<close>

theorem refused_records_leave_no_trace:
  "(\<not> is_Ok (fst (Session_EncryptFrame P t now f s)) \<longrightarrow> snd (Session_EncryptFrame P t now f s) = s) \<and>
   (\<not> is_Ok (fst (Session_DecryptFrame P now g s)) \<longrightarrow> snd (Session_DecryptFrame P now g s) = s) \<and>
   (\<not> is_Ok (fst (Session_DecryptFrameUDP P now g q s)) \<longrightarrow>
      snd (Session_DecryptFrameUDP P now g q s) = s)"
  using Session_EncryptFrame_not_Ok Session_DecryptFrame_not_Ok Session_DecryptFrameUDP_not_Ok by blast

theorem refused_records_leave_no_trace_witness:
  "fst (Session_DecryptFrame sample 5 sample_frame (sample_session 1)) = Err (SessionError FrameNotEncrypted) \<and>
   snd (Session_DecryptFrame sample 5 sample_frame (sample_session 1)) = sample_session 1"
proof -
  have e: "fst (Session_DecryptFrame sample 5 sample_frame (sample_session 1)) = Err (SessionError FrameNotEncrypted)"
    by (simp add: Session_DecryptFrame_def sample_frame_def frame_New_def)
  then have "\<not> is_Ok (fst (Session_DecryptFrame sample 5 sample_frame (sample_session 1)))" by simp
  with e refused_records_leave_no_trace [of sample 0 5 sample_frame "sample_session 1" sample_frame 0]
  show ?thesis by blast
qed

text \<open>C20: after a record is sealed a rekey is required exactly if it was before, or the bytes sealed
  in the epoch have reached the limit, or the epoch is old enough; a reason already given is kept,
  and bytes take precedence over age.\<close>

theorem rekey_trigger:
  assumes "Session_EncryptFrame P tTrig now f s = (Ok g, s')"
  defines "volume \<equiv> s_TxBytesInEpoch s + of_nat (length (f_Payload g))"
    and "age \<equiv> time_since tTrig (s_TxEpochStarted s)"
  shows "(IsRekeyRequired s' \<longleftrightarrow>
      IsRekeyRequired s \<or> s_RekeyMaxBytes s \<le> volume \<or> s_RekeyMaxAge s \<le> age) \<and>
    s_TxBytesInEpoch s' = volume \<and>
    (s_rekeyReason s' =
       (if IsRekeyRequired s then s_rekeyReason s
        else if s_RekeyMaxBytes s \<le> volume then Some RekeyReasonBytes
        else if s_RekeyMaxAge s \<le> age then Some RekeyReasonTime else s_rekeyReason s))"
  using assms(1)
  by (auto simp: Session_EncryptFrame_Ok_iff after_seal_def Touch_def refreshRekeyTrigger_def
      IsRekeyRequired_def volume_def age_def)

definition heavy_session :: session_state where
  "heavy_session = (sample_session 1)\<lparr>s_RekeyMaxBytes := 1\<rparr>"

theorem rekey_trigger_witness:
  "\<exists>g s'. Session_EncryptFrame sample 0 0 sample_frame heavy_session = (Ok g, s') \<and>
     RekeyReason s' = (RekeyReasonBytes, True)"
proof -
  obtain g s' where e: "Session_EncryptFrame sample 0 0 sample_frame heavy_session = (Ok g, s')"
    "g = sealed_frame sample sample_frame heavy_session"
    using sample_frame_plain
    by (simp add: Session_EncryptFrame_Ok_iff heavy_session_def MaxUint64_def sample_def)
  have "length (f_Payload g) = 19"
    by (simp add: e(2) sealed_frame_def sample_def sample_frame_def frame_New_def)
  with rekey_trigger [OF e(1)] have "s_rekeyReason s' = Some RekeyReasonBytes"
    by (simp add: heavy_session_def IsRekeyRequired_def)
  with e(1) show ?thesis by (simp add: RekeyReason_def)
qed

text \<open>C36: calling \<open>SetReplayMode\<close> with the sliding mode empties the window, so a record the session
  has just accepted, and would now reject, is accepted again.\<close>

theorem set_replay_mode_forgets:
  assumes "Session_DecryptFrameUDP P now g q s = (Ok f, s')" "window_rel (s_udpReplayWindow s) S"
  shows "\<not> is_Ok (fst (Session_DecryptFrameUDP P t g q s')) \<and>
    fst (Session_DecryptFrameUDP P t g q (SetReplayMode ReplayModeSlidingUDP s')) = Ok f"
proof -
  from assms(1) obtain w where a: "validateCandidate (s_udpReplayWindow s) q = Ok ()"
    "opened_frame P g s q = Ok f" "markSeen (s_udpReplayWindow s) q = Ok w"
    "s' = Touch now (s\<lparr>s_udpReplayWindow := w\<rparr>)"
    by (auto simp: Session_DecryptFrameUDP_Ok_iff)
  have "window_rel w (insert q S)" by (rule udp_filter.mark_inserts [OF assms(2) a(1,3)])
  then have "validateCandidate w q \<noteq> Ok ()" using udp_filter.accepts_fresh by blast
  then have no: "\<not> is_Ok (fst (Session_DecryptFrameUDP P t g q s'))"
    using Session_DecryptFrameUDP_Ok_iff [of P t g q s'] a(4)
    by (auto simp: is_Ok_iff Touch_def prod_eq_iff)
  let ?r = "SetReplayMode ReplayModeSlidingUDP s'"
  have o: "opened_frame P g ?r q = Ok f"
    using a(2,4) by (simp add: opened_frame_def SetReplayMode_def Let_def Touch_def rxDirection_def)
  have "validateCandidate empty_window q = Ok ()" by (simp add: validateCandidate_def empty_window_def)
  moreover obtain v where "markSeen empty_window q = Ok v"
    by (rule mark_init [OF window_rel_empty]) (simp_all add: empty_window_def)
  ultimately have "\<exists>s''. Session_DecryptFrameUDP P t g q ?r = (Ok f, s'')"
    using o by (simp add: Session_DecryptFrameUDP_Ok_iff) (simp add: SetReplayMode_def Let_def)
  with no show ?thesis by (metis fst_conv)
qed

theorem set_replay_mode_forgets_witness:
  "\<exists>g s'. Session_DecryptFrameUDP sample 0 g 0 (SetReplayMode ReplayModeSlidingUDP (sample_session 2)) =
       (Ok sample_frame, s') \<and>
     fst (Session_DecryptFrameUDP sample 1 g 0 (SetReplayMode ReplayModeSlidingUDP s')) = Ok sample_frame"
proof -
  let ?g = "sealed_frame sample sample_frame (sample_session 1)"
  let ?s = "SetReplayMode ReplayModeSlidingUDP (sample_session 2)"
  have win: "s_udpReplayWindow ?s = empty_window" "s_ReplayMode ?s = ReplayModeSlidingUDP"
    by (simp_all add: SetReplayMode_def Let_def)
  have "opened_frame sample ?g (sample_session 2) 0 = Ok sample_frame"
    using open_sealed [OF sample_aead sample_paired(1) sample_frame_plain] by simp
  then have o: "opened_frame sample ?g ?s 0 = Ok sample_frame"
    by (simp add: opened_frame_def SetReplayMode_def Let_def rxDirection_def)
  have "validateCandidate empty_window 0 = Ok ()" by (simp add: validateCandidate_def empty_window_def)
  moreover obtain v where "markSeen empty_window 0 = Ok v"
    by (rule mark_init [OF window_rel_empty]) (simp_all add: empty_window_def)
  ultimately obtain s' where s': "Session_DecryptFrameUDP sample 0 ?g 0 ?s = (Ok sample_frame, s')"
    using o win by (auto simp: Session_DecryptFrameUDP_Ok_iff)
  have "window_rel (s_udpReplayWindow ?s) {}" by (simp add: win window_rel_empty)
  from set_replay_mode_forgets [OF s' this, of 1] s' show ?thesis by blast
qed

end
