(* ===== verification/Router.thy ===== *)
theory Router
  imports App_Inbox Session
begin

unbundle bit_operations_syntax

text \<open>
  Package \<open>transport/router\<close>: the map from message types to handlers, the two handlers the
  package has, and dispatch. A handler is its method \<open>Handle\<close>: it may change the
  environment and the session behind the pointer it is given (\<open>None\<close> is the nil pointer).

  The environment holds what is shared outside the client: the inbox queues, the clock and the
  process's inputs. The clock is the sequence of its readings with the number already taken;
  the random source is the list of the 32-byte reads still to come, \<open>None\<close> for one that fails.
\<close>

record env =
  ev_store :: store
  ev_clock :: "nat \<Rightarrow> time"
  ev_reads :: nat
  ev_random :: "bytes option list"
  ev_getenv :: "string \<Rightarrow> bytes"

text \<open>\<open>time.Now()\<close>.\<close>

definition Now :: "env \<Rightarrow> time \<times> env" where
  "Now e = (ev_clock e (ev_reads e), e\<lparr>ev_reads := Suc (ev_reads e)\<rparr>)"

text \<open>The methods of \<open>State\<close> on a session pointer, reading the clock.\<close>

definition touch_session :: "env \<times> session_state option \<Rightarrow> env \<times> session_state option" where
  "touch_session es = (case es of
      (e, None) \<Rightarrow> (e, None)
    | (e, Some s) \<Rightarrow> let (now, e) = Now e in (e, Some (Touch now s)))"

type_synonym frame_handler = "frame \<Rightarrow> (env \<times> session_state option, unit) go_method"

record router =
  rt_handlers :: "byte \<rightharpoonup> frame_handler"

definition New_Router :: router where
  "New_Router = \<lparr>rt_handlers = Map.empty\<rparr>"

definition RegisterHandler :: "byte \<Rightarrow> frame_handler \<Rightarrow> router \<Rightarrow> router" where
  "RegisterHandler msgType h r = r\<lparr>rt_handlers := (rt_handlers r)(msgType \<mapsto> h)\<rparr>"

definition Dispatch :: "router \<Rightarrow> frame \<Rightarrow> (env \<times> session_state option, unit) go_method" where
  "Dispatch r f es = (case rt_handlers r (f_MsgType f) of
      None \<Rightarrow> (Err (ClientError (NoHandler (f_MsgType f))), es)
    | Some h \<Rightarrow> h f es)"

definition AppMessageHandler :: "inbox \<Rightarrow> frame_handler" where
  "AppMessageHandler i f es = (case FromFrame f of
      Err err \<Rightarrow> (Err err, es)
    | Panic \<Rightarrow> (Panic, es)
    | Ok msg \<Rightarrow> (case es of (e, sess) \<Rightarrow>
        (case Inbox_Push i msg (ev_store e) of
           (Ok _, st) \<Rightarrow> (Ok (), touch_session (e\<lparr>ev_store := st\<rparr>, sess))
         | (Err err, st) \<Rightarrow> (Err err, es)
         | (Panic, st) \<Rightarrow> (Panic, es))))"

definition HeartbeatHandler :: frame_handler where
  "HeartbeatHandler f es = (Ok (), touch_session es)"

definition WithDefaults :: router where
  "WithDefaults = RegisterHandler MsgHeartbeat HeartbeatHandler New_Router"

definition WithAppDefaults :: "inbox \<Rightarrow> router" where
  "WithAppDefaults i = RegisterHandler MsgAppMessage (AppMessageHandler i) WithDefaults"

section \<open>Dispatch\<close>

lemma Dispatch_register:
  "Dispatch (RegisterHandler t h r) f es = (if f_MsgType f = t then h f es else Dispatch r f es)"
  by (simp add: Dispatch_def RegisterHandler_def)

lemma Dispatch_New: "Dispatch New_Router f es = (Err (ClientError (NoHandler (f_MsgType f))), es)"
  by (simp add: Dispatch_def New_Router_def)

lemma message_types_differ: "MsgAppMessage \<noteq> MsgHeartbeat" "MsgHeartbeat \<noteq> MsgAppMessage"
  by (simp_all add: MsgAppMessage_def MsgHeartbeat_def)

text \<open>The router of a client: what it does with each kind of frame.\<close>

lemma Dispatch_WithAppDefaults:
  "Dispatch (WithAppDefaults i) f es =
     (if f_MsgType f = MsgAppMessage then AppMessageHandler i f es
      else if f_MsgType f = MsgHeartbeat then (Ok (), touch_session es)
      else (Err (ClientError (NoHandler (f_MsgType f))), es))"
  by (simp add: WithAppDefaults_def WithDefaults_def Dispatch_register Dispatch_New
      HeartbeatHandler_def)

lemma AppMessageHandler_Ok:
  assumes "FromFrame f = Ok m"
  shows "AppMessageHandler (Some r) f (e, sess) =
    (Ok (), touch_session (e\<lparr>ev_store := push_ref r m (ev_store e)\<rparr>, sess))"
  using assms by (simp add: AppMessageHandler_def Inbox_Push_def push_ref_def)

lemma touch_session_store: "ev_store (fst (touch_session (e, sess))) = ev_store e"
  by (cases sess) (simp_all add: touch_session_def Now_def)

lemma touch_session_None: "snd (touch_session (e, sess)) = None \<longleftrightarrow> sess = None"
  by (cases sess) (simp_all add: touch_session_def Now_def)

text \<open>A frame whose message does not parse, or for which there is no handler, changes nothing.\<close>

lemma Dispatch_Err_unchanged:
  assumes "Dispatch (WithAppDefaults (Some r)) f es = (Err err, es')"
  shows "es' = es"
  using assms
  by (cases es)
     (auto simp: Dispatch_WithAppDefaults AppMessageHandler_def Inbox_Push_def
        split: if_splits outcome.splits)

text \<open>Every application message sent is put at the end of the inbox, and nothing else is.\<close>

lemma Dispatch_delivers:
  assumes "message_valid m"
  shows "Dispatch (WithAppDefaults (Some r)) (Message_ToFrame m) (e, sess) =
    (Ok (), touch_session (e\<lparr>ev_store := push_ref r m (ev_store e)\<rparr>, sess))"
proof -
  have "FromFrame (Message_ToFrame m) = Ok m" by (rule FromFrame_ToFrame [OF assms])
  moreover have "f_MsgType (Message_ToFrame m) = MsgAppMessage"
    by (simp add: Message_ToFrame_def frame_New_def)
  ultimately show ?thesis by (simp add: Dispatch_WithAppDefaults AppMessageHandler_Ok)
qed

lemma Dispatch_inbox:
  assumes "Dispatch (WithAppDefaults (Some r)) f (e, sess) = (res, (e', sess'))"
  shows "st_queue (ev_store e') r = st_queue (ev_store e) r @
    (if f_MsgType f = MsgAppMessage then (case FromFrame f of Ok m \<Rightarrow> [m] | _ \<Rightarrow> []) else [])"
proof -
  have st: "ev_store e' = ev_store x" if "touch_session (x, sess) = (e', sess')" for x
    using touch_session_store [of x sess] that by simp
  show ?thesis
    using assms
    by (auto simp: Dispatch_WithAppDefaults AppMessageHandler_def Inbox_Push_def message_types_differ
        dest!: st split: if_splits outcome.splits)
qed

section \<open>Properties\<close>

text \<open>C32: the router of a client puts exactly the well-formed application messages into its inbox, in
  the order they come, and touches no other inbox; a frame it refuses changes nothing; and a frame
  it takes marks the session as seen at the time it is handled.\<close>

theorem router_dispatch:
  assumes "Dispatch (WithAppDefaults (Some r)) f (e, sess) = (res, (e', sess'))"
  shows "st_queue (ev_store e') r = st_queue (ev_store e) r @
      (if f_MsgType f = MsgAppMessage then (case FromFrame f of Ok m \<Rightarrow> [m] | _ \<Rightarrow> []) else []) \<and>
    (q \<noteq> r \<longrightarrow> st_queue (ev_store e') q = st_queue (ev_store e) q) \<and>
    (\<not> is_Ok res \<longrightarrow> e' = e \<and> sess' = sess) \<and>
    (is_Ok res \<longrightarrow> sess' = map_option (Touch (ev_clock e (ev_reads e))) sess)"
proof -
  have t: "touch_session (x, None) = (x, None)"
    "touch_session (x, Some s) = (snd (Now x), Some (Touch (ev_clock x (ev_reads x)) s))" for x s
    by (simp_all add: touch_session_def Now_def)
  have "(q \<noteq> r \<longrightarrow> st_queue (ev_store e') q = st_queue (ev_store e) q) \<and>
    (\<not> is_Ok res \<longrightarrow> e' = e \<and> sess' = sess) \<and>
    (is_Ok res \<longrightarrow> sess' = map_option (Touch (ev_clock e (ev_reads e))) sess)"
    using assms
    by (cases sess; cases "FromFrame f")
       (auto simp: Dispatch_WithAppDefaults AppMessageHandler_def Inbox_Push_def t Now_def
         split: if_splits)
  with Dispatch_inbox [OF assms] show ?thesis by blast
qed

definition sample_env :: env where
  "sample_env = \<lparr>ev_store = \<lparr>st_next = 1, st_queue = \<lambda>_. []\<rparr>, ev_clock = \<lambda>n. int n, ev_reads = 0,
     ev_random = [], ev_getenv = \<lambda>_. []\<rparr>"

theorem router_dispatch_witness:
  "\<exists>e. Dispatch (WithAppDefaults (Some 0)) (Message_ToFrame (NewMessage 1 2 3 [4])) (sample_env, None) =
      (Ok (), (e, None)) \<and> st_queue (ev_store e) 0 = [NewMessage 1 2 3 [4]]"
proof -
  have m: "message_valid (NewMessage 1 2 3 [4])" by (simp add: message_valid_def NewMessage_def maxAppPayload_nat)
  obtain e where d: "Dispatch (WithAppDefaults (Some 0)) (Message_ToFrame (NewMessage 1 2 3 [4])) (sample_env, None) =
      (Ok (), (e, None))"
    using Dispatch_delivers [OF m] by (simp add: touch_session_def)
  from router_dispatch [OF d, of 0] d show ?thesis
    by (simp add: FromFrame_ToFrame [OF m] ToFrame_header sample_env_def)
qed

end
