(* ===== verification/Env_Config.thy ===== *)
theory Env_Config
  imports Router Handshake
begin

unbundle bit_operations_syntax

text \<open>
  The configuration a client takes from environment variables (\<open>transport/tcp/client.go\<close>): its
  identity from two hex strings, the pinned keys from a comma-separated list, and the validity
  of its bundle. The variables are read through the environment's \<open>ev_getenv\<close>; an unset
  variable is the empty string, as \<open>os.Getenv\<close> has it.
\<close>

definition identityEdSeedEnv :: string where
  "identityEdSeedEnv = ''SHADOWLARK_IDENTITY_ED25519_SEED_HEX''"

definition identityXPrivEnv :: string where
  "identityXPrivEnv = ''SHADOWLARK_IDENTITY_X25519_PRIVATE_HEX''"

definition identityKeyIDEnv :: string where
  "identityKeyIDEnv = ''SHADOWLARK_IDENTITY_KEY_ID''"

definition identityValidityEnv :: string where
  "identityValidityEnv = ''SHADOWLARK_IDENTITY_VALIDITY_S''"

definition trustPinsEnv :: string where
  "trustPinsEnv = ''SHADOWLARK_TRUST_ED25519_HEX''"

text \<open>The names only go into the text of the errors.\<close>

definition parseHexBytes :: "bytes \<Rightarrow> env_error + bytes" where
  "parseHexBytes v =
     (if length v mod 2 \<noteq> 0 then Inl OddHex
      else case hex_DecodeString v of None \<Rightarrow> Inl InvalidHex | Some out \<Rightarrow> Inr out)"

definition parseOptionalUint64Env :: "env \<Rightarrow> string \<Rightarrow> u64 outcome" where
  "parseOptionalUint64Env e name =
     (let raw = TrimSpace (ev_getenv e name) in
      if raw = [] then Ok 0
      else case ParseUint raw of None \<Rightarrow> Err (EnvError NotUnsigned) | Some value \<Rightarrow> Ok value)"

definition lift_env :: "env_error + 'a \<Rightarrow> 'a outcome" where
  "lift_env r = (case r of Inl e \<Rightarrow> Err (EnvError e) | Inr x \<Rightarrow> Ok x)"

definition buildIdentityFromEnv :: "primitives \<Rightarrow> env \<Rightarrow> identity_keypair outcome" where
  "buildIdentityFromEnv P e =
     (let edSeedHex = TrimSpace (ev_getenv e identityEdSeedEnv);
          xPrivHex = TrimSpace (ev_getenv e identityXPrivEnv) in
      if edSeedHex = [] \<and> xPrivHex = [] then Err (EnvError IdentityEnvUnset)
      else if edSeedHex = [] \<or> xPrivHex = [] then Err (EnvError IdentityEnvTogether)
      else
      obind (lift_env (parseHexBytes edSeedHex)) (\<lambda>edSeedBytes.
      obind (lift_env (parseHexBytes xPrivHex)) (\<lambda>xPrivBytes.
      if length edSeedBytes \<noteq> 32 then Err (EnvError (EdSeedLength (length edSeedBytes)))
      else if length xPrivBytes \<noteq> 32 then Err (EnvError (XPrivLength (length xPrivBytes)))
      else IdentityKeypairFromSeeds P (arr 32 edSeedBytes) (arr 32 xPrivBytes))))"

text \<open>The loop over the tokens, with their index and the number of pins so far.\<close>

fun pin_loop :: "nat \<Rightarrow> bytes list \<Rightarrow> trust_store \<Rightarrow> nat \<Rightarrow> (trust_store \<times> nat) outcome" where
  "pin_loop idx [] trust pinCount = Ok (trust, pinCount)"
| "pin_loop idx (token # tokens) trust pinCount =
     (let pinHex = TrimSpace token in
      if pinHex = [] then pin_loop (idx + 1) tokens trust pinCount
      else case parseHexBytes pinHex of
          Inl err \<Rightarrow> Err (EnvError (PinInvalid idx err))
        | Inr pinBytes \<Rightarrow>
            if length pinBytes \<noteq> 32 then Err (EnvError (PinLength idx (length pinBytes)))
            else pin_loop (idx + 1) tokens (Pin (arr 32 pinBytes) trust) (pinCount + 1))"

definition comma :: byte where "comma = 0x2C"

definition buildTrustStoreFromEnv :: "env \<Rightarrow> trust_store outcome" where
  "buildTrustStoreFromEnv e =
     (let raw = TrimSpace (ev_getenv e trustPinsEnv) in
      if raw = [] then Err (EnvError TrustPinsUnset)
      else obind (pin_loop 0 (Split comma raw) StrictTrustStore 0) (\<lambda>(trust, pinCount).
        if pinCount = 0 then Err (EnvError NoValidPin) else Ok trust))"

section \<open>The pins of the list\<close>

text \<open>A token that is not blank is a pin when it is the hex of 32 bytes.\<close>

definition pin_of :: "bytes \<Rightarrow> bytes option" where
  "pin_of token = (case parseHexBytes (TrimSpace token) of
      Inl _ \<Rightarrow> None | Inr b \<Rightarrow> if length b = 32 then Some b else None)"

definition blank :: "bytes \<Rightarrow> bool" where
  "blank token \<longleftrightarrow> TrimSpace token = []"

lemma pin_loop_Ok_iff:
  "pin_loop idx tokens trust n = Ok (t, m) \<longleftrightarrow>
     (let pins = map pin_of (filter (\<lambda>w. \<not> blank w) tokens) in
      None \<notin> set pins \<and> t = fold (\<lambda>k. Pin (the k)) pins trust \<and> m = n + length pins)"
proof (induction idx tokens trust n rule: pin_loop.induct)
  case (2 idx token tokens trust n)
  then show ?case
    by (cases "parseHexBytes (TrimSpace token)") (auto simp: Let_def blank_def pin_of_def)
qed auto

lemma IsTrusted_fold_Pin:
  "IsTrusted (fold (\<lambda>k. Pin (the k)) ks t) k \<longleftrightarrow> k \<in> the ` set ks \<or> IsTrusted t k"
  by (induction ks arbitrary: t) (auto simp: IsTrusted_Pin)

lemma buildTrustStoreFromEnv_Ok:
  assumes "buildTrustStoreFromEnv e = Ok t"
  defines "tokens \<equiv> Split comma (TrimSpace (ev_getenv e trustPinsEnv))"
  shows "(\<forall>w\<in>set tokens. blank w \<or> pin_of w \<noteq> None) \<and> (\<exists>w\<in>set tokens. pin_of w \<noteq> None) \<and>
    (\<forall>k. IsTrusted t k \<longleftrightarrow> (\<exists>w\<in>set tokens. \<not> blank w \<and> pin_of w = Some k))"
proof -
  let ?pins = "map pin_of (filter (\<lambda>w. \<not> blank w) tokens)"
  from assms(1) obtain n where n: "pin_loop 0 tokens StrictTrustStore 0 = Ok (t, n)" "n \<noteq> 0"
    by (auto simp: buildTrustStoreFromEnv_def tokens_def Let_def obind_eq_Ok split: if_splits)
  have "None \<notin> set ?pins \<and> t = fold (\<lambda>k. Pin (the k)) ?pins StrictTrustStore \<and> n = length ?pins"
    using n(1) unfolding pin_loop_Ok_iff Let_def add_0 .
  then have p: "None \<notin> set ?pins" "t = fold (\<lambda>k. Pin (the k)) ?pins StrictTrustStore"
    "n = length ?pins" by blast+
  have good: "\<forall>w\<in>set tokens. blank w \<or> pin_of w \<noteq> None" using p(1) by force
  have "filter (\<lambda>w. \<not> blank w) tokens \<noteq> []" using n(2) p(3) by force
  then have "\<exists>w\<in>set tokens. \<not> blank w" by (auto simp: filter_empty_conv)
  with good have some: "\<exists>w\<in>set tokens. pin_of w \<noteq> None" by blast
  have "IsTrusted t k \<longleftrightarrow> (\<exists>w\<in>set tokens. \<not> blank w \<and> pin_of w = Some k)" for k
    using good by (auto simp: p(2) IsTrusted_fold_Pin IsTrusted_Strict image_iff) force+
  with good some show ?thesis by blast
qed

text \<open>An identity from the environment is an honest one.\<close>

lemma buildIdentityFromEnv_ok:
  assumes "buildIdentityFromEnv P e = Ok k"
  shows "identity_ok P k"
  using assms
  by (auto simp: buildIdentityFromEnv_def Let_def obind_eq_Ok lift_env_def identity_ok_def
      split: if_splits sum.splits)

section \<open>Properties\<close>

text \<open>C23: the trust store read from the environment trusts exactly the keys listed: every token of the
  list is blank or the hex of 32 bytes, at least one is a key, and a key is trusted if and only if
  it is one of them. Any other list is an error, never a smaller store.\<close>

theorem trust_store_from_env:
  assumes "buildTrustStoreFromEnv e = Ok t"
  shows "(\<forall>w\<in>set (Split comma (TrimSpace (ev_getenv e trustPinsEnv))). blank w \<or> pin_of w \<noteq> None) \<and>
    (\<exists>w\<in>set (Split comma (TrimSpace (ev_getenv e trustPinsEnv))). pin_of w \<noteq> None) \<and>
    (IsTrusted t k \<longleftrightarrow>
      (\<exists>w\<in>set (Split comma (TrimSpace (ev_getenv e trustPinsEnv))). \<not> blank w \<and> pin_of w = Some k))"
  using buildTrustStoreFromEnv_Ok [OF assms] by blast

text \<open>A list with one key, whose 32 bytes are all \<open>0x11\<close>.\<close>

definition pins_env :: env where
  "pins_env = sample_env\<lparr>ev_getenv := (\<lambda>name. replicate 64 0x31)\<rparr>"

lemma hex_ones: "hex_DecodeString (replicate (2 * n) 0x31) = Some (replicate n 0x11)"
  by (induction n) (simp_all add: hex_digit_def)

lemma trim_ones: "TrimSpace (replicate (Suc n) 0x31) = replicate (Suc n) 0x31"
proof -
  have l: "trim_left space_encodings (replicate (Suc n) 0x31) = replicate (Suc n) 0x31"
    by (subst trim_left.simps) (simp add: space_encodings_def take_Cons')
  have r: "trim_left (map rev space_encodings) (replicate (Suc n) 0x31) = replicate (Suc n) 0x31"
    by (subst trim_left.simps) (simp add: space_encodings_def take_Cons')
  show ?thesis by (simp only: TrimSpace_def l rev_replicate r)
qed

lemma split_ones: "Split comma (replicate n 0x31) = [replicate n 0x31]"
  by (induction n) (simp_all add: comma_def)

lemma pins_env_Ok: "buildTrustStoreFromEnv pins_env = Ok (Pin (replicate 32 0x11) StrictTrustStore)"
proof -
  have t: "TrimSpace (replicate 64 0x31) = replicate 64 0x31" using trim_ones [of 63] by simp
  have h: "hex_DecodeString (replicate 64 0x31) = Some (replicate 32 0x11)" using hex_ones [of 32] by simp
  have g: "ev_getenv pins_env n = replicate 64 0x31" for n by (simp add: pins_env_def)
  show ?thesis
    by (simp only: buildTrustStoreFromEnv_def g Let_def t split_ones pin_loop.simps
        parseHexBytes_def h) simp
qed

theorem trust_store_from_env_witness:
  "\<exists>t. buildTrustStoreFromEnv pins_env = Ok t \<and> IsTrusted t (replicate 32 0x11) \<and> \<not> IsTrusted t []"
proof -
  from trust_store_from_env [OF pins_env_Ok, of "[]"]
  have "\<not> IsTrusted (Pin (replicate 32 0x11) StrictTrustStore) []"
    by (auto simp: pin_of_def split: sum.splits if_splits)
  moreover have "IsTrusted (Pin (replicate 32 0x11) StrictTrustStore) (replicate 32 0x11)"
    by (simp add: IsTrusted_Pin)
  ultimately show ?thesis using pins_env_Ok by blast
qed

end
