(* ===== verification/Record_Calls.thy ===== *)
theory Record_Calls
  imports Session
begin

unbundle bit_operations_syntax

text \<open>
  What a session hands to the AEAD. The operations of a session are run once more with a cipher that
  returns one of its arguments, so the key, the nonce and the additional data of a call are read
  off the code's own use of the cipher and not off the state. The logs of \<open>Session_Trace\<close> and
  \<open>Secure_Channel\<close> are made of these calls.
\<close>

text \<open>A call that succeeded; \<open>ac_text\<close> is the ciphertext, the output of \<open>Seal\<close> or the input of \<open>Open\<close>.\<close>

record aead_call =
  ac_key :: bytes
  ac_nonce :: bytes
  ac_text :: bytes
  ac_aad :: bytes

definition payload_of :: "frame outcome \<times> 's \<Rightarrow> bytes" where
  "payload_of r = (case fst r of Ok g \<Rightarrow> f_Payload g | _ \<Rightarrow> [])"

definition showing_seal :: "(bytes \<Rightarrow> bytes \<Rightarrow> bytes \<Rightarrow> bytes \<Rightarrow> bytes) \<Rightarrow> primitives \<Rightarrow> primitives" where
  "showing_seal w P = P\<lparr>p_seal := w\<rparr>"

definition showing_open :: "(bytes \<Rightarrow> bytes \<Rightarrow> bytes \<Rightarrow> bytes \<Rightarrow> bytes) \<Rightarrow> primitives \<Rightarrow> primitives" where
  "showing_open w P = P\<lparr>p_open := \<lambda>k n c a. Some (w k n c a)\<rparr>"

definition seal_call :: "(primitives \<Rightarrow> frame outcome \<times> 's) \<Rightarrow> primitives \<Rightarrow> aead_call" where
  "seal_call enc P = \<lparr>ac_key = payload_of (enc (showing_seal (\<lambda>k n p a. k) P)),
     ac_nonce = payload_of (enc (showing_seal (\<lambda>k n p a. n) P)),
     ac_text = payload_of (enc P),
     ac_aad = payload_of (enc (showing_seal (\<lambda>k n p a. a) P))\<rparr>"

definition open_call :: "(primitives \<Rightarrow> frame outcome \<times> 's) \<Rightarrow> primitives \<Rightarrow> aead_call" where
  "open_call dec P = \<lparr>ac_key = payload_of (dec (showing_open (\<lambda>k n c a. k) P)),
     ac_nonce = payload_of (dec (showing_open (\<lambda>k n c a. n) P)),
     ac_text = payload_of (dec (showing_open (\<lambda>k n c a. c) P)),
     ac_aad = payload_of (dec (showing_open (\<lambda>k n c a. a) P))\<rparr>"

text \<open>The epoch and the sequence number as they stand in the additional data, and the sequence
  number as it stands in the nonce.\<close>

definition call_position :: "aead_call \<Rightarrow> bytes" where
  "call_position c = take 12 (drop 3 (ac_aad c))"

definition call_number :: "aead_call \<Rightarrow> bytes" where
  "call_number c = drop 4 (ac_nonce c)"

section \<open>The calls of each operation\<close>

lemma showing_sel [simp]:
  "p_aead_key_ok (showing_seal w P) = p_aead_key_ok P" "p_seal (showing_seal w P) = w"
  "p_aead_key_ok (showing_open w P) = p_aead_key_ok P"
  "p_open (showing_open w P) k n c a = Some (w k n c a)"
  by (simp_all add: showing_seal_def showing_open_def)

lemma seal_call_eq:
  assumes "Session_EncryptFrame P tTrig now f s = (Ok g, s')"
  shows "seal_call (\<lambda>P. Session_EncryptFrame P tTrig now f s) P = \<lparr>ac_key = s_TxKey s, ac_nonce = tx_nonce s,
    ac_text = f_Payload g, ac_aad = BuildAAD f (s_TxEpoch s) (s_TxSequence s)\<rparr>"
proof -
  have "Session_EncryptFrame (showing_seal w P) tTrig now f s =
      (Ok (sealed_frame (showing_seal w P) f s), after_seal (showing_seal w P) tTrig now f s)" for w
    using assms by (simp add: Session_EncryptFrame_Ok_iff)
  with assms show ?thesis by (simp add: seal_call_def payload_of_def sealed_frame_def)
qed

lemma opened_shown:
  assumes "opened_frame P g s q = Ok f"
  shows "\<exists>h. opened_frame (showing_open w P) g s q = Ok h \<and> f_Payload h = w (s_RxKey s)
    (DeriveNonce (s_SessionID s) (s_RxKey s) (rxDirection s) q) (f_Payload g) (BuildAAD g (s_RxEpoch s) q)"
  using assms by (auto simp: opened_frame_def DecryptFrame_def split: if_splits option.splits)

definition expected_open :: "frame \<Rightarrow> session_state \<Rightarrow> u64 \<Rightarrow> aead_call" where
  "expected_open g s q = \<lparr>ac_key = s_RxKey s,
     ac_nonce = DeriveNonce (s_SessionID s) (s_RxKey s) (rxDirection s) q,
     ac_text = f_Payload g, ac_aad = BuildAAD g (s_RxEpoch s) q\<rparr>"

lemma open_call_eq:
  assumes "Session_DecryptFrame P now g s = (Ok f, s')"
  shows "open_call (\<lambda>P. Session_DecryptFrame P now g s) P = expected_open g s (s_RxSequence s)"
proof -
  have ok: "opened_frame P g s (s_RxSequence s) = Ok f" "s_ReplayMode s = ReplayModeOrderedTCP"
    "s_RxSequence s \<noteq> MaxUint64" using assms by (simp_all add: Session_DecryptFrame_Ok_iff)
  have "payload_of (Session_DecryptFrame (showing_open w P) now g s) = w (s_RxKey s)
      (DeriveNonce (s_SessionID s) (s_RxKey s) (rxDirection s) (s_RxSequence s)) (f_Payload g)
      (BuildAAD g (s_RxEpoch s) (s_RxSequence s))" for w
  proof -
    obtain h where h: "opened_frame (showing_open w P) g s (s_RxSequence s) = Ok h"
      "f_Payload h = w (s_RxKey s) (DeriveNonce (s_SessionID s) (s_RxKey s) (rxDirection s) (s_RxSequence s))
        (f_Payload g) (BuildAAD g (s_RxEpoch s) (s_RxSequence s))"
      using opened_shown [OF ok(1), of w] by blast
    have "Session_DecryptFrame (showing_open w P) now g s = (Ok h, Touch now (s\<lparr>s_RxSequence := s_RxSequence s + 1\<rparr>))"
      using h(1) ok by (simp add: Session_DecryptFrame_Ok_iff)
    with h(2) show ?thesis by (simp add: payload_of_def)
  qed
  then show ?thesis by (simp add: open_call_def expected_open_def)
qed

lemma open_call_UDP_eq:
  assumes "Session_DecryptFrameUDP P now g q s = (Ok f, s')"
  shows "open_call (\<lambda>P. Session_DecryptFrameUDP P now g q s) P = expected_open g s q"
proof -
  have ok: "opened_frame P g s q = Ok f" "s_ReplayMode s = ReplayModeSlidingUDP"
    "validateCandidate (s_udpReplayWindow s) q = Ok ()"
    "\<exists>w. markSeen (s_udpReplayWindow s) q = Ok w \<and> s' = Touch now (s\<lparr>s_udpReplayWindow := w\<rparr>)"
    using assms by (simp_all add: Session_DecryptFrameUDP_Ok_iff)
  have "payload_of (Session_DecryptFrameUDP (showing_open w P) now g q s) = w (s_RxKey s)
      (DeriveNonce (s_SessionID s) (s_RxKey s) (rxDirection s) q) (f_Payload g) (BuildAAD g (s_RxEpoch s) q)" for w
  proof -
    obtain h where h: "opened_frame (showing_open w P) g s q = Ok h"
      "f_Payload h = w (s_RxKey s) (DeriveNonce (s_SessionID s) (s_RxKey s) (rxDirection s) q)
        (f_Payload g) (BuildAAD g (s_RxEpoch s) q)"
      using opened_shown [OF ok(1), of w] by blast
    have "Session_DecryptFrameUDP (showing_open w P) now g q s = (Ok h, s')"
      using h(1) ok by (simp add: Session_DecryptFrameUDP_Ok_iff)
    with h(2) show ?thesis by (simp add: payload_of_def)
  qed
  then show ?thesis by (simp add: open_call_def expected_open_def)
qed

text \<open>What the additional data and the nonce show.\<close>

lemma shown_by_call [simp]:
  "take 12 (drop 3 (BuildAAD f e q)) = be32 e @ be64 q"
  "drop 4 (DeriveNonce sid k dir q) = be64 q"
  by (simp_all add: BuildAAD_def DeriveNonce_def Let_def)

end
