(* ===== verification/Session_Trace.thy ===== *)
theory Session_Trace
  imports Record_Calls
begin

unbundle bit_operations_syntax

text \<open>
  Runs of one session: every operation of \<open>State\<close> that changes it, in any order, as a step
  relation on the state and a log. The log counts the rekeys of each direction and the changes of
  replay mode, and keeps for each record sealed or accepted the counts at that time and the call of
  the AEAD the operation has made. The sequence number that stands beside the call only serves the
  invariants; the properties are about the calls. The invariants are proved by induction over the
  run.
\<close>

text \<open>Where a record stands in its direction: the rekeys before it, then its sequence number.
  Positions are ordered lexicographically.\<close>

datatype position = Position (rekeys_before: nat) (number: u64)

instantiation position :: linorder
begin

definition less_eq_position :: "position \<Rightarrow> position \<Rightarrow> bool" where
  "p \<le> q \<longleftrightarrow> rekeys_before p < rekeys_before q \<or> rekeys_before p = rekeys_before q \<and> number p \<le> number q"

definition less_position :: "position \<Rightarrow> position \<Rightarrow> bool" where
  "p < q \<longleftrightarrow> rekeys_before p < rekeys_before q \<or> rekeys_before p = rekeys_before q \<and> number p < number q"

instance
  by standard
     (auto simp: less_eq_position_def less_position_def intro: position.expand)

end

lemma Position_less [simp]:
  "Position m p < Position n q \<longleftrightarrow> m < n \<or> m = n \<and> p < q"
  by (simp add: less_position_def)

record sealed_entry =
  se_position :: position
  se_call :: aead_call

record accepted_entry =
  ae_rekeys :: nat
  ae_mode_changes :: nat
  ae_sequence :: u64
  ae_call :: aead_call

record session_log =
  l_sealed :: "sealed_entry list"
  l_accepted :: "accepted_entry list"
  l_out :: nat
  l_in :: nat
  l_modes :: nat

definition empty_log :: session_log where
  "empty_log = \<lparr>l_sealed = [], l_accepted = [], l_out = 0, l_in = 0, l_modes = 0\<rparr>"

definition sealed_now :: "aead_call \<Rightarrow> session_state \<Rightarrow> session_log \<Rightarrow> sealed_entry" where
  "sealed_now c s l = \<lparr>se_position = Position (l_out l) (s_TxSequence s), se_call = c\<rparr>"

definition accepted_now :: "aead_call \<Rightarrow> u64 \<Rightarrow> session_log \<Rightarrow> accepted_entry" where
  "accepted_now c q l =
     \<lparr>ae_rekeys = l_in l, ae_mode_changes = l_modes l, ae_sequence = q, ae_call = c\<rparr>"

inductive session_step ::
    "primitives \<Rightarrow> session_state \<times> session_log \<Rightarrow> session_state \<times> session_log \<Rightarrow> bool"
  for P :: primitives where
  Encrypt: "Session_EncryptFrame P tTrig now f s = (Ok g, s') \<Longrightarrow>
     session_step P (s, l) (s', l\<lparr>l_sealed := l_sealed l @
       [sealed_now (seal_call (\<lambda>P. Session_EncryptFrame P tTrig now f s) P) s l]\<rparr>)"
| Decrypt: "Session_DecryptFrame P now g s = (Ok f, s') \<Longrightarrow>
     session_step P (s, l) (s', l\<lparr>l_accepted := l_accepted l @
       [accepted_now (open_call (\<lambda>P. Session_DecryptFrame P now g s) P) (s_RxSequence s) l]\<rparr>)"
| DecryptUDP: "Session_DecryptFrameUDP P now g q s = (Ok f, s') \<Longrightarrow>
     session_step P (s, l) (s', l\<lparr>l_accepted := l_accepted l @
       [accepted_now (open_call (\<lambda>P. Session_DecryptFrameUDP P now g q s) P) q l]\<rparr>)"
| EncryptRefused: "Session_EncryptFrame P tTrig now f s = (Err e, s') \<Longrightarrow> session_step P (s, l) (s', l)"
| DecryptRefused: "Session_DecryptFrame P now g s = (Err e, s') \<Longrightarrow> session_step P (s, l) (s', l)"
| DecryptUDPRefused: "Session_DecryptFrameUDP P now g q s = (Err e, s') \<Longrightarrow> session_step P (s, l) (s', l)"
| RekeyOut: "session_step P (s, l) (RekeyOutbound now s, l\<lparr>l_out := l_out l + 1\<rparr>)"
| RekeyIn: "session_step P (s, l) (RekeyInbound s, l\<lparr>l_in := l_in l + 1\<rparr>)"
| Mode: "session_step P (s, l) (SetReplayMode mode s, l\<lparr>l_modes := l_modes l + 1\<rparr>)"
| Policy: "session_step P (s, l) (SetRekeyPolicy maxBytes maxAge s, l)"
| Manual: "session_step P (s, l) (MarkRekeyManual s, l)"
| TouchNow: "session_step P (s, l) (Touch now s, l)"

inductive session_run ::
    "primitives \<Rightarrow> session_state \<Rightarrow> session_state \<Rightarrow> session_log \<Rightarrow> bool"
  for P :: primitives and s0 :: session_state where
  start: "session_run P s0 s0 empty_log"
| step: "session_run P s0 s l \<Longrightarrow> session_step P (s, l) (s', l') \<Longrightarrow> session_run P s0 s' l'"

inductive_cases session_stepE: "session_step P (s, l) (s', l')"

section \<open>What a step can change\<close>

text \<open>The key after \<open>n\<close> rekeys.\<close>

primrec key_after :: "session_key \<Rightarrow> u64 \<Rightarrow> byte \<Rightarrow> nat \<Rightarrow> session_key" where
  "key_after k sid dir 0 = k"
| "key_after k sid dir (Suc n) = RekeyMaterial (key_after k sid dir n) sid dir"

lemma refused:
  "Session_EncryptFrame P a b f s = (Err e, s') \<Longrightarrow> s' = s"
  "Session_DecryptFrame P b g s = (Err e, s') \<Longrightarrow> s' = s"
  "Session_DecryptFrameUDP P b g q s = (Err e, s') \<Longrightarrow> s' = s"
  using Session_EncryptFrame_not_Ok [of P a b f s] Session_DecryptFrame_not_Ok [of P b g s]
    Session_DecryptFrameUDP_not_Ok [of P b g q s] by auto

lemmas state_updates = RekeyOutbound_def RekeyInbound_def SetReplayMode_def SetRekeyPolicy_def
  MarkRekeyManual_def Touch_def txDirection_def rxDirection_def Let_def

text \<open>A call made with the state's key, nonce, epoch and number.\<close>

definition sealed_under :: "session_state \<Rightarrow> aead_call \<Rightarrow> bool" where
  "sealed_under s c \<longleftrightarrow> ac_key c = s_TxKey s \<and> ac_nonce c = tx_nonce s \<and>
     (\<exists>f. ac_aad c = BuildAAD f (s_TxEpoch s) (s_TxSequence s))"

definition opened_under :: "session_state \<Rightarrow> u64 \<Rightarrow> aead_call \<Rightarrow> bool" where
  "opened_under s q c \<longleftrightarrow> (\<exists>g. c = expected_open g s q)"

lemma sealed_under_call:
  "Session_EncryptFrame P tTrig now f s = (Ok g, s') \<Longrightarrow>
     sealed_under s (seal_call (\<lambda>P. Session_EncryptFrame P tTrig now f s) P)"
  using seal_call_eq [of P tTrig now f s g s'] by (auto simp: sealed_under_def)

lemma opened_under_call:
  "Session_DecryptFrame P now g s = (Ok f, s') \<Longrightarrow>
     opened_under s (s_RxSequence s) (open_call (\<lambda>P. Session_DecryptFrame P now g s) P)"
  "Session_DecryptFrameUDP P now g q s = (Ok f, s') \<Longrightarrow>
     opened_under s q (open_call (\<lambda>P. Session_DecryptFrameUDP P now g q s) P)"
  unfolding opened_under_def using open_call_eq open_call_UDP_eq by blast+

text \<open>The four ways a step can look, on the sending and on the receiving side.\<close>

lemma step_tx:
  assumes "session_step P (s, l) (s', l')"
  shows "s_SessionID s' = s_SessionID s \<and> s_Role s' = s_Role s \<and>
    (l_out l' = l_out l \<and> l_sealed l' = l_sealed l \<and> s_TxKey s' = s_TxKey s \<and>
       s_TxEpoch s' = s_TxEpoch s \<and> s_TxSequence s' = s_TxSequence s
     \<or> l_out l' = l_out l \<and> (\<exists>c. l_sealed l' = l_sealed l @ [sealed_now c s l] \<and> sealed_under s c) \<and>
       s_TxKey s' = s_TxKey s \<and>
       s_TxEpoch s' = s_TxEpoch s \<and> s_TxSequence s \<noteq> MaxUint64 \<and> s_TxSequence s' = s_TxSequence s + 1
     \<or> l_out l' = l_out l + 1 \<and> l_sealed l' = l_sealed l \<and>
       s_TxKey s' = RekeyMaterial (s_TxKey s) (s_SessionID s) (txDirection s) \<and>
       s_TxEpoch s' = s_TxEpoch s + 1 \<and> s_TxSequence s' = 0)"
  using assms
proof (elim session_stepE)
  fix tTrig now f g
  assume "Session_EncryptFrame P tTrig now f s = (Ok g, s')"
    "l' = l\<lparr>l_sealed := l_sealed l @
       [sealed_now (seal_call (\<lambda>P. Session_EncryptFrame P tTrig now f s) P) s l]\<rparr>"
  with sealed_under_call [OF this(1)] show ?thesis by (auto simp: Session_EncryptFrame_Ok_iff)
qed (auto simp: Session_DecryptFrame_Ok_iff Session_DecryptFrameUDP_Ok_iff state_updates dest!: refused)

definition mode_kept :: "session_state \<Rightarrow> session_state \<Rightarrow> bool" where
  "mode_kept s s' \<longleftrightarrow> s_ReplayMode s' = s_ReplayMode s \<and> s_RxSequence s' = s_RxSequence s \<and>
     s_udpReplayWindow s' = s_udpReplayWindow s"

lemma step_rx:
  assumes "session_step P (s, l) (s', l')"
  shows "
     l_in l' = l_in l \<and> l_modes l' = l_modes l \<and> l_accepted l' = l_accepted l \<and> mode_kept s s'
   \<or> l_in l' = l_in l \<and> l_modes l' = l_modes l \<and>
     (\<exists>c. l_accepted l' = l_accepted l @ [accepted_now c (s_RxSequence s) l]) \<and>
     s_ReplayMode s = ReplayModeOrderedTCP \<and> s_ReplayMode s' = ReplayModeOrderedTCP \<and>
     s_RxSequence s \<noteq> MaxUint64 \<and> s_RxSequence s' = s_RxSequence s + 1
   \<or> l_in l' = l_in l \<and> l_modes l' = l_modes l \<and> s_ReplayMode s = ReplayModeSlidingUDP \<and>
     s_ReplayMode s' = ReplayModeSlidingUDP \<and>
     (\<exists>q c. l_accepted l' = l_accepted l @ [accepted_now c q l] \<and>
       validateCandidate (s_udpReplayWindow s) q = Ok () \<and>
       markSeen (s_udpReplayWindow s) q = Ok (s_udpReplayWindow s'))
   \<or> l_in l' = l_in l + 1 \<and> l_modes l' = l_modes l \<and> l_accepted l' = l_accepted l \<and>
     s_udpReplayWindow s' = empty_window
   \<or> l_in l' = l_in l \<and> l_modes l' = l_modes l + 1 \<and> l_accepted l' = l_accepted l \<and>
     (s_ReplayMode s' = ReplayModeSlidingUDP \<longrightarrow> s_udpReplayWindow s' = empty_window)"
  using assms
  by (elim session_stepE)
     (auto simp: Session_EncryptFrame_Ok_iff Session_DecryptFrame_Ok_iff Session_DecryptFrameUDP_Ok_iff
        state_updates mode_kept_def dest!: refused)

lemma step_rx_calls:
  assumes "session_step P (s, l) (s', l')"
  shows "s_SessionID s' = s_SessionID s \<and> s_Role s' = s_Role s \<and>
    (l_in l' = l_in l \<and> s_RxKey s' = s_RxKey s \<and> l_accepted l' = l_accepted l
     \<or> l_in l' = l_in l \<and> s_RxKey s' = s_RxKey s \<and>
       (\<exists>c q. l_accepted l' = l_accepted l @ [accepted_now c q l] \<and> opened_under s q c)
     \<or> l_in l' = l_in l + 1 \<and> l_accepted l' = l_accepted l \<and>
       s_RxKey s' = RekeyMaterial (s_RxKey s) (s_SessionID s) (rxDirection s))"
  using assms
proof (elim session_stepE)
  fix now g f
  assume "Session_DecryptFrame P now g s = (Ok f, s')"
    "l' = l\<lparr>l_accepted := l_accepted l @
       [accepted_now (open_call (\<lambda>P. Session_DecryptFrame P now g s) P) (s_RxSequence s) l]\<rparr>"
  with opened_under_call(1) [OF this(1)] show ?thesis
    by (auto simp: Session_DecryptFrame_Ok_iff Touch_def)
next
  fix now g q f
  assume "Session_DecryptFrameUDP P now g q s = (Ok f, s')"
    "l' = l\<lparr>l_accepted := l_accepted l @
       [accepted_now (open_call (\<lambda>P. Session_DecryptFrameUDP P now g q s) P) q l]\<rparr>"
  with opened_under_call(2) [OF this(1)] show ?thesis
    by (auto simp: Session_DecryptFrameUDP_Ok_iff Touch_def)
qed (auto simp: Session_EncryptFrame_Ok_iff state_updates dest!: refused)

section \<open>Every sealed record has a nonce of its own\<close>

definition entry_ok :: "session_state \<Rightarrow> sealed_entry \<Rightarrow> bool" where
  "entry_ok s0 e \<longleftrightarrow>
     (let k = key_after (s_TxKey s0) (s_SessionID s0) (txDirection s0) (rekeys_before (se_position e)) in
      ac_key (se_call e) = k \<and>
      ac_nonce (se_call e) = DeriveNonce (s_SessionID s0) k (txDirection s0) (number (se_position e)) \<and>
      (\<exists>f. ac_aad (se_call e) =
         BuildAAD f (s_TxEpoch s0 + of_nat (rekeys_before (se_position e))) (number (se_position e))))"

definition tx_inv :: "session_state \<Rightarrow> session_state \<Rightarrow> session_log \<Rightarrow> bool" where
  "tx_inv s0 s l \<longleftrightarrow> s_SessionID s = s_SessionID s0 \<and> txDirection s = txDirection s0 \<and>
     s_TxKey s = key_after (s_TxKey s0) (s_SessionID s0) (txDirection s0) (l_out l) \<and>
     s_TxEpoch s = s_TxEpoch s0 + of_nat (l_out l) \<and>
     (\<forall>e\<in>set (l_sealed l). se_position e < Position (l_out l) (s_TxSequence s) \<and> entry_ok s0 e) \<and>
     sorted_wrt (<) (map se_position (l_sealed l))"

lemma tx_inv_start: "tx_inv s0 s0 empty_log"
  by (simp add: tx_inv_def empty_log_def)

lemma next_position: "n \<noteq> MaxUint64 \<Longrightarrow> p < Position m n \<Longrightarrow> p < Position m (n + 1)"
  using MaxUint64_next [of n] by (cases p) (auto simp: word_less_nat_alt)

lemma step_identity:
  "session_step P (s, l) (s', l') \<Longrightarrow> s_SessionID s' = s_SessionID s \<and> txDirection s' = txDirection s"
  using step_tx [of P s l s' l'] by (simp add: txDirection_def)

lemma tx_inv_step:
  assumes inv: "tx_inv s0 s l" and st: "session_step P (s, l) (s', l')"
  shows "tx_inv s0 s' l'"
proof -
  from step_tx [OF st] consider
      (same) "l_out l' = l_out l" "l_sealed l' = l_sealed l" "s_TxKey s' = s_TxKey s"
        "s_TxEpoch s' = s_TxEpoch s" "s_TxSequence s' = s_TxSequence s"
    | (seal) c where "l_out l' = l_out l" "l_sealed l' = l_sealed l @ [sealed_now c s l]"
        "sealed_under s c" "s_TxKey s' = s_TxKey s"
        "s_TxEpoch s' = s_TxEpoch s" "s_TxSequence s \<noteq> MaxUint64" "s_TxSequence s' = s_TxSequence s + 1"
    | (rekey) "l_out l' = l_out l + 1" "l_sealed l' = l_sealed l"
        "s_TxKey s' = RekeyMaterial (s_TxKey s) (s_SessionID s) (txDirection s)"
        "s_TxEpoch s' = s_TxEpoch s + 1" "s_TxSequence s' = 0"
    by blast
  then show ?thesis
  proof cases
    case same
    with inv step_identity [OF st] show ?thesis by (simp add: tx_inv_def)
  next
    case seal
    have "s_TxSequence s < s_TxSequence s + 1"
      using MaxUint64_next [OF seal(6)] by (simp add: word_less_nat_alt)
    moreover have "entry_ok s0 (sealed_now c s l)"
      using inv seal(3) by (simp add: tx_inv_def entry_ok_def sealed_now_def tx_nonce_def sealed_under_def)
    ultimately show ?thesis
      using seal inv step_identity [OF st] next_position [OF seal(6)]
      by (auto simp: tx_inv_def sorted_wrt_append sealed_now_def)
  next
    case rekey
    have "p < Position (l_out l + 1) 0" if "p < Position (l_out l) (s_TxSequence s)" for p
      using that by (cases p) auto
    with inv step_identity [OF st] rekey show ?thesis
      by (auto simp: tx_inv_def algebra_simps)
  qed
qed

lemma tx_inv_run: "session_run P s0 s l \<Longrightarrow> tx_inv s0 s l"
  by (induction rule: session_run.induct) (auto intro: tx_inv_start tx_inv_step)

lemma sealed_distinct:
  assumes "tx_inv s0 s l"
  shows "distinct (l_sealed l)" "inj_on se_position (set (l_sealed l))"
  using assms strict_sorted_iff [of "map se_position (l_sealed l)"]
  by (simp_all add: tx_inv_def distinct_map)

text \<open>What has been sealed before a run, or has only used up its number, is not sealed in it.\<close>

lemma seals_from:
  "session_run P s0 s l \<Longrightarrow> (l_out l = 0 \<longrightarrow> s_TxSequence s0 \<le> s_TxSequence s) \<and>
     (\<forall>e\<in>set (l_sealed l). Position 0 (s_TxSequence s0) \<le> se_position e)"
proof (induction rule: session_run.induct)
  case (step s l s' l')
  have next_le: "q \<le> n + 1" if "q \<le> n" "n \<noteq> MaxUint64" for q n :: u64
    using that MaxUint64_next [of n] by (auto simp: word_le_nat_alt)
  from step_tx [OF step.hyps(2)] step.IH show ?case
    by (elim disjE conjE exE) (auto simp: sealed_now_def less_eq_position_def intro: next_le)
qed (simp add: empty_log_def)

lemma passed_number:
  assumes run: "session_run P s0 s l" "l_out l < 2 ^ 32" and e: "e \<in> set (l_sealed l)"
    and q: "q < s_TxSequence s0"
  shows "call_position (se_call e) \<noteq> be32 (s_TxEpoch s0) @ be64 q"
proof
  note inv = tx_inv_run [OF run(1)]
  let ?n = "rekeys_before (se_position e)"
  assume eq: "call_position (se_call e) = be32 (s_TxEpoch s0) @ be64 q"
  have "se_position e < Position (l_out l) (s_TxSequence s)" "entry_ok s0 e"
    using inv e by (simp_all add: tx_inv_def)
  then have n: "?n \<le> l_out l" "call_position (se_call e) =
      be32 (s_TxEpoch s0 + of_nat ?n) @ be64 (number (se_position e))"
    by (auto simp: entry_ok_def Let_def call_position_def less_position_def)
  with eq have "(of_nat ?n :: u32) = 0" "number (se_position e) = q" by simp_all
  moreover have "?n < 2 ^ 32" using n(1) run(2) by simp
  ultimately have "?n = 0" by (simp add: word_of_nat_eq_0_iff) (metis dvd_imp_le gr_zeroI leD)
  moreover have "Position 0 (s_TxSequence s0) \<le> se_position e" using seals_from [OF run(1)] e by blast
  ultimately show False using q \<open>number (se_position e) = q\<close> by (simp add: less_eq_position_def)
qed

section \<open>No record is accepted twice\<close>

definition current :: "session_log \<Rightarrow> accepted_entry \<Rightarrow> bool" where
  "current l e \<longleftrightarrow> ae_rekeys e = l_in l \<and> ae_mode_changes e = l_modes l"

definition entry_key :: "accepted_entry \<Rightarrow> nat \<times> nat \<times> u64" where
  "entry_key e = (ae_rekeys e, ae_mode_changes e, ae_sequence e)"

definition rx_inv :: "session_state \<Rightarrow> session_log \<Rightarrow> bool" where
  "rx_inv s l \<longleftrightarrow>
     (\<forall>e\<in>set (l_accepted l). ae_rekeys e \<le> l_in l \<and> ae_mode_changes e \<le> l_modes l) \<and>
     distinct (map entry_key (l_accepted l)) \<and>
     (s_ReplayMode s = ReplayModeOrderedTCP \<longrightarrow>
        (\<forall>e\<in>set (l_accepted l). current l e \<longrightarrow> unat (ae_sequence e) < unat (s_RxSequence s))) \<and>
     (s_ReplayMode s = ReplayModeSlidingUDP \<longrightarrow>
        (\<exists>S. window_rel (s_udpReplayWindow s) S \<and>
          (\<forall>e\<in>set (l_accepted l). current l e \<longrightarrow> ae_sequence e \<in> S)))"

lemma modes_differ: "ReplayModeOrderedTCP \<noteq> ReplayModeSlidingUDP"
  by (simp add: ReplayModeOrderedTCP_def ReplayModeSlidingUDP_def)

lemma rx_inv_step:
  assumes inv: "rx_inv s l" and st: "session_step P (s, l) (s', l')"
  shows "rx_inv s' l'"
  using step_rx [OF st]
proof (elim disjE conjE exE)
  assume "l_in l' = l_in l" "l_modes l' = l_modes l" "l_accepted l' = l_accepted l" "mode_kept s s'"
  then show ?thesis using inv by (simp add: rx_inv_def current_def mode_kept_def)
next
  fix c
  assume a: "l_in l' = l_in l" "l_modes l' = l_modes l"
    "l_accepted l' = l_accepted l @ [accepted_now c (s_RxSequence s) l]"
    "s_ReplayMode s = ReplayModeOrderedTCP" "s_ReplayMode s' = ReplayModeOrderedTCP"
    "s_RxSequence s \<noteq> MaxUint64" "s_RxSequence s' = s_RxSequence s + 1"
  have "unat (s_RxSequence s') = unat (s_RxSequence s) + 1" using a by (simp add: MaxUint64_next)
  moreover have "entry_key (accepted_now c (s_RxSequence s) l) \<notin> entry_key ` set (l_accepted l)"
    using inv a(4) by (auto simp: rx_inv_def current_def accepted_now_def entry_key_def)
  ultimately show ?thesis
    using inv a modes_differ by (auto simp: rx_inv_def current_def accepted_now_def less_Suc_eq)
next
  fix q c
  assume a: "l_in l' = l_in l" "l_modes l' = l_modes l"
    "l_accepted l' = l_accepted l @ [accepted_now c q l]"
    "s_ReplayMode s = ReplayModeSlidingUDP" "s_ReplayMode s' = ReplayModeSlidingUDP"
    "validateCandidate (s_udpReplayWindow s) q = Ok ()"
    "markSeen (s_udpReplayWindow s) q = Ok (s_udpReplayWindow s')"
  obtain S where S: "window_rel (s_udpReplayWindow s) S"
    "\<forall>e\<in>set (l_accepted l). current l e \<longrightarrow> ae_sequence e \<in> S"
    using inv a(4) by (auto simp: rx_inv_def)
  have "q \<notin> S" by (rule udp_filter.accepts_fresh [OF S(1) a(6)])
  then have "entry_key (accepted_now c q l) \<notin> entry_key ` set (l_accepted l)"
    using S(2) by (auto simp: current_def accepted_now_def entry_key_def)
  moreover have "window_rel (s_udpReplayWindow s') (insert q S)"
    by (rule udp_filter.mark_inserts [OF S(1) a(6,7)])
  ultimately show ?thesis
    using inv a S(2) modes_differ
    by (auto simp: rx_inv_def current_def accepted_now_def intro!: exI [of _ "insert q S"])
next
  assume "l_in l' = l_in l + 1" "l_modes l' = l_modes l" "l_accepted l' = l_accepted l"
    "s_udpReplayWindow s' = empty_window"
  then show ?thesis
    using inv window_rel_empty by (fastforce simp: rx_inv_def current_def)
next
  assume "l_in l' = l_in l" "l_modes l' = l_modes l + 1" "l_accepted l' = l_accepted l"
    "s_ReplayMode s' = ReplayModeSlidingUDP \<longrightarrow> s_udpReplayWindow s' = empty_window"
  then show ?thesis
    using inv window_rel_empty by (fastforce simp: rx_inv_def current_def)
qed

text \<open>A session fresh from a handshake, and one that was set to UDP mode.\<close>

lemma rx_inv_start:
  assumes "s_udpReplayWindow s0 = empty_window"
  shows "rx_inv s0 empty_log"
  using assms window_rel_empty by (auto simp: rx_inv_def empty_log_def)

lemma rx_inv_run:
  "session_run P s0 s l \<Longrightarrow> s_udpReplayWindow s0 = empty_window \<Longrightarrow> rx_inv s l"
  by (induction rule: session_run.induct) (auto intro: rx_inv_start rx_inv_step)

text \<open>What an accepted record was opened under.\<close>

definition opened_as :: "session_state \<Rightarrow> accepted_entry \<Rightarrow> bool" where
  "opened_as s0 e \<longleftrightarrow>
     (let k = key_after (s_RxKey s0) (s_SessionID s0) (rxDirection s0) (ae_rekeys e) in
      ac_key (ae_call e) = k \<and>
      ac_nonce (ae_call e) = DeriveNonce (s_SessionID s0) k (rxDirection s0) (ae_sequence e) \<and>
      (\<exists>g ep. ac_aad (ae_call e) = BuildAAD g ep (ae_sequence e)))"

definition call_inv :: "session_state \<Rightarrow> session_state \<Rightarrow> session_log \<Rightarrow> bool" where
  "call_inv s0 s l \<longleftrightarrow> s_SessionID s = s_SessionID s0 \<and> rxDirection s = rxDirection s0 \<and>
     s_RxKey s = key_after (s_RxKey s0) (s_SessionID s0) (rxDirection s0) (l_in l) \<and>
     (\<forall>e\<in>set (l_accepted l). opened_as s0 e)"

lemma call_inv_step:
  assumes inv: "call_inv s0 s l" and st: "session_step P (s, l) (s', l')"
  shows "call_inv s0 s' l'"
proof -
  have "opened_as s0 (accepted_now c q l)" if "opened_under s q c" for c q
    using that inv
    by (auto simp: opened_as_def opened_under_def expected_open_def accepted_now_def call_inv_def) blast
  moreover have "rxDirection s' = rxDirection s" using step_rx_calls [OF st] by (simp add: rxDirection_def)
  ultimately show ?thesis using step_rx_calls [OF st] inv by (auto simp: call_inv_def)
qed

lemma call_inv_run: "session_run P s0 s l \<Longrightarrow> call_inv s0 s l"
proof (induction rule: session_run.induct)
  case start
  then show ?case by (simp add: call_inv_def empty_log_def)
next
  case (step s l s' l')
  from call_inv_step [OF step.IH step.hyps(2)] show ?case .
qed

section \<open>Properties\<close>

text \<open>C3: in every run of a session with fewer than \<open>2 ^ 32\<close> rekeys no two calls that seal a record bind
  the same epoch and sequence number, and as long as the rekeyed keys differ from each other no two
  calls have the same key and nonce. Nonce and additional data of a call carry the same number.\<close>

theorem nonces_never_repeat:
  assumes "session_run P s0 s l"
  shows "(l_out l < 2 ^ 32 \<longrightarrow> distinct (map (\<lambda>e. call_position (se_call e)) (l_sealed l))) \<and>
    (inj_on (key_after (s_TxKey s0) (s_SessionID s0) (txDirection s0)) {..l_out l} \<longrightarrow>
       distinct (map (\<lambda>e. (ac_key (se_call e), ac_nonce (se_call e))) (l_sealed l))) \<and>
    (\<forall>e\<in>set (l_sealed l). call_number (se_call e) = drop 4 (call_position (se_call e)))"
proof -
  note inv = tx_inv_run [OF assms]
  have ent: "se_position e < Position (l_out l) (s_TxSequence s)" "entry_ok s0 e"
    if "e \<in> set (l_sealed l)" for e using inv that by (simp_all add: tx_inv_def)
  have pos: "call_position (se_call e) =
      be32 (s_TxEpoch s0 + of_nat (rekeys_before (se_position e))) @ be64 (number (se_position e))"
    "call_number (se_call e) = be64 (number (se_position e))" if "e \<in> set (l_sealed l)" for e
    using ent(2) [OF that] by (auto simp: entry_ok_def Let_def call_position_def call_number_def)
  have same: "e = d"
    if "e \<in> set (l_sealed l)" "d \<in> set (l_sealed l)"
      "rekeys_before (se_position e) = rekeys_before (se_position d)"
      "number (se_position e) = number (se_position d)" for e d
    using sealed_distinct [OF inv] that by (meson inj_onD position.expand)
  have le: "rekeys_before (se_position e) \<le> l_out l" if "e \<in> set (l_sealed l)" for e
    using ent(1) [OF that] by (cases "se_position e") auto
  have "distinct (map (\<lambda>e. call_position (se_call e)) (l_sealed l))" if few: "l_out l < 2 ^ 32"
  proof -
    have "e = d" if e: "e \<in> set (l_sealed l)" "d \<in> set (l_sealed l)"
      "call_position (se_call e) = call_position (se_call d)" for e d
    proof -
      have "(of_nat (rekeys_before (se_position e)) :: u32) = of_nat (rekeys_before (se_position d))"
        "number (se_position e) = number (se_position d)"
        using e(3) pos(1) [OF e(1)] pos(1) [OF e(2)] by simp_all
      moreover have "rekeys_before (se_position e) = rekeys_before (se_position d)"
        using calculation(1) le [OF e(1)] le [OF e(2)] few by (simp add: word_of_nat_eq_iff take_bit_nat_eq_self)
      ultimately show ?thesis using same e by blast
    qed
    then show ?thesis using sealed_distinct(1) [OF inv] by (auto simp: distinct_map inj_on_def)
  qed
  moreover have "distinct (map (\<lambda>e. (ac_key (se_call e), ac_nonce (se_call e))) (l_sealed l))"
    if inj: "inj_on (key_after (s_TxKey s0) (s_SessionID s0) (txDirection s0)) {..l_out l}"
  proof -
    have "e = d" if e: "e \<in> set (l_sealed l)" "d \<in> set (l_sealed l)"
      "ac_key (se_call e) = ac_key (se_call d)" "ac_nonce (se_call e) = ac_nonce (se_call d)" for e d
    proof -
      have "rekeys_before (se_position e) = rekeys_before (se_position d)"
        using inj ent(2) e(1-3) le by (auto simp: entry_ok_def inj_on_def Let_def)
      moreover have "number (se_position e) = number (se_position d)"
        using e(4) pos(2) [OF e(1)] pos(2) [OF e(2)] by (simp add: call_number_def)
      ultimately show ?thesis using same e by blast
    qed
    then show ?thesis using sealed_distinct(1) [OF inv] by (auto simp: distinct_map inj_on_def)
  qed
  ultimately show ?thesis using pos by simp
qed

lemma sample_run_two:
  obtains s l where "session_run sample (sample_session 1) s l" "length (l_sealed l) = 2" "l_out l = 0"
proof -
  let ?s0 = "sample_session 1" and ?f = sample_frame
  let ?s1 = "after_seal sample 0 0 ?f ?s0"
  have "Session_EncryptFrame sample 0 0 ?f ?s1 = (Ok (sealed_frame sample ?f ?s1), after_seal sample 0 0 ?f ?s1)"
    using sample_frame_plain by (simp add: Session_EncryptFrame_Ok_iff MaxUint64_def) (simp add: sample_def)
  from session_run.step [OF session_run.step [OF session_run.start
        session_step.Encrypt [OF sample_seals]] session_step.Encrypt [OF this]]
  show ?thesis by (rule that) (simp_all add: empty_log_def)
qed

theorem nonces_never_repeat_witness:
  "\<exists>s l. session_run sample (sample_session 1) s l \<and> length (l_sealed l) = 2 \<and>
     distinct (map (\<lambda>e. (ac_key (se_call e), ac_nonce (se_call e))) (l_sealed l))"
proof -
  obtain s l where r: "session_run sample (sample_session 1) s l" "length (l_sealed l) = 2" "l_out l = 0"
    by (rule sample_run_two)
  from nonces_never_repeat [OF r(1)] r show ?thesis by (auto simp: inj_on_def)
qed

text \<open>C4: no run of a session opens two records under the same number: between two rekeys of the
  receiving direction and two changes of the replay mode, the nonces of the calls that opened the
  accepted records are all different, in ordered and in sliding mode alike, and the additional data
  of each call binds the number its nonce carries.\<close>

theorem records_never_accepted_twice:
  assumes "session_run P s0 s l" "s_udpReplayWindow s0 = empty_window"
  shows "distinct (map (\<lambda>e. (ae_rekeys e, ae_mode_changes e, ac_nonce (ae_call e))) (l_accepted l)) \<and>
    (\<forall>e\<in>set (l_accepted l). call_number (ae_call e) = drop 4 (call_position (ae_call e)))"
proof -
  have ok: "opened_as s0 e" if "e \<in> set (l_accepted l)" for e
    using call_inv_run [OF assms(1)] that by (simp add: call_inv_def)
  have "distinct (map entry_key (l_accepted l))" using rx_inv_run [OF assms] by (simp add: rx_inv_def)
  then have "distinct (map (\<lambda>e. (ae_rekeys e, ae_mode_changes e, ac_nonce (ae_call e))) (l_accepted l))"
    using ok by (auto simp: distinct_map inj_on_def entry_key_def opened_as_def Let_def)
  moreover have "call_number (ae_call e) = drop 4 (call_position (ae_call e))" if "e \<in> set (l_accepted l)" for e
    using ok [OF that] by (auto simp: opened_as_def call_number_def call_position_def Let_def)
  ultimately show ?thesis by blast
qed

theorem records_never_accepted_twice_witness:
  "\<exists>s l. session_run sample (sample_session 2) s l \<and> length (l_accepted l) = 2 \<and>
     distinct (map (\<lambda>e. (ae_rekeys e, ae_mode_changes e, ac_nonce (ae_call e))) (l_accepted l))"
proof -
  let ?a = "sample_session 1" and ?b = "sample_session 2" and ?f = sample_frame
  let ?a1 = "after_seal sample 0 0 ?f ?a" and ?b1 = "Touch 0 (?b\<lparr>s_RxSequence := 1\<rparr>)"
  have "opened_frame sample (sealed_frame sample ?f ?a) ?b 0 = Ok ?f"
    using open_sealed [OF sample_aead sample_paired(1) sample_frame_plain] by simp
  then have 1: "Session_DecryptFrame sample 0 (sealed_frame sample ?f ?a) ?b = (Ok ?f, ?b1)"
    by (simp add: Session_DecryptFrame_Ok_iff MaxUint64_def)
  have "paired ?a1 ?b1" using sample_paired(1) by simp
  from open_sealed [OF sample_aead this sample_frame_plain]
  have "opened_frame sample (sealed_frame sample ?f ?a1) ?b1 1 = Ok ?f" by simp
  then obtain b2 where 2: "Session_DecryptFrame sample 0 (sealed_frame sample ?f ?a1) ?b1 = (Ok ?f, b2)"
    by (simp add: Session_DecryptFrame_Ok_iff MaxUint64_def Touch_def)
  from session_run.step [OF session_run.step [OF session_run.start session_step.Decrypt [OF 1]]
      session_step.Decrypt [OF 2]]
  obtain s l where r: "session_run sample ?b s l" "length (l_accepted l) = 2"
    by (rule that) (simp add: empty_log_def)
  from records_never_accepted_twice [OF r(1)] r show ?thesis by auto
qed

end
