(* ===== verification/Secure_Channel.thy ===== *)
theory Secure_Channel
  imports Session_Trace "HOL-Library.Sublist"
begin

unbundle bit_operations_syntax

text \<open>
  What two sessions with matching keys give each other. The locale \<open>record_layer\<close> is the contract
  of an honest connection: a record opens at the other end to what was sealed, and the ends stay
  paired; the sessions of the model provide it. Against a network that delivers whatever it likes,
  \<open>channel_run\<close> lets the receiver try any frame at any moment. Its log keeps the calls of the AEAD that
  sealed and opened the records of the run; if no record was forged in it, that is every record
  accepted was opened with a call that had sealed one, then in every epoch the frames accepted are
  a prefix of the frames sent.
\<close>

section \<open>Honest delivery\<close>

locale record_layer =
  fixes seal :: "'m \<Rightarrow> 's \<Rightarrow> ('c \<times> 's) option"
    and unseal :: "'c \<Rightarrow> 'r \<Rightarrow> ('m \<times> 'r) option"
    and rel :: "'s \<Rightarrow> 'r \<Rightarrow> bool"
  assumes delivers: "rel s r \<Longrightarrow> seal m s = Some (c, s') \<Longrightarrow> \<exists>r'. unseal c r = Some (m, r') \<and> rel s' r'"
begin

primrec seal_all :: "'m list \<Rightarrow> 's \<Rightarrow> ('c list \<times> 's) option" where
  "seal_all [] s = Some ([], s)"
| "seal_all (m # ms) s = (case seal m s of None \<Rightarrow> None | Some (c, s') \<Rightarrow>
     map_option (\<lambda>(cs, s''). (c # cs, s'')) (seal_all ms s'))"

primrec unseal_all :: "'c list \<Rightarrow> 'r \<Rightarrow> ('m list \<times> 'r) option" where
  "unseal_all [] r = Some ([], r)"
| "unseal_all (c # cs) r = (case unseal c r of None \<Rightarrow> None | Some (m, r') \<Rightarrow>
     map_option (\<lambda>(ms, r''). (m # ms, r'')) (unseal_all cs r'))"

lemma delivers_all:
  "rel s r \<Longrightarrow> seal_all ms s = Some (cs, s') \<Longrightarrow> \<exists>r'. unseal_all cs r = Some (ms, r') \<and> rel s' r'"
proof (induction ms arbitrary: s r cs)
  case (Cons m ms)
  from Cons.prems(2) obtain c t ds where c: "seal m s = Some (c, t)" "seal_all ms t = Some (ds, s')"
    "cs = c # ds" by (auto split: option.splits prod.splits)
  from delivers [OF Cons.prems(1) c(1)] obtain u where u: "unseal c r = Some (m, u)" "rel t u" by blast
  from Cons.IH [OF u(2) c(2)] c(3) u(1) show ?case by auto
qed simp

end

text \<open>The two operations on frames alone, at a fixed clock reading.\<close>

definition send_frame :: "primitives \<Rightarrow> time \<Rightarrow> frame \<Rightarrow> session_state \<Rightarrow> (frame \<times> session_state) option" where
  "send_frame P now f s = (case Session_EncryptFrame P now now f s of (Ok g, s') \<Rightarrow> Some (g, s') | _ \<Rightarrow> None)"

definition receive_frame :: "primitives \<Rightarrow> time \<Rightarrow> frame \<Rightarrow> session_state \<Rightarrow> (frame \<times> session_state) option" where
  "receive_frame P now g s = (case Session_DecryptFrame P now g s of (Ok f, s') \<Rightarrow> Some (f, s') | _ \<Rightarrow> None)"

definition in_step :: "primitives \<Rightarrow> session_state \<Rightarrow> session_state \<Rightarrow> bool" where
  "in_step P a b \<longleftrightarrow> aead_correct P \<and> paired a b \<and> s_TxSequence a = s_RxSequence b \<and>
     s_ReplayMode b = ReplayModeOrderedTCP"

lemma send_frame_Some_iff:
  "send_frame P now f s = Some (g, s') \<longleftrightarrow> Session_EncryptFrame P now now f s = (Ok g, s')"
  by (auto simp: send_frame_def split: prod.splits outcome.splits)

lemma receive_frame_Some_iff:
  "receive_frame P now g s = Some (f, s') \<longleftrightarrow> Session_DecryptFrame P now g s = (Ok f, s')"
  by (auto simp: receive_frame_def split: prod.splits outcome.splits)

lemma session_delivers:
  assumes "in_step P a b" "Session_EncryptFrame P t u f a = (Ok g, a')"
  obtains b' where "Session_DecryptFrame P now g b = (Ok f, b')" "in_step P a' b'"
    "b' = Touch now (b\<lparr>s_RxSequence := s_RxSequence b + 1\<rparr>)"
proof -
  have e: "\<not> encrypted f" "s_TxSequence a \<noteq> MaxUint64" "g = sealed_frame P f a" "a' = after_seal P t u f a"
    using assms(2) by (simp_all add: Session_EncryptFrame_Ok_iff)
  have "opened_frame P g b (s_RxSequence b) = Ok f"
    using open_sealed [of P a b f] assms(1) e(1,3) by (simp add: in_step_def)
  then have "Session_DecryptFrame P now g b = (Ok f, Touch now (b\<lparr>s_RxSequence := s_RxSequence b + 1\<rparr>))"
    using assms(1) e(2) by (simp add: Session_DecryptFrame_Ok_iff in_step_def)
  moreover have "in_step P a' (Touch now (b\<lparr>s_RxSequence := s_RxSequence b + 1\<rparr>))"
    using assms(1) e(4) by (simp add: in_step_def) (simp add: Touch_def)
  ultimately show ?thesis by (rule that) (rule refl)
qed

interpretation session_records: record_layer "send_frame P now" "receive_frame P now" "in_step P"
  for P now
proof
  fix a b f g a'
  assume "in_step P a b" "send_frame P now f a = Some (g, a')"
  then show "\<exists>b'. receive_frame P now g b = Some (f, b') \<and> in_step P a' b'"
    unfolding send_frame_Some_iff receive_frame_Some_iff by (rule session_delivers) blast
qed

lemma in_step_rekey: "in_step P a b \<Longrightarrow> in_step P (RekeyOutbound t a) (RekeyInbound b)"
  by (auto simp: in_step_def paired_rekey) (simp_all add: RekeyOutbound_def RekeyInbound_def)

lemma in_step_start:
  assumes "aead_correct P" "outputs_match i r oi ro"
  shows "in_step P (FromHandshakeOutput t oi) (FromHandshakeOutput u ro)"
    "in_step P (FromHandshakeOutput u ro) (FromHandshakeOutput t oi)"
  using assms handshake_paired [OF assms(2)] by (simp_all add: in_step_def) (simp_all add: FromHandshakeOutput_def)

section \<open>A hostile network\<close>

text \<open>The log of one direction: each frame with the number of rekeys before it and the call that
  sealed or opened its record.\<close>

type_synonym logged = "nat \<times> frame \<times> aead_call"

record channel =
  c_sender :: session_state
  c_receiver :: session_state
  c_sent :: "logged list"
  c_accepted :: "logged list"
  c_out :: nat
  c_in :: nat

definition new_channel :: "session_state \<Rightarrow> session_state \<Rightarrow> channel" where
  "new_channel a b = \<lparr>c_sender = a, c_receiver = b, c_sent = [], c_accepted = [], c_out = 0, c_in = 0\<rparr>"

inductive channel_run :: "primitives \<Rightarrow> session_state \<Rightarrow> session_state \<Rightarrow> channel \<Rightarrow> bool"
  for P :: primitives and a0 b0 :: session_state where
  new: "channel_run P a0 b0 (new_channel a0 b0)"
| send: "channel_run P a0 b0 c \<Longrightarrow> Session_EncryptFrame P t now f (c_sender c) = (Ok g, a) \<Longrightarrow>
     channel_run P a0 b0 (c\<lparr>c_sender := a, c_sent := c_sent c @
       [(c_out c, f, seal_call (\<lambda>P. Session_EncryptFrame P t now f (c_sender c)) P)]\<rparr>)"
| accept: "channel_run P a0 b0 c \<Longrightarrow> Session_DecryptFrame P now g (c_receiver c) = (Ok f, b) \<Longrightarrow>
     channel_run P a0 b0 (c\<lparr>c_receiver := b, c_accepted := c_accepted c @
       [(c_in c, f, open_call (\<lambda>P. Session_DecryptFrame P now g (c_receiver c)) P)]\<rparr>)"
| refuse: "channel_run P a0 b0 c \<Longrightarrow> Session_DecryptFrame P now g (c_receiver c) = (Err e, b) \<Longrightarrow>
     channel_run P a0 b0 (c\<lparr>c_receiver := b\<rparr>)"
| rekey_out: "channel_run P a0 b0 c \<Longrightarrow>
     channel_run P a0 b0 (c\<lparr>c_sender := RekeyOutbound now (c_sender c), c_out := c_out c + 1\<rparr>)"
| rekey_in: "channel_run P a0 b0 c \<Longrightarrow>
     channel_run P a0 b0 (c\<lparr>c_receiver := RekeyInbound (c_receiver c), c_in := c_in c + 1\<rparr>)"

text \<open>No forgery in a run: every record the receiver accepted was opened with a key, a nonce, a
  ciphertext and additional data that a call of the sender had in the same run. Replaying,
  reordering and dropping records is not forgery.\<close>

definition unforged :: "channel \<Rightarrow> bool" where
  "unforged c \<longleftrightarrow> (\<forall>(n, f, call)\<in>set (c_accepted c). \<exists>(m, h, call')\<in>set (c_sent c). call' = call)"

text \<open>The entries of one epoch, and a log all of whose entries fit their epoch and their place in it.\<close>

definition in_epoch :: "nat \<Rightarrow> (nat \<times> 'x) list \<Rightarrow> 'x list" where
  "in_epoch n xs = map snd (filter (\<lambda>x. fst x = n) xs)"

definition placed :: "(nat \<Rightarrow> nat \<Rightarrow> 'x \<Rightarrow> bool) \<Rightarrow> (nat \<times> 'x) list \<Rightarrow> bool" where
  "placed Q xs \<longleftrightarrow> (\<forall>n i. i < length (in_epoch n xs) \<longrightarrow> Q n i (in_epoch n xs ! i))"

lemma in_epoch_append [simp]:
  "in_epoch n (xs @ [(m, y)]) = (if m = n then in_epoch n xs @ [y] else in_epoch n xs)"
  by (simp add: in_epoch_def)

lemma in_epoch_Nil [simp]: "in_epoch n [] = []"
  by (simp add: in_epoch_def)

lemma set_in_epoch: "x \<in> set (in_epoch n xs) \<longleftrightarrow> (n, x) \<in> set xs"
  by (force simp: in_epoch_def image_iff)

lemma in_epoch_none: "\<forall>x\<in>set xs. fst x \<le> m \<Longrightarrow> m < n \<Longrightarrow> in_epoch n xs = []"
  by (force simp: in_epoch_def filter_empty_conv)

lemma placed_append:
  "placed Q xs \<Longrightarrow> Q m (length (in_epoch m xs)) y \<Longrightarrow> placed Q (xs @ [(m, y)])"
  by (auto simp: placed_def nth_append less_Suc_eq)

lemma placed_Nil [simp]: "placed Q []"
  by (simp add: placed_def)

lemma placedD:
  assumes "placed Q xs" "(n, y) \<in> set xs"
  obtains i where "i < length (in_epoch n xs)" "in_epoch n xs ! i = y" "Q n i y"
proof -
  from assms(2) have "y \<in> set (in_epoch n xs)" by (simp add: set_in_epoch)
  then obtain i where "i < length (in_epoch n xs)" "in_epoch n xs ! i = y" by (auto simp: in_set_conv_nth)
  with assms(1) that show ?thesis by (auto simp: placed_def)
qed

lemma prefix_by_index:
  assumes "\<And>i. i < length xs \<Longrightarrow> i < length ys \<and> xs ! i = ys ! i"
  shows "prefix xs ys"
proof -
  have "length xs \<le> length ys" using assms by (metis less_irrefl not_le_imp_less)
  then have "xs = take (length xs) ys" using assms by (intro nth_equalityI) simp_all
  then show ?thesis by (metis take_is_prefix)
qed

text \<open>The sender numbers its calls per epoch, and so does the receiver.\<close>

definition sent_as :: "primitives \<Rightarrow> session_state \<Rightarrow> nat \<Rightarrow> nat \<Rightarrow> frame \<times> aead_call \<Rightarrow> bool" where
  "sent_as P a0 n i x \<longleftrightarrow> (case x of (f, call) \<Rightarrow> \<not> encrypted f \<and>
     ac_key call = key_after (s_TxKey a0) (s_SessionID a0) (txDirection a0) n \<and>
     ac_text call = p_seal P (ac_key call) (ac_nonce call) (f_Payload f) (ac_aad call) \<and>
     length (ac_nonce call) = 12 \<and>
     ac_aad call = BuildAAD f (s_TxEpoch a0 + of_nat n) (of_nat i))"

definition sender_inv :: "primitives \<Rightarrow> session_state \<Rightarrow> channel \<Rightarrow> bool" where
  "sender_inv P a0 c \<longleftrightarrow>
     s_SessionID (c_sender c) = s_SessionID a0 \<and> txDirection (c_sender c) = txDirection a0 \<and>
     s_TxKey (c_sender c) = key_after (s_TxKey a0) (s_SessionID a0) (txDirection a0) (c_out c) \<and>
     s_TxEpoch (c_sender c) = s_TxEpoch a0 + of_nat (c_out c) \<and>
     placed (sent_as P a0) (c_sent c) \<and> (\<forall>x\<in>set (c_sent c). fst x \<le> c_out c) \<and>
     (\<forall>n. length (in_epoch n (c_sent c)) < 2 ^ 64) \<and>
     unat (s_TxSequence (c_sender c)) = length (in_epoch (c_out c) (c_sent c))"

definition accepted_as :: "primitives \<Rightarrow> session_state \<Rightarrow> nat \<Rightarrow> nat \<Rightarrow> frame \<times> aead_call \<Rightarrow> bool" where
  "accepted_as P b0 n i x \<longleftrightarrow> (case x of (f, call) \<Rightarrow> \<exists>g.
     f_Version f = f_Version g \<and> f_MsgType f = f_MsgType g \<and> f_Flags f = f_Flags g AND NOT FlagEncrypted \<and>
     p_open P (ac_key call) (ac_nonce call) (ac_text call) (ac_aad call) = Some (f_Payload f) \<and>
     ac_aad call = BuildAAD g (s_RxEpoch b0 + of_nat n) (of_nat i))"

definition receiver_inv :: "primitives \<Rightarrow> session_state \<Rightarrow> channel \<Rightarrow> bool" where
  "receiver_inv P b0 c \<longleftrightarrow>
     s_RxEpoch (c_receiver c) = s_RxEpoch b0 + of_nat (c_in c) \<and>
     placed (accepted_as P b0) (c_accepted c) \<and> (\<forall>x\<in>set (c_accepted c). fst x \<le> c_in c) \<and>
     (\<forall>n. length (in_epoch n (c_accepted c)) < 2 ^ 64) \<and>
     unat (s_RxSequence (c_receiver c)) = length (in_epoch (c_in c) (c_accepted c))"

lemma Suc_unat_bound: "q \<noteq> MaxUint64 \<Longrightarrow> Suc (unat q) < 2 ^ 64"
  using less_MaxUint64 [of q] by simp

lemma sender_inv_run:
  assumes "channel_run P a0 b0 c" "s_TxSequence a0 = 0"
  shows "sender_inv P a0 c"
  using assms
proof (induction rule: channel_run.induct)
  case new
  then show ?case by (simp add: sender_inv_def new_channel_def)
next
  case (send c t now f g a)
  let ?s = "c_sender c" and ?call = "seal_call (\<lambda>P. Session_EncryptFrame P t now f (c_sender c)) P"
  from send.hyps(2) have e: "\<not> encrypted f" "s_TxSequence ?s \<noteq> MaxUint64" "g = sealed_frame P f ?s"
    "a = after_seal P t now f ?s" by (simp_all add: Session_EncryptFrame_Ok_iff)
  note inv = send.IH [OF send.prems]
  then have "unat (s_TxSequence ?s) = length (in_epoch (c_out c) (c_sent c))" by (simp add: sender_inv_def)
  from arg_cong [OF this, of "of_nat :: nat \<Rightarrow> u64"]
  have seq: "s_TxSequence ?s = of_nat (length (in_epoch (c_out c) (c_sent c)))" by simp
  have "sent_as P a0 (c_out c) (length (in_epoch (c_out c) (c_sent c))) (f, ?call)"
    using inv e(1,3) seal_call_eq [OF send.hyps(2)] seq
    by (simp add: sent_as_def sender_inv_def sealed_frame_def tx_nonce_def)
  moreover have "unat (s_TxSequence ?s + 1) = unat (s_TxSequence ?s) + 1" using e(2) by (rule MaxUint64_next)
  ultimately show ?case
    using inv e(4) Suc_unat_bound [OF e(2)] by (auto simp: sender_inv_def intro: placed_append)
next
  case (rekey_out c now)
  from rekey_out.IH [OF rekey_out.prems] have inv: "sender_inv P a0 c" .
  then have "in_epoch (Suc (c_out c)) (c_sent c) = []"
    by (intro in_epoch_none [of _ "c_out c"]) (auto simp: sender_inv_def)
  then show ?case
    using inv by (auto simp: sender_inv_def RekeyOutbound_def txDirection_def algebra_simps)
qed (simp_all add: sender_inv_def)

lemma receiver_inv_run:
  assumes "channel_run P a0 b0 c" "s_RxSequence b0 = 0"
  shows "receiver_inv P b0 c"
  using assms
proof (induction rule: channel_run.induct)
  case new
  then show ?case by (simp add: receiver_inv_def new_channel_def)
next
  case (accept c now g f b)
  let ?r = "c_receiver c" and ?call = "open_call (\<lambda>P. Session_DecryptFrame P now g (c_receiver c)) P"
  from accept.hyps(2) have e: "s_RxSequence ?r \<noteq> MaxUint64" "opened_frame P g ?r (s_RxSequence ?r) = Ok f"
    "b = Touch now (?r\<lparr>s_RxSequence := s_RxSequence ?r + 1\<rparr>)"
    by (simp_all add: Session_DecryptFrame_Ok_iff)
  note inv = accept.IH [OF accept.prems]
  then have "unat (s_RxSequence ?r) = length (in_epoch (c_in c) (c_accepted c))" by (simp add: receiver_inv_def)
  from arg_cong [OF this, of "of_nat :: nat \<Rightarrow> u64"]
  have seq: "s_RxSequence ?r = of_nat (length (in_epoch (c_in c) (c_accepted c)))" by simp
  have "accepted_as P b0 (c_in c) (length (in_epoch (c_in c) (c_accepted c))) (f, ?call)"
    using inv seq DecryptFrame_OkD [OF e(2) [unfolded opened_frame_def]] open_call_eq [OF accept.hyps(2)]
    by (auto simp: accepted_as_def receiver_inv_def expected_open_def)
  moreover have "unat (s_RxSequence ?r + 1) = unat (s_RxSequence ?r) + 1" using e(1) by (rule MaxUint64_next)
  ultimately show ?case
    using inv e(3) Suc_unat_bound [OF e(1)] by (auto simp: receiver_inv_def Touch_def intro: placed_append)
next
  case (refuse c now g e b)
  from refused(2) [OF refuse.hyps(2)] refuse.IH [OF refuse.prems] show ?case by simp
next
  case (rekey_in c)
  from rekey_in.IH [OF rekey_in.prems] have inv: "receiver_inv P b0 c" .
  then have "in_epoch (Suc (c_in c)) (c_accepted c) = []"
    by (intro in_epoch_none [of _ "c_in c"]) (auto simp: receiver_inv_def)
  then show ?case using inv by (auto simp: receiver_inv_def RekeyInbound_def algebra_simps)
qed (simp_all add: receiver_inv_def)

lemma of_nat_u32_eq: "n < 2 ^ 32 \<Longrightarrow> m < 2 ^ 32 \<Longrightarrow> (of_nat n :: u32) = of_nat m \<longleftrightarrow> n = m"
  by (simp add: word_of_nat_eq_iff take_bit_nat_eq_self)

lemma of_nat_u64_eq: "n < 2 ^ 64 \<Longrightarrow> m < 2 ^ 64 \<Longrightarrow> (of_nat n :: u64) = of_nat m \<longleftrightarrow> n = m"
  by (simp add: word_of_nat_eq_iff take_bit_nat_eq_self)

lemma length_key_after: "length k = 32 \<Longrightarrow> length (key_after k sid dir n) = 32"
  by (cases n) simp_all

text \<open>A call that both sealed and opened: the epochs, the places and the frames agree.\<close>

lemma same_call:
  assumes "aead_correct P" "length (s_TxKey a0) = 32" "s_TxEpoch a0 = s_RxEpoch b0"
    and acc: "accepted_as P b0 n i (f, call)" and sent: "sent_as P a0 m j (h, call)"
    and "n < 2 ^ 32" "m < 2 ^ 32" "i < 2 ^ 64" "j < 2 ^ 64"
  shows "n = m \<and> i = j \<and> f = h"
proof -
  obtain g where g: "f_Version f = f_Version g" "f_MsgType f = f_MsgType g"
    "f_Flags f = f_Flags g AND NOT FlagEncrypted"
    "p_open P (ac_key call) (ac_nonce call) (ac_text call) (ac_aad call) = Some (f_Payload f)"
    "ac_aad call = BuildAAD g (s_RxEpoch b0 + of_nat n) (of_nat i)"
    using acc by (auto simp: accepted_as_def)
  have h: "\<not> encrypted h" "ac_key call = key_after (s_TxKey a0) (s_SessionID a0) (txDirection a0) m"
    "ac_text call = p_seal P (ac_key call) (ac_nonce call) (f_Payload h) (ac_aad call)"
    "length (ac_nonce call) = 12" "ac_aad call = BuildAAD h (s_TxEpoch a0 + of_nat m) (of_nat j)"
    using sent by (simp_all add: sent_as_def)
  have eq: "f_Version g = f_Version h" "f_MsgType g = f_MsgType h"
    "f_Flags g OR FlagEncrypted = f_Flags h OR FlagEncrypted" "(of_nat n :: u32) = of_nat m"
    "(of_nat i :: u64) = of_nat j"
    using g(5) h(5) assms(3) by (simp_all add: BuildAAD_inject)
  have "length (ac_key call) = 32" using h(2) assms(2) by (simp add: length_key_after)
  then have "p_open P (ac_key call) (ac_nonce call) (ac_text call) (ac_aad call) = Some (f_Payload h)"
    using assms(1) h(3,4) by (simp add: aead_correct_def)
  then have "f_Payload f = f_Payload h" using g(4) by simp
  moreover have "f_Flags f = f_Flags h"
  proof -
    have "(f_Flags g OR FlagEncrypted) AND NOT FlagEncrypted = f_Flags f"
      unfolding g(3) by (simp only: bit.conj_disj_distrib2) simp
    moreover have "(f_Flags h OR FlagEncrypted) AND NOT FlagEncrypted = f_Flags h"
      using h(1) by (intro flag_clear) (simp add: encrypted_def)
    ultimately show ?thesis using eq(3) by simp
  qed
  ultimately have "f = h" using g(1,2) eq(1,2) by (intro frame.equality) simp_all
  moreover have "n = m" using eq(4) of_nat_u32_eq [OF assms(6,7)] by simp
  moreover have "i = j" using eq(5) of_nat_u64_eq [OF assms(8,9)] by simp
  ultimately show ?thesis by simp
qed

lemma accepted_prefix:
  assumes run: "channel_run P a0 b0 c" and uf: "unforged c"
    and aead: "aead_correct P" "length (s_TxKey a0) = 32"
    and start: "s_TxSequence a0 = 0" "s_RxSequence b0 = 0" "s_TxEpoch a0 = s_RxEpoch b0"
    and few: "c_out c < 2 ^ 32" "c_in c < 2 ^ 32"
  shows "prefix (in_epoch n (c_accepted c)) (in_epoch n (c_sent c))"
proof (rule prefix_by_index)
  fix i assume i: "i < length (in_epoch n (c_accepted c))"
  note s = sender_inv_run [OF run start(1)] and r = receiver_inv_run [OF run start(2)]
  obtain f call where x: "in_epoch n (c_accepted c) ! i = (f, call)" by (cases "in_epoch n (c_accepted c) ! i")
  have "accepted_as P b0 n i (in_epoch n (c_accepted c) ! i)"
    using r i by (simp add: receiver_inv_def placed_def)
  then have acc: "accepted_as P b0 n i (f, call)" by (simp only: x)
  have mem: "(n, f, call) \<in> set (c_accepted c)" using i x by (metis nth_mem set_in_epoch)
  with uf obtain m h where "(m, h, call) \<in> set (c_sent c)" by (fastforce simp: unforged_def)
  moreover have "placed (sent_as P a0) (c_sent c)" using s by (simp add: sender_inv_def)
  ultimately obtain j where j: "(m, h, call) \<in> set (c_sent c)" "j < length (in_epoch m (c_sent c))"
    "in_epoch m (c_sent c) ! j = (h, call)" "sent_as P a0 m j (h, call)" by (meson placedD)
  have "n \<le> c_in c" "m \<le> c_out c" "i < 2 ^ 64" "j < 2 ^ 64"
    using r s mem j(1,2) i by (auto simp: receiver_inv_def sender_inv_def intro: less_trans)
  with same_call [OF aead start(3) acc j(4)] few have "n = m \<and> i = j \<and> f = h" by simp
  with j(2,3) x show "i < length (in_epoch n (c_sent c)) \<and>
      in_epoch n (c_accepted c) ! i = in_epoch n (c_sent c) ! i" by simp
qed

section \<open>Properties\<close>

text \<open>C10: a sender and a receiver whose sessions are in step exchange any list of frames: every frame
  that is sealed opens at the other end to itself, in order, and afterwards the two are still in
  step, also when the sender's outbound and the receiver's inbound direction are then rekeyed.\<close>

theorem record_stream_delivered:
  assumes "in_step P a b" "session_records.seal_all P now fs a = Some (gs, a')"
  shows "\<exists>b'. session_records.unseal_all P now gs b = Some (fs, b') \<and> in_step P a' b' \<and>
    in_step P (RekeyOutbound t a') (RekeyInbound b')"
  using session_records.delivers_all [OF assms] in_step_rekey by blast

lemma sample_in_step: "in_step sample (sample_session 1) (sample_session 2)"
  using sample_aead sample_paired(1) by (simp add: in_step_def)

theorem record_stream_delivered_witness:
  "\<exists>gs a b. session_records.seal_all sample 0 [sample_frame, sample_frame] (sample_session 1) = Some (gs, a) \<and>
     session_records.unseal_all sample 0 gs (sample_session 2) = Some ([sample_frame, sample_frame], b) \<and>
     in_step sample (RekeyOutbound 0 a) (RekeyInbound b)"
proof -
  have s: "\<exists>g s'. send_frame sample 0 sample_frame s = Some (g, s') \<and> s_TxSequence s' = s_TxSequence s + 1 \<and>
      length (s_TxKey s') = 32"
    if "s_TxSequence s < 5" "length (s_TxKey s) = 32" for s
  proof -
    have "s_TxSequence s \<noteq> MaxUint64" using that(1) by (auto simp: MaxUint64_def)
    then show ?thesis
      using sample_frame_plain that(2) by (simp add: send_frame_Some_iff Session_EncryptFrame_Ok_iff sample_def)
  qed
  obtain g1 s1 where 1: "send_frame sample 0 sample_frame (sample_session 1) = Some (g1, s1)"
    "s_TxSequence s1 = 1" "length (s_TxKey s1) = 32"
    using s [of "sample_session 1"] by auto
  obtain g2 s2 where 2: "send_frame sample 0 sample_frame s1 = Some (g2, s2)"
    using s [of s1] 1 by auto
  have "session_records.seal_all sample 0 [sample_frame, sample_frame] (sample_session 1) = Some ([g1, g2], s2)"
    by (simp add: 1(1) 2)
  with record_stream_delivered [OF sample_in_step this, of 0] show ?thesis by blast
qed

text \<open>C2: against a network that may drop, reorder, replay, delay and invent frames: as long as it forges no
  record, that is every record accepted was opened with a key, nonce, ciphertext and additional
  data the sender had sealed with, the frames the receiver has accepted in an epoch are a prefix of
  the frames the sender has sent in it.\<close>

theorem hostile_network_prefix:
  assumes "channel_run P a0 b0 c" "unforged c" "aead_correct P" "length (s_TxKey a0) = 32"
    and "s_TxSequence a0 = 0" "s_RxSequence b0 = 0" "s_TxEpoch a0 = s_RxEpoch b0"
    and "c_out c < 2 ^ 32" "c_in c < 2 ^ 32"
  shows "prefix (map fst (in_epoch n (c_accepted c))) (map fst (in_epoch n (c_sent c)))"
  by (rule map_mono_prefix [OF accepted_prefix [OF assms]])

theorem hostile_network_prefix_witness:
  "\<exists>c. channel_run sample (sample_session 1) (sample_session 2) c \<and>
     map fst (in_epoch 0 (c_accepted c)) = [sample_frame] \<and>
     prefix (map fst (in_epoch 0 (c_accepted c))) (map fst (in_epoch 0 (c_sent c)))"
proof -
  let ?a = "sample_session 1" and ?b = "sample_session 2" and ?f = sample_frame
  let ?g = "sealed_frame sample ?f ?a" and ?a' = "after_seal sample 0 0 ?f ?a"
  let ?sc = "seal_call (\<lambda>P. Session_EncryptFrame P 0 0 ?f ?a) sample"
  let ?oc = "open_call (\<lambda>P. Session_DecryptFrame P 0 ?g ?b) sample"
  let ?c1 = "(new_channel ?a ?b)\<lparr>c_sender := ?a', c_sent := [(0, ?f, ?sc)]\<rparr>"
  have "channel_run sample ?a ?b ?c1"
    using channel_run.send [OF channel_run.new [of sample ?a ?b], of 0 0 ?f ?g ?a'] sample_seals [of 0 0 1]
    by (simp add: new_channel_def)
  moreover obtain b' where d: "Session_DecryptFrame sample 0 ?g ?b = (Ok ?f, b')"
    by (rule session_delivers [OF sample_in_step sample_seals])
  ultimately have run: "channel_run sample ?a ?b (?c1\<lparr>c_receiver := b', c_accepted := [(0, ?f, ?oc)]\<rparr>)"
    (is "channel_run _ _ _ ?c2")
    using channel_run.accept [of sample ?a ?b ?c1 0 ?g ?f b'] by (simp add: new_channel_def)
  have "paired ?a ?b" by (rule sample_paired(1))
  then have "BuildAAD ?g 0 0 = BuildAAD ?f 0 0"
    "DeriveNonce 9 (replicate 32 1) (rxDirection ?b) 0 = tx_nonce ?a"
    by (simp_all add: paired_def tx_nonce_def BuildAAD_encrypted sealed_frame_def)
  then have "?oc = ?sc"
    using open_call_eq [OF d] seal_call_eq [OF sample_seals [of 0 0 1]] by (simp add: expected_open_def)
  then have uf: "unforged ?c2" by (simp add: unforged_def new_channel_def)
  have "prefix (map fst (in_epoch 0 (c_accepted ?c2))) (map fst (in_epoch 0 (c_sent ?c2)))"
    by (rule hostile_network_prefix [OF run uf sample_aead]) (simp_all add: new_channel_def)
  moreover have "map fst (in_epoch 0 (c_accepted ?c2)) = [?f]" by (simp add: in_epoch_def)
  ultimately show ?thesis by (intro exI [of _ ?c2] conjI run)
qed

end
