(* ===== verification/Client_IO.thy ===== *)
theory Client_IO
  imports Env_Config Secure_Channel
begin

unbundle bit_operations_syntax

text \<open>
  A client's connection and the two functions that put frames on it and take them off it
  (\<open>writeFrame\<close> and \<open>readFrame\<close> of \<open>transport/tcp/client.go\<close>). A \<open>conn\<close> has the bytes the peer
  sends before it closes, the bytes written so far, and what becomes of the writes still to
  come: the next one succeeds (\<open>None\<close>) or fails after some bytes (\<open>Some k\<close>); after the list
  every write succeeds. \<open>cn_close_fails\<close> tells whether closing it reports an error.
\<close>

record conn =
  cn_in :: bytes
  cn_out :: bytes
  cn_faults :: "nat option list"
  cn_closed :: bool
  cn_close_fails :: bool

definition Conn_Write :: "bytes \<Rightarrow> (conn, unit) go_method" where
  "Conn_Write b c =
     (if cn_closed c then (Err (ClientError IoClosed), c)
      else case cn_faults c of
        [] \<Rightarrow> (Ok (), c\<lparr>cn_out := cn_out c @ b\<rparr>)
      | None # fs \<Rightarrow> (Ok (), c\<lparr>cn_out := cn_out c @ b, cn_faults := fs\<rparr>)
      | Some k # fs \<Rightarrow> (Err (ClientError IoWrite), c\<lparr>cn_out := cn_out c @ take k b, cn_faults := fs\<rparr>))"

text \<open>Closing fails for a connection that is closed already, and may fail otherwise; it is closed
  afterwards in every case.\<close>

definition Conn_Close :: "(conn, unit) go_method" where
  "Conn_Close c =
     (if cn_closed c then Err (ClientError IoClosed)
      else if cn_close_fails c then Err (ClientError IoClose) else Ok (),
      c\<lparr>cn_closed := True\<rparr>)"

text \<open>\<open>io.ReadFull\<close> of a buffer of \<open>n\<close> bytes.\<close>

definition ReadFull :: "nat \<Rightarrow> (conn, bytes) go_method" where
  "ReadFull n c =
     (if n = 0 then (Ok [], c)
      else if cn_closed c then (Err (ClientError IoClosed), c)
      else if n \<le> length (cn_in c) then (Ok (take n (cn_in c)), c\<lparr>cn_in := drop n (cn_in c)\<rparr>)
      else (Err (ClientError (if cn_in c = [] then IoEOF else IoUnexpectedEOF)), c\<lparr>cn_in := []\<rparr>))"

definition writeFrame :: "frame \<Rightarrow> (conn, unit) go_method" where
  "writeFrame f = Conn_Write (Encoder_Bytes (Frame_Encode f NewEncoder))"

definition read_header :: "(byte \<times> byte \<times> byte \<times> u32) reader" where
  "read_header =
     sbind ReadU8 (\<lambda>version.
     sbind ReadU8 (\<lambda>msgType.
     sbind ReadU8 (\<lambda>flags.
     sbind ReadU32 (\<lambda>len.
     sret (version, msgType, flags, len)))))"

definition readFrame :: "(conn, frame) go_method" where
  "readFrame =
     sbind (ReadFull 7) (\<lambda>header.
     sbind (slift (fst (read_header (NewDecoder header)))) (\<lambda>(version, msgType, flags, len).
     sbind (ReadFull (unat len)) (\<lambda>payload.
     sret \<lparr>f_Version = version, f_MsgType = msgType, f_Flags = flags, f_Payload = payload\<rparr>)))"

section \<open>Frames on the wire\<close>

text \<open>A frame whose length fits the 32-bit field; \<open>readFrame\<close> checks nothing else.\<close>

definition wire_ok :: "frame \<Rightarrow> bool" where
  "wire_ok f \<longleftrightarrow> length (f_Payload f) < 2 ^ 32"

lemma header_parses: "parses read_header (v # m # fl # be32 len) (v, m, fl, len)"
  unfolding read_header_def by (intro parses_steps) auto

lemma header_total:
  assumes "length h = 7"
  obtains v m fl len where "fst (read_header (NewDecoder h)) = Ok (v, m, fl, len)"
    "h = v # m # fl # be32 len"
proof -
  obtain v m fl r where h: "h = v # m # fl # r" "length r = 4"
    using assms by (auto simp: numeral_eq_Suc length_Suc_conv)
  obtain len where len: "be_Uint32 r = Ok len" using be_Uint32_total [OF h(2)] by blast
  have r: "r = be32 len" using be32_Uint32 [OF len h(2)] by simp
  obtain d where "read_header (NewDecoder ((v # m # fl # be32 len) @ [])) = (Ok (v, m, fl, len), d)"
    by (rule parses_NewDecoder [OF header_parses, of v m fl len "[]"]) auto
  then have "fst (read_header (NewDecoder h)) = Ok (v, m, fl, len)" by (simp add: h(1) r)
  then show ?thesis using h(1) r by (intro that [of v m fl len]) simp_all
qed

lemma readFrame_frame:
  assumes "wire_ok f" "\<not> cn_closed c" "cn_in c = frame_bytes f @ rest"
  shows "readFrame c = (Ok f, c\<lparr>cn_in := rest\<rparr>)"
proof -
  let ?len = "of_nat (length (f_Payload f)) :: u32"
  let ?h = "f_Version f # f_MsgType f # f_Flags f # be32 ?len"
  have h: "ReadFull 7 c = (Ok ?h, c\<lparr>cn_in := f_Payload f @ rest\<rparr>)"
    using assms by (simp add: ReadFull_def frame_bytes_eq)
  obtain d where "read_header (NewDecoder (?h @ [])) =
      (Ok (f_Version f, f_MsgType f, f_Flags f, ?len), d)"
    by (rule parses_NewDecoder [OF header_parses, of "f_Version f" "f_MsgType f" "f_Flags f" ?len "[]"]) auto
  then have d: "fst (read_header (NewDecoder ?h)) = Ok (f_Version f, f_MsgType f, f_Flags f, ?len)" by simp
  have len: "unat ?len = length (f_Payload f)"
    using assms(1) by (simp add: wire_ok_def unat_of_nat)
  have p: "ReadFull (length (f_Payload f)) (c\<lparr>cn_in := f_Payload f @ rest\<rparr>) =
      (Ok (f_Payload f), c\<lparr>cn_in := rest\<rparr>)"
    using assms(2) by (simp add: ReadFull_def)
  show ?thesis
    by (simp add: readFrame_def sbind_apply h slift_def d len p sret_def)
qed

text \<open>A frame that arrives in part is not returned.\<close>

lemma readFrame_part:
  assumes "wire_ok f" "\<not> cn_closed c" "cn_in c = take k (frame_bytes f)" "k < length (frame_bytes f)"
  obtains err c' where "readFrame c = (Err (ClientError err), c')" "err \<in> {IoEOF, IoUnexpectedEOF}"
proof (cases "k < 7")
  case True
  then have "\<exists>err c'. ReadFull 7 c = (Err (ClientError err), c') \<and> err \<in> {IoEOF, IoUnexpectedEOF}"
    using assms by (simp add: ReadFull_def)
  then show ?thesis using that by (auto simp: readFrame_def sbind_apply)
next
  case False
  let ?len = "of_nat (length (f_Payload f)) :: u32"
  let ?h = "f_Version f # f_MsgType f # f_Flags f # be32 ?len"
  let ?c = "c\<lparr>cn_in := take (k - 7) (f_Payload f)\<rparr>"
  obtain j where j: "k = 7 + j" using False by (metis le_add_diff_inverse not_less)
  have "take k (frame_bytes f) = ?h @ take j (f_Payload f)"
    by (simp add: frame_bytes_eq j take_Cons')
  then have h: "ReadFull 7 c = (Ok ?h, ?c)" using assms(2,3) j by (simp add: ReadFull_def)
  obtain d where "read_header (NewDecoder (?h @ [])) =
      (Ok (f_Version f, f_MsgType f, f_Flags f, ?len), d)"
    by (rule parses_NewDecoder [OF header_parses, of "f_Version f" "f_MsgType f" "f_Flags f" ?len "[]"]) auto
  then have d: "fst (read_header (NewDecoder ?h)) = Ok (f_Version f, f_MsgType f, f_Flags f, ?len)" by simp
  have len: "unat ?len = length (f_Payload f)"
    using assms(1) by (simp add: wire_ok_def unat_of_nat)
  have "j < length (f_Payload f)" using assms(4) j by (simp add: frame_bytes_eq)
  then have "\<exists>err c'. ReadFull (length (f_Payload f)) ?c = (Err (ClientError err), c') \<and>
      err \<in> {IoEOF, IoUnexpectedEOF}"
    using assms(2) j by (auto simp: ReadFull_def)
  then show ?thesis using that by (auto simp: readFrame_def sbind_apply h slift_def d len)
qed

lemma writeFrame_ok:
  "\<not> cn_closed c \<Longrightarrow> cn_faults c = [] \<Longrightarrow> writeFrame f c = (Ok (), c\<lparr>cn_out := cn_out c @ frame_bytes f\<rparr>)"
  by (simp add: writeFrame_def Conn_Write_def frame_bytes_def)

lemma writeFrame_in:
  "cn_in (snd (writeFrame f c)) = cn_in c" "cn_closed (snd (writeFrame f c)) = cn_closed c"
  by (simp_all add: writeFrame_def Conn_Write_def split: list.splits option.splits)

text \<open>Whatever arrives, reading a frame fails or takes a frame's bytes off the input: it never
  panics, and never returns a frame without consuming its header.\<close>

lemma ReadFull_cases:
  obtains "ReadFull n c = (Ok (take n (cn_in c)), c\<lparr>cn_in := drop n (cn_in c)\<rparr>)" "n \<le> length (cn_in c)"
  | e c' where "ReadFull n c = (Err e, c')"
proof (cases "n = 0 \<or> \<not> cn_closed c \<and> n \<le> length (cn_in c)")
  case True
  then show ?thesis by (intro that(1)) (auto simp: ReadFull_def)
next
  case False
  then have "\<exists>e. fst (ReadFull n c) = Err e" by (auto simp: ReadFull_def)
  then obtain e where "fst (ReadFull n c) = Err e" by blast
  then show ?thesis by (intro that(2) [of e "snd (ReadFull n c)"]) (simp add: prod_eq_iff)
qed

lemma readFrame_cases:
  obtains (frame) f rest where "readFrame c = (Ok f, c\<lparr>cn_in := rest\<rparr>)" "cn_in c = frame_bytes f @ rest" "wire_ok f"
  | (error) e c' where "readFrame c = (Err e, c')"
proof (rule ReadFull_cases [of 7 c])
  assume 7: "ReadFull 7 c = (Ok (take 7 (cn_in c)), c\<lparr>cn_in := drop 7 (cn_in c)\<rparr>)" "7 \<le> length (cn_in c)"
  let ?c = "c\<lparr>cn_in := drop 7 (cn_in c)\<rparr>"
  obtain v m fl len where h: "fst (read_header (NewDecoder (take 7 (cn_in c)))) = Ok (v, m, fl, len)"
    "take 7 (cn_in c) = v # m # fl # be32 len"
    by (rule header_total [of "take 7 (cn_in c)"]) (use 7(2) in simp_all)
  show thesis
  proof (rule ReadFull_cases [of "unat len" ?c])
    assume p: "ReadFull (unat len) ?c = (Ok (take (unat len) (cn_in ?c)), ?c\<lparr>cn_in := drop (unat len) (cn_in ?c)\<rparr>)"
      "unat len \<le> length (cn_in ?c)"
    let ?f = "\<lparr>f_Version = v, f_MsgType = m, f_Flags = fl, f_Payload = take (unat len) (drop 7 (cn_in c))\<rparr>"
    let ?rest = "drop (unat len) (drop 7 (cn_in c))"
    have l: "length (f_Payload ?f) = unat len" using p(2) by simp
    have "cn_in c = take 7 (cn_in c) @ drop 7 (cn_in c)" by simp
    also have "drop 7 (cn_in c) = f_Payload ?f @ ?rest" by (simp only: frame.simps append_take_drop_id)
    also have "take 7 (cn_in c) @ f_Payload ?f @ ?rest = frame_bytes ?f @ ?rest"
      using l by (simp only: frame_bytes_eq h(2)) simp
    finally have "cn_in c = frame_bytes ?f @ ?rest" .
    moreover have "wire_ok ?f" unfolding wire_ok_def l by (rule unat32_less)
    moreover have "readFrame c = (Ok ?f, c\<lparr>cn_in := ?rest\<rparr>)"
      using p(1) by (simp add: readFrame_def sbind_apply 7(1) slift_def h(1) sret_def)
    ultimately show thesis by (intro frame)
  next
    fix e c' assume "ReadFull (unat len) ?c = (Err e, c')"
    then show thesis
      by (intro error [of e c']) (simp add: readFrame_def sbind_apply 7(1) slift_def h(1))
  qed
next
  fix e c' assume "ReadFull 7 c = (Err e, c')"
  then show thesis by (intro error [of e c']) (simp add: readFrame_def sbind_apply)
qed

lemma readFrame_shorter:
  assumes "readFrame c = (Ok f, c')"
  shows "length (cn_in c') < length (cn_in c)"
  by (rule readFrame_cases [of c]) (use assms in \<open>auto simp: frame_bytes_eq\<close>)

section \<open>Properties\<close>

text \<open>\<open>readFrame\<close> takes exactly one frame off the connection or fails: it never panics, and when it
  returns a frame the bytes consumed are that frame's encoding.\<close>

lemma readFrame_consumes_frame:
  "fst (readFrame c) \<noteq> Panic \<and>
   (readFrame c = (Ok f, c') \<longrightarrow> cn_in c = frame_bytes f @ cn_in c' \<and> length (f_Payload f) < 2 ^ 32)"
  by (rule readFrame_cases [of c]) (auto simp: wire_ok_def)

definition open_conn :: "bytes \<Rightarrow> conn" where
  "open_conn b = \<lparr>cn_in = b, cn_out = [], cn_faults = [], cn_closed = False,
     cn_close_fails = False\<rparr>"

text \<open>C40: \<open>readFrame\<close> returns every frame \<open>writeFrame\<close> can write, of whatever version and size, while
  the decoder of the frame package takes the same bytes only for version 1 and at most 16 MiB: the
  client does not enforce the limits of the format.\<close>

theorem wire_limits_not_enforced:
  assumes "length (f_Payload f) < 2 ^ 32" "\<not> cn_closed c" "cn_in c = frame_bytes f @ rest"
  shows "readFrame c = (Ok f, c\<lparr>cn_in := rest\<rparr>) \<and>
    (is_Ok (fst (Frame_Decode (NewDecoder (frame_bytes f)))) \<longleftrightarrow>
       f_Version f = frame_Version \<and> length (f_Payload f) \<le> 16777216)"
proof -
  have short: "length (frame_bytes f) < 2 ^ 62" using assms(1) by (simp add: length_frame_bytes)
  have "is_Ok (fst (Frame_Decode (NewDecoder (frame_bytes f)))) \<longleftrightarrow>
      (\<exists>g r. \<exists>d. Frame_Decode (NewDecoder (frame_bytes f)) = (Ok g, d) \<and> unread d = r)"
    by (auto simp: is_Ok_iff prod_eq_iff)
  also have "\<dots> \<longleftrightarrow> (\<exists>g r. frame_valid g \<and> frame_bytes f = frame_bytes g @ r)"
    by (simp only: frame_format.accepts_iff [OF short])
  also have "\<dots> \<longleftrightarrow> frame_valid f"
  proof
    assume "\<exists>g r. frame_valid g \<and> frame_bytes f = frame_bytes g @ r"
    then obtain g r where g: "frame_valid g" "frame_bytes f = frame_bytes g @ r" by blast
    have len: "length (f_Payload g) < 2 ^ 32" by (rule frame_valid_length [OF g(1)])
    from g(2) have "f_Version f = f_Version g"
      "(of_nat (length (f_Payload f)) :: u32) = of_nat (length (f_Payload g))"
      by (auto simp: frame_bytes_eq dest: append_eq_append_conv [THEN iffD1, rotated])
    then have "f_Version f = f_Version g" "length (f_Payload f) = length (f_Payload g)"
      using of_nat_u32_eq [OF assms(1) len] by simp_all
    with g(1) show "frame_valid f" by (simp add: frame_valid_def)
  next
    assume "frame_valid f"
    then show "\<exists>g r. frame_valid g \<and> frame_bytes f = frame_bytes g @ r"
      by (intro exI [of _ f] exI [of _ "[]"]) simp
  qed
  finally show ?thesis
    using readFrame_frame [of f c rest] assms
    by (simp add: frame_valid_def maxPayloadLen_nat wire_ok_def)
qed

theorem wire_limits_not_enforced_witness:
  "\<exists>c. readFrame (open_conn [9, 3, 0, 0, 0, 0, 0]) = (Ok \<lparr>f_Version = 9, f_MsgType = 3, f_Flags = 0, f_Payload = []\<rparr>, c) \<and>
     \<not> is_Ok (fst (Frame_Decode (NewDecoder [9, 3, 0, 0, 0, 0, 0])))"
  using wire_limits_not_enforced [of "\<lparr>f_Version = 9, f_MsgType = 3, f_Flags = 0, f_Payload = []\<rparr>"
      "open_conn [9, 3, 0, 0, 0, 0, 0]" "[]"]
  by (simp add: frame_bytes_eq open_conn_def be32_def frame_Version_def)

end
