(* ===== verification/Client.thy ===== *)
theory Client
  imports Client_IO
begin

unbundle bit_operations_syntax

text \<open>
  The TCP client (\<open>transport/tcp/client.go\<close>): dialling, the handshake as initiator, encrypted
  sending and reading, heartbeats and the timeout. A method works on the client and the
  environment (random bytes, environment variables, clock, inboxes). The order of its calls is
  the code's. Where the code may skip a reading of the clock (the rekey trigger of a session)
  the model takes one all the same: the clock is an arbitrary sequence of readings.
\<close>

definition heartbeatInterval :: duration where "heartbeatInterval = 5 * second_ns"

definition heartbeatTimeout :: duration where "heartbeatTimeout = 20 * second_ns"

definition defaultIdentityValiditySeconds :: u64 where "defaultIdentityValiditySeconds = 86400"

record client =
  cl_conn :: conn
  cl_Session :: "session_state option"
  cl_LastHeartbeatSent :: time
  cl_localIdentity :: "identity_keypair option"
  cl_localBundle :: "identity_bundle option"
  cl_trustStore :: trust_store
  cl_trustConfigured :: bool
  cl_policy :: handshake_policy

type_synonym 'a client_method = "(client \<times> env, 'a) go_method"

text \<open>Calls on the connection, readings of the clock and of the random source.\<close>

definition on_conn :: "(conn, 'a) go_method \<Rightarrow> 'a client_method" where
  "on_conn m ce = (case ce of (c, e) \<Rightarrow>
     (case m (cl_conn c) of (r, cn) \<Rightarrow> (r, (c\<lparr>cl_conn := cn\<rparr>, e))))"

definition read_clock :: "time client_method" where
  "read_clock ce = (case ce of (c, e) \<Rightarrow> case Now e of (t, e) \<Rightarrow> (Ok t, (c, e)))"

definition read_random :: "bytes option client_method" where
  "read_random ce = (case ce of (c, e) \<Rightarrow> (case ev_random e of
      [] \<Rightarrow> (Ok None, ce)
    | r # rs \<Rightarrow> (Ok r, (c, e\<lparr>ev_random := rs\<rparr>))))"

definition read_client :: "client client_method" where
  "read_client ce = (Ok (fst ce), ce)"

definition read_env :: "env client_method" where
  "read_env ce = (Ok (snd ce), ce)"

definition write_client :: "(client \<Rightarrow> client) \<Rightarrow> unit client_method" where
  "write_client g ce = (case ce of (c, e) \<Rightarrow> (Ok (), (g c, e)))"

text \<open>\<open>uint64(t.Unix())\<close>.\<close>

definition unix_seconds :: "time \<Rightarrow> u64" where
  "unix_seconds t = word_of_int (t div second_ns)"

section \<open>Set-up\<close>

text \<open>\<open>net.Dial\<close> gives a connection or fails.\<close>

definition Dial :: "conn option \<Rightarrow> env \<Rightarrow> client outcome \<times> env" where
  "Dial dialled e = (case dialled of
      None \<Rightarrow> (Err (ClientError DialFailed), e)
    | Some cn \<Rightarrow> (case Now e of (now, e) \<Rightarrow>
        (Ok \<lparr>cl_conn = cn, cl_Session = None, cl_LastHeartbeatSent = now, cl_localIdentity = None,
             cl_localBundle = None, cl_trustStore = StrictTrustStore, cl_trustConfigured = False,
             cl_policy = DefaultHandshakePolicy\<rparr>, e)))"

definition SetSecureIdentity :: "identity_keypair \<Rightarrow> identity_bundle \<Rightarrow> client \<Rightarrow> client" where
  "SetSecureIdentity identity bundle c = c\<lparr>cl_localIdentity := Some identity, cl_localBundle := Some bundle\<rparr>"

definition SetTrustStore :: "trust_store \<Rightarrow> client \<Rightarrow> client" where
  "SetTrustStore trust c = c\<lparr>cl_trustStore := trust, cl_trustConfigured := True\<rparr>"

definition SetHandshakePolicy :: "handshake_policy \<Rightarrow> client \<Rightarrow> client" where
  "SetHandshakePolicy policy c = c\<lparr>cl_policy := policy\<rparr>"

definition Client_Close :: "(client, unit) go_method" where
  "Client_Close c = (case Conn_Close (cl_conn c) of (r, cn) \<Rightarrow> (r, c\<lparr>cl_conn := cn\<rparr>))"

definition NewAppRouter :: "inbox \<Rightarrow> router" where
  "NewAppRouter i = WithAppDefaults i"

definition ensureIdentityBundle :: "primitives \<Rightarrow> (identity_keypair \<times> identity_bundle) client_method" where
  "ensureIdentityBundle P =
     sbind read_client (\<lambda>c.
     case (cl_localIdentity c, cl_localBundle c) of
       (Some identity, Some bundle) \<Rightarrow> sret (identity, bundle)
     | _ \<Rightarrow>
     sbind read_env (\<lambda>e.
     sbind (slift (buildIdentityFromEnv P e)) (\<lambda>identity.
     sbind read_clock (\<lambda>t.
     let now = unix_seconds t;
         keyID = ev_getenv e identityKeyIDEnv;
         keyID = (if TrimSpace keyID = [] then str ''shadowlark-go-client'' else keyID) in
     sbind (slift (parseOptionalUint64Env e identityValidityEnv)) (\<lambda>validity.
     let validity = (if validity = 0 then defaultIdentityValiditySeconds else validity) in
     sbind (slift (SignedIdentityBundle P keyID (now - 60) (now + validity) identity)) (\<lambda>bundle.
     sbind (write_client (SetSecureIdentity identity bundle)) (\<lambda>_.
     sret (identity, bundle))))))))"

section \<open>Handshake\<close>

definition handshakeSecure ::
    "primitives \<Rightarrow> identity_keypair \<Rightarrow> identity_bundle \<Rightarrow> trust_store \<Rightarrow> handshake_policy \<Rightarrow> unit client_method" where
  "handshakeSecure P localIdentity localBundle trustStore policy =
     sbind read_random (\<lambda>rnd.
     sbind (slift (NewSecureInitiator P localIdentity localBundle trustStore policy rnd)) (\<lambda>initiator.
     let (hello, initiator) = BuildClientHello initiator in
     sbind (slift hello) (\<lambda>clientHello.
     sbind (on_conn (writeFrame clientHello)) (\<lambda>_.
     sbind (on_conn readFrame) (\<lambda>serverHello.
     if f_MsgType serverHello \<noteq> MsgServerHello
     then sfail (ClientError (UnexpectedServerHello (f_MsgType serverHello)))
     else
     sbind read_clock (\<lambda>t.
     let (accepted, initiator) = HandleServerHello P serverHello (unix_seconds t) initiator in
     sbind (slift accepted) (\<lambda>_.
     sbind (slift (BuildClientFinish P initiator)) (\<lambda>clientFinish.
     sbind (on_conn (writeFrame clientFinish)) (\<lambda>_.
     sbind (slift (Finalize P initiator)) (\<lambda>out.
     sbind read_clock (\<lambda>now.
     write_client (\<lambda>c. c\<lparr>cl_Session := Some (FromHandshakeOutput now out)\<rparr>))))))))))))"

definition HandshakeSecure ::
    "primitives \<Rightarrow> identity_keypair \<Rightarrow> identity_bundle \<Rightarrow> trust_store \<Rightarrow> handshake_policy \<Rightarrow> unit client_method" where
  "HandshakeSecure P localIdentity localBundle trustStore policy =
     handshakeSecure P localIdentity localBundle trustStore policy"

definition Client_Handshake :: "primitives \<Rightarrow> unit client_method" where
  "Client_Handshake P =
     sbind (ensureIdentityBundle P) (\<lambda>(identity, bundle).
     sbind read_client (\<lambda>c.
     sbind (if cl_trustConfigured c then sret (cl_trustStore c)
            else sbind read_env (\<lambda>e.
              sbind (slift (buildTrustStoreFromEnv e)) (\<lambda>trust.
              sbind (write_client (SetTrustStore trust)) (\<lambda>_.
              sret trust)))) (\<lambda>trust.
     handshakeSecure P identity bundle trust (cl_policy c))))"

section \<open>Heartbeats and records\<close>

definition MaybeSendHeartbeat :: "unit client_method" where
  "MaybeSendHeartbeat =
     sbind read_client (\<lambda>c.
     sbind read_clock (\<lambda>now.
     if time_since now (cl_LastHeartbeatSent c) < heartbeatInterval then sret ()
     else
     sbind (on_conn (writeFrame (frame_New MsgHeartbeat 0 []))) (\<lambda>_.
     sbind read_clock (\<lambda>now.
     write_client (\<lambda>c. c\<lparr>cl_LastHeartbeatSent := now\<rparr>)))))"

definition CheckTimeout :: "unit client_method" where
  "CheckTimeout =
     sbind read_client (\<lambda>c. case cl_Session c of
       None \<Rightarrow> sfail (ClientError NoSession)
     | Some s \<Rightarrow> sbind read_clock (\<lambda>now.
         if IsTimedOut now s heartbeatTimeout then sfail (ClientError HeartbeatTimeout) else sret ()))"

text \<open>A method of the session behind the client's pointer.\<close>

definition on_session :: "session_state \<Rightarrow> (session_state, 'a) go_method \<Rightarrow> 'a client_method" where
  "on_session s m ce = (case m s of (r, s') \<Rightarrow> (r, ((fst ce)\<lparr>cl_Session := Some s'\<rparr>, snd ce)))"

definition SendEncrypted :: "primitives \<Rightarrow> frame \<Rightarrow> unit client_method" where
  "SendEncrypted P f =
     sbind read_client (\<lambda>c. case cl_Session c of
       None \<Rightarrow> sfail (ClientError NoSecureSession)
     | Some s \<Rightarrow>
         sbind read_clock (\<lambda>tTrig.
         sbind read_clock (\<lambda>now.
         sbind (on_session s (Session_EncryptFrame P tTrig now f)) (\<lambda>enc.
         sbind (on_conn (writeFrame enc)) (\<lambda>_.
         MaybeSendHeartbeat)))))"

definition dispatch_client :: "router \<Rightarrow> frame \<Rightarrow> unit client_method" where
  "dispatch_client r f ce = (case ce of (c, e) \<Rightarrow>
     (case Dispatch r f (e, cl_Session c) of (res, (e', sess)) \<Rightarrow>
       (res, (c\<lparr>cl_Session := sess\<rparr>, e'))))"

text \<open>The statement \<open>_ = call()\<close>: an error is dropped, a panic is not.\<close>

definition ignored :: "'a client_method \<Rightarrow> unit client_method" where
  "ignored m ce = (case m ce of (Panic, ce') \<Rightarrow> (Panic, ce') | (_, ce') \<Rightarrow> (Ok (), ce'))"

text \<open>The body of the loop for a heartbeat, and for any other frame. A handler may have set the
  session pointer to nil; \<open>DecryptFrame\<close> on a nil session then still refuses a frame that is not
  encrypted, and dereferences the pointer for one that is.\<close>

definition handle_heartbeat :: "router \<Rightarrow> frame \<Rightarrow> unit client_method" where
  "handle_heartbeat r raw =
     sbind (ignored (dispatch_client r raw)) (\<lambda>_. ignored MaybeSendHeartbeat)"

definition decrypt_client :: "primitives \<Rightarrow> frame \<Rightarrow> frame client_method" where
  "decrypt_client P raw =
     sbind read_client (\<lambda>c. case cl_Session c of
       None \<Rightarrow> (if f_Flags raw AND FlagEncrypted = 0 then sfail (SessionError FrameNotEncrypted)
                else slift Panic)
     | Some s \<Rightarrow> sbind read_clock (\<lambda>now. on_session s (Session_DecryptFrame P now raw)))"

lemma handle_heartbeat_in:
  "cn_in (cl_conn (fst (snd (handle_heartbeat r raw ce)))) = cn_in (cl_conn (fst ce))"
  by (simp add: handle_heartbeat_def sbind_def ignored_def dispatch_client_def MaybeSendHeartbeat_def
      read_client_def read_clock_def Now_def on_conn_def write_client_def sret_def writeFrame_def
      Conn_Write_def split: prod.splits outcome.splits list.splits option.splits)

function read_loop :: "primitives \<Rightarrow> router \<Rightarrow> client \<times> env \<Rightarrow> frame outcome \<times> client \<times> env" where
  "read_loop P r ce = (case on_conn readFrame ce of
      (Err e, ce') \<Rightarrow> (Err e, ce')
    | (Panic, ce') \<Rightarrow> (Panic, ce')
    | (Ok raw, ce') \<Rightarrow>
        if f_MsgType raw = MsgHeartbeat then
          (case handle_heartbeat r raw ce' of
             (Ok _, ce'') \<Rightarrow> read_loop P r ce''
           | (Err e, ce'') \<Rightarrow> (Err e, ce'')
           | (Panic, ce'') \<Rightarrow> (Panic, ce''))
        else decrypt_client P raw ce')"
  by pat_completeness auto

lemma on_conn_readFrame_shorter:
  "on_conn readFrame ce = (Ok f, ce') \<Longrightarrow>
     length (cn_in (cl_conn (fst ce'))) < length (cn_in (cl_conn (fst ce)))"
  by (auto simp: on_conn_def split: prod.splits dest: readFrame_shorter)

termination read_loop
proof (relation "measure (\<lambda>(P, r, ce). length (cn_in (cl_conn (fst ce))))", goal_cases)
  case (2 P r ce x y raw hb z u)
  have "cn_in (cl_conn (fst (snd (handle_heartbeat r raw y)))) = cn_in (cl_conn (fst y))"
    by (rule handle_heartbeat_in)
  moreover have "on_conn readFrame ce = (Ok raw, y)" using 2 by simp
  moreover have "handle_heartbeat r raw y = (hb, z)" using 2 by simp
  ultimately show ?case using on_conn_readFrame_shorter [of ce raw y] by simp
qed simp

declare read_loop.simps [simp del]

definition ReadEncrypted :: "primitives \<Rightarrow> router \<Rightarrow> frame client_method" where
  "ReadEncrypted P r =
     sbind read_client (\<lambda>c. case cl_Session c of
       None \<Rightarrow> sfail (ClientError NoSecureSession)
     | Some _ \<Rightarrow> read_loop P r)"

section \<open>Reading\<close>

lemma on_conn_readFrame:
  assumes "wire_ok f" "\<not> cn_closed (cl_conn c)" "cn_in (cl_conn c) = frame_bytes f @ rest"
  shows "on_conn readFrame (c, e) = (Ok f, (c\<lparr>cl_conn := (cl_conn c)\<lparr>cn_in := rest\<rparr>\<rparr>, e))"
  using readFrame_frame [OF assms] by (simp add: on_conn_def)

text \<open>With the application router a heartbeat touches the session and leaves everything else of
  it as it is; it may be answered by a heartbeat of the client's own.\<close>

lemma handle_heartbeat_app:
  assumes "f_MsgType raw = MsgHeartbeat" "cl_Session c = Some s"
  obtains c' e' t where "handle_heartbeat (NewAppRouter i) raw (c, e) = (Ok (), (c', e'))"
    "t = ev_clock e (ev_reads e)" "cl_Session c' = Some (Touch t s)" "cn_in (cl_conn c') = cn_in (cl_conn c)"
    "cn_closed (cl_conn c') = cn_closed (cl_conn c)" "ev_store e' = ev_store e"
proof -
  obtain t e1 where n: "Now e = (t, e1)" by (cases "Now e")
  then have t: "t = ev_clock e (ev_reads e)" by (simp add: Now_def)
  have st: "ev_store e1 = ev_store e" using n by (auto simp: Now_def)
  let ?c = "c\<lparr>cl_Session := Some (Touch t s)\<rparr>"
  have d: "ignored (dispatch_client (NewAppRouter i) raw) (c, e) = (Ok (), (?c, e1))"
    using assms n
    by (simp add: ignored_def dispatch_client_def NewAppRouter_def Dispatch_WithAppDefaults
        message_types_differ touch_session_def)
  have "\<exists>c' e'. ignored MaybeSendHeartbeat (?c, e1) = (Ok (), (c', e')) \<and>
      cl_Session c' = Some (Touch t s) \<and> cn_in (cl_conn c') = cn_in (cl_conn c) \<and>
      cn_closed (cl_conn c') = cn_closed (cl_conn c) \<and> ev_store e' = ev_store e1"
    by (simp add: ignored_def MaybeSendHeartbeat_def sbind_def read_client_def read_clock_def Now_def
        on_conn_def write_client_def sret_def writeFrame_def Conn_Write_def
        split: prod.splits outcome.splits list.splits option.splits)
  then show ?thesis using that t by (auto simp: handle_heartbeat_def sbind_apply d st)
qed

lemma in_step_Touch: "in_step P a s \<Longrightarrow> in_step P a (Touch t s)"
  by (auto simp: in_step_def paired_def Touch_def rxDirection_def)

text \<open>Any number of heartbeats before a record are skipped, and the record is opened.\<close>

lemma read_loop_record:
  assumes "\<forall>h\<in>set hbs. f_MsgType h = MsgHeartbeat \<and> wire_ok h"
    and g: "f_MsgType g \<noteq> MsgHeartbeat" "wire_ok g"
    and c: "\<not> cn_closed (cl_conn c)" "cn_in (cl_conn c) = concat (map frame_bytes hbs) @ frame_bytes g @ rest"
    and s: "in_step P a s" "cl_Session c = Some s"
    and f: "Session_EncryptFrame P t u f a = (Ok g, a')"
  shows "\<exists>c' e' s'. read_loop P (NewAppRouter i) (c, e) = (Ok f, (c', e')) \<and>
    cl_Session c' = Some s' \<and> in_step P a' s' \<and> cn_in (cl_conn c') = rest \<and> ev_store e' = ev_store e"
  using assms(1) c s
proof (induction hbs arbitrary: c e s)
  case Nil
  let ?c = "c\<lparr>cl_conn := (cl_conn c)\<lparr>cn_in := rest\<rparr>\<rparr>"
  obtain now e1 where n: "Now e = (now, e1)" by (cases "Now e")
  obtain s' where s': "Session_DecryptFrame P now g s = (Ok f, s')" "in_step P a' s'"
    by (rule session_delivers [OF Nil.prems(4) f, of now])
  have "on_conn readFrame (c, e) = (Ok g, (?c, e))"
    using Nil.prems by (intro on_conn_readFrame [OF g(2)]) simp_all
  then have "read_loop P (NewAppRouter i) (c, e) = (Ok f, (?c\<lparr>cl_Session := Some s'\<rparr>, e1))"
    using g(1) Nil.prems(5) n s'(1)
    by (simp add: read_loop.simps decrypt_client_def sbind_apply read_client_def read_clock_def
        on_session_def)
  moreover have "ev_store e1 = ev_store e" using n by (auto simp: Now_def)
  ultimately show ?case using s'(2) by simp
next
  case (Cons h hbs)
  let ?in = "concat (map frame_bytes hbs) @ frame_bytes g @ rest"
  let ?c = "c\<lparr>cl_conn := (cl_conn c)\<lparr>cn_in := ?in\<rparr>\<rparr>"
  have h: "f_MsgType h = MsgHeartbeat" "wire_ok h" using Cons.prems(1) by simp_all
  obtain c1 e1 t where hb: "handle_heartbeat (NewAppRouter i) h (?c, e) = (Ok (), (c1, e1))"
    "cl_Session c1 = Some (Touch t s)" "cn_in (cl_conn c1) = cn_in (cl_conn ?c)"
    "cn_closed (cl_conn c1) = cn_closed (cl_conn ?c)" "ev_store e1 = ev_store e"
    by (rule handle_heartbeat_app [OF h(1), of ?c s]) (use Cons.prems(5) in simp_all)
  have "on_conn readFrame (c, e) = (Ok h, (?c, e))"
    using Cons.prems by (intro on_conn_readFrame [OF h(2)]) simp_all
  then have step: "read_loop P (NewAppRouter i) (c, e) = read_loop P (NewAppRouter i) (c1, e1)"
    using h(1) hb(1) by (simp add: read_loop.simps [of P _ "(c, e)"])
  from Cons.IH [OF _ _ _ in_step_Touch [OF Cons.prems(4)] hb(2), of e1] Cons.prems hb show ?case by (simp add: step)
qed

text \<open>How a call of \<open>ReadEncrypted\<close> can end with the application router: with an error, and then the
  session is as before up to when it was last seen; or with a frame, and then the bytes consumed are
  any number of heartbeats and one record, which the session opened in that state.\<close>

definition read_ends :: "primitives \<Rightarrow> client \<Rightarrow> session_state \<Rightarrow> frame outcome \<Rightarrow> client \<Rightarrow> bool" where
  "read_ends P c s res c' = (case res of
      Panic \<Rightarrow> False
    | Err err \<Rightarrow> (\<exists>t. cl_Session c' = Some (Touch t s))
    | Ok f \<Rightarrow> (\<exists>hbs g now t s'. cn_in (cl_conn c) = concat (map frame_bytes hbs) @ frame_bytes g @ cn_in (cl_conn c') \<and>
        list_all (\<lambda>h. f_MsgType h = MsgHeartbeat) hbs \<and> f_MsgType g \<noteq> MsgHeartbeat \<and>
        Session_DecryptFrame P now g (Touch t s) = (Ok f, s') \<and> cl_Session c' = Some s'))"

lemma read_ends_Ok:
  "cn_in (cl_conn c) = concat (map frame_bytes hbs) @ frame_bytes g @ cn_in (cl_conn c') \<Longrightarrow>
   list_all (\<lambda>h. f_MsgType h = MsgHeartbeat) hbs \<Longrightarrow> f_MsgType g \<noteq> MsgHeartbeat \<Longrightarrow>
   Session_DecryptFrame P now g (Touch t s) = (Ok f, s') \<Longrightarrow> cl_Session c' = Some s' \<Longrightarrow>
     read_ends P c s (Ok f) c'"
  unfolding read_ends_def outcome.case by blast

lemma Touch_simps: "Touch (s_LastSeen s) s = s" "Touch t (Touch u s) = Touch t s"
  by (simp_all add: Touch_def)

lemma read_ends_decrypt:
  assumes "cl_Session c = Some s" "decrypt_client P g (c, e) = (res, (c', e'))" "f_MsgType g \<noteq> MsgHeartbeat"
    and "cn_in (cl_conn c0) = frame_bytes g @ cn_in (cl_conn c)"
  shows "read_ends P c0 s res c'"
proof -
  obtain now e1 where n: "Now e = (now, e1)" by (cases "Now e")
  obtain r s' where r: "Session_DecryptFrame P now g s = (r, s')" by (cases "Session_DecryptFrame P now g s")
  have d: "res = r" "c' = c\<lparr>cl_Session := Some s'\<rparr>"
    using assms(1,2) by (simp_all add: decrypt_client_def sbind_apply read_client_def read_clock_def n on_session_def r)
  show ?thesis
  proof (cases r)
    case (Ok f)
    with r have "Session_DecryptFrame P now g (Touch (s_LastSeen s) s) = (Ok f, s')" by (simp add: Touch_simps)
    then show ?thesis using d(2) assms(3,4) unfolding d(1) Ok
      by (intro read_ends_Ok [where hbs = "[]" and g = g and now = now and t = "s_LastSeen s" and s' = s']) simp_all
  next
    case (Err err)
    then have "s' = s" using Session_DecryptFrame_not_Ok [of P now g s] r by simp
    then have "cl_Session c' = Some (Touch (s_LastSeen s) s)" using d by (simp add: Touch_simps)
    then show ?thesis using d Err unfolding read_ends_def by auto
  next
    case Panic
    then show ?thesis using Session_DecryptFrame_not_Ok [of P now g s] r by simp
  qed
qed

lemma read_ends_heartbeat:
  assumes "read_ends P c1 (Touch t s) res c'" "f_MsgType h = MsgHeartbeat"
    and "cn_in (cl_conn c) = frame_bytes h @ cn_in (cl_conn c1)"
  shows "read_ends P c s res c'"
proof (cases res)
  case (Ok f)
  with assms(1) obtain hbs g now u s' where
    "cn_in (cl_conn c1) = concat (map frame_bytes hbs) @ frame_bytes g @ cn_in (cl_conn c')"
    "list_all (\<lambda>h. f_MsgType h = MsgHeartbeat) hbs" "f_MsgType g \<noteq> MsgHeartbeat"
    "Session_DecryptFrame P now g (Touch u s) = (Ok f, s')" "cl_Session c' = Some s'"
    by (auto simp: read_ends_def Touch_simps)
  then show ?thesis using assms(2,3) unfolding Ok
    by (intro read_ends_Ok [where hbs = "h # hbs" and g = g and now = now and t = u and s' = s']) simp_all
qed (use assms(1) in \<open>auto simp: read_ends_def Touch_simps\<close>)

lemma read_loop_ends:
  "cl_Session (fst ce) = Some s \<Longrightarrow> read_loop P (NewAppRouter i) ce = (res, ce') \<Longrightarrow>
     read_ends P (fst ce) s res (fst ce')"
proof (induction P "NewAppRouter i" ce arbitrary: s rule: read_loop.induct)
  case (1 P ce)
  obtain c e where ce: "ce = (c, e)" "cl_Session c = Some s" using 1(2) by (cases ce) auto
  show ?case
  proof (cases rule: readFrame_cases [of "cl_conn c"])
    case (error err cn)
    then have "ce' = (c\<lparr>cl_conn := cn\<rparr>, e)" "res = Err err"
      using 1(3) by (simp_all add: ce read_loop.simps [of P _ "(c, e)"] on_conn_def)
    moreover have "cl_Session (c\<lparr>cl_conn := cn\<rparr>) = Some (Touch (s_LastSeen s) s)"
      using ce(2) by (simp add: Touch_simps)
    ultimately show ?thesis unfolding read_ends_def by auto
  next
    case (frame raw rest)
    let ?c = "c\<lparr>cl_conn := (cl_conn c)\<lparr>cn_in := rest\<rparr>\<rparr>"
    have rd: "on_conn readFrame ce = (Ok raw, (?c, e))" using frame(1) by (simp add: ce on_conn_def)
    show ?thesis
    proof (cases "f_MsgType raw = MsgHeartbeat")
      case True
      obtain c1 e1 t where hb: "handle_heartbeat (NewAppRouter i) raw (?c, e) = (Ok (), (c1, e1))"
        "cl_Session c1 = Some (Touch t s)" "cn_in (cl_conn c1) = cn_in (cl_conn ?c)"
        by (rule handle_heartbeat_app [OF True, of ?c s]) (use ce in simp_all)
      have "read_loop P (NewAppRouter i) (c1, e1) = (res, ce')"
        using 1(3) by (simp add: read_loop.simps [of P _ ce] rd True hb(1))
      from 1(1) [OF rd [symmetric] refl True hb(1) [symmetric] refl _ this] hb(2)
      have "read_ends P c1 (Touch t s) res (fst ce')" by simp
      then show ?thesis by (rule read_ends_heartbeat [OF _ True]) (use frame(2) hb(3) ce in simp)
    next
      case False
      have "decrypt_client P raw (?c, e) = (res, (fst ce', snd ce'))"
        using 1(3) False by (simp add: read_loop.simps [of P _ ce] rd)
      from read_ends_decrypt [OF _ this False, of s c] show ?thesis using frame(2) ce by simp
    qed
  qed
qed

section \<open>Sending\<close>

definition heartbeat_frame :: frame where
  "heartbeat_frame = frame_New MsgHeartbeat 0 []"

lemma MaybeSendHeartbeat_ok:
  assumes "\<not> cn_closed (cl_conn c)" "cn_faults (cl_conn c) = []"
  obtains c' e' hb where "MaybeSendHeartbeat (c, e) = (Ok (), (c', e'))"
    "cl_Session c' = cl_Session c" "cn_out (cl_conn c') = cn_out (cl_conn c) @ hb"
    "hb = (if time_since (ev_clock e (ev_reads e)) (cl_LastHeartbeatSent c) < heartbeatInterval
           then [] else frame_bytes heartbeat_frame)"
proof -
  let ?hb = "if time_since (ev_clock e (ev_reads e)) (cl_LastHeartbeatSent c) < heartbeatInterval
           then [] else frame_bytes heartbeat_frame"
  have "\<exists>c' e'. MaybeSendHeartbeat (c, e) = (Ok (), (c', e')) \<and> cl_Session c' = cl_Session c \<and>
      cn_out (cl_conn c') = cn_out (cl_conn c) @ ?hb"
    using writeFrame_ok [OF assms, of heartbeat_frame]
    by (simp add: MaybeSendHeartbeat_def sbind_apply read_client_def read_clock_def Now_def sret_def
        on_conn_def write_client_def heartbeat_frame_def)
  then show ?thesis using that by blast
qed

lemma SendEncrypted_ok:
  assumes "cl_Session c = Some s" "\<not> cn_closed (cl_conn c)" "cn_faults (cl_conn c) = []"
    and clk: "tTrig = ev_clock e (ev_reads e)" "now = ev_clock e (ev_reads e + 1)"
    and g: "Session_EncryptFrame P tTrig now f s = (Ok g, s')"
  shows "\<exists>c' e' hb. SendEncrypted P f (c, e) = (Ok (), (c', e')) \<and> cl_Session c' = Some s' \<and>
    cn_out (cl_conn c') = cn_out (cl_conn c) @ frame_bytes g @ hb \<and>
    hb \<in> {[], frame_bytes heartbeat_frame}"
proof -
  let ?c = "c\<lparr>cl_Session := Some s', cl_conn := (cl_conn c)\<lparr>cn_out := cn_out (cl_conn c) @ frame_bytes g\<rparr>\<rparr>"
  let ?e = "e\<lparr>ev_reads := Suc (Suc (ev_reads e))\<rparr>"
  obtain c' e' hb where m: "MaybeSendHeartbeat (?c, ?e) = (Ok (), (c', e'))"
    "cl_Session c' = cl_Session ?c" "cn_out (cl_conn c') = cn_out (cl_conn ?c) @ hb"
    "hb = (if time_since (ev_clock ?e (ev_reads ?e)) (cl_LastHeartbeatSent ?c) < heartbeatInterval
           then [] else frame_bytes heartbeat_frame)"
    by (rule MaybeSendHeartbeat_ok [of ?c ?e]) (use assms(2,3) in simp_all)
  have "SendEncrypted P f (c, e) = MaybeSendHeartbeat (?c, ?e)"
    using assms(1) g clk writeFrame_ok [OF assms(2,3), of g]
    by (simp add: SendEncrypted_def sbind_apply read_client_def read_clock_def Now_def on_session_def
        on_conn_def)
  then show ?thesis using m by auto
qed

text \<open>A write that fails has already used up the record's sequence number.\<close>

lemma SendEncrypted_write_fails:
  assumes "cl_Session c = Some s" "\<not> cn_closed (cl_conn c)" "cn_faults (cl_conn c) = Some k # fs"
    and clk: "tTrig = ev_clock e (ev_reads e)" "now = ev_clock e (ev_reads e + 1)"
    and g: "Session_EncryptFrame P tTrig now f s = (Ok g, s')"
  shows "\<exists>c' e'. SendEncrypted P f (c, e) = (Err (ClientError IoWrite), (c', e')) \<and>
    cl_Session c' = Some s' \<and> cn_out (cl_conn c') = cn_out (cl_conn c) @ take k (frame_bytes g)"
  using assms
  by (simp add: SendEncrypted_def sbind_apply read_client_def read_clock_def Now_def on_session_def
      on_conn_def writeFrame_def Conn_Write_def frame_bytes_def)

text \<open>A peer that gets a part of a record does not get past it.\<close>

lemma ReadEncrypted_part:
  assumes "wire_ok g" "cl_Session c = Some r" "\<not> cn_closed (cl_conn c)"
    and "cn_in (cl_conn c) = take k (frame_bytes g)" "k < length (frame_bytes g)"
  shows "\<exists>err c'. ReadEncrypted P rt (c, e) = (Err (ClientError err), (c', e)) \<and>
    err \<in> {IoEOF, IoUnexpectedEOF} \<and> cl_Session c' = Some r"
proof -
  obtain err cn where "readFrame (cl_conn c) = (Err (ClientError err), cn)" "err \<in> {IoEOF, IoUnexpectedEOF}"
    by (rule readFrame_part [OF assms(1,3-5)])
  then show ?thesis using assms(2)
    by (auto simp: ReadEncrypted_def sbind_apply read_client_def read_loop.simps [of P _ "(c, e)"] on_conn_def)
qed

section \<open>The handshake over a connection\<close>

lemma writeFrame_client:
  assumes "\<not> cn_closed (cl_conn c)" "cn_faults (cl_conn c) = []"
  shows "on_conn (writeFrame f) (c, e) =
    (Ok (), (c\<lparr>cl_conn := (cl_conn c)\<lparr>cn_out := cn_out (cl_conn c) @ frame_bytes f\<rparr>\<rparr>, e))"
  using writeFrame_ok [OF assms] by (simp add: on_conn_def)

lemma handshakeSecure_ok:
  assumes P: "primitives_correct P"
    and i: "NewSecureInitiator P idn bundle trust pol rnd = Ok i"
    and ok: "compatible P i r (unix_seconds (ev_clock e (ev_reads e))) nowR"
    and peer: "BuildClientHello i = (Ok f1, i1)" "HandleClientHello P f1 nowR r = (Ok f2, r1)"
    and c: "\<not> cn_closed (cl_conn c)" "cn_faults (cl_conn c) = []" "cn_in (cl_conn c) = frame_bytes f2 @ rest"
    and e: "ev_random e = rnd # rs"
  shows "\<exists>c' e' f3 ro s. handshakeSecure P idn bundle trust pol (c, e) = (Ok (), (c', e')) \<and>
    cn_out (cl_conn c') = cn_out (cl_conn c) @ frame_bytes f1 @ frame_bytes f3 \<and>
    cn_in (cl_conn c') = rest \<and> HandleClientFinish P f3 r1 = Ok ro \<and> cl_Session c' = Some s \<and>
    in_step P s (FromHandshakeOutput u ro) \<and> in_step P (FromHandshakeOutput u ro) s"
proof -
  let ?now = "unix_seconds (ev_clock e (ev_reads e))"
  have laws: "aead_correct P" "signature_correct P" "dh_correct P"
    using P by (simp_all add: primitives_correct_def)
  have ends: "endpoint_ok P i" "endpoint_ok P r" using ok by (simp_all add: compatible_def)
  have h1: "ClientHelloFromFrame f1 = Ok (hello_of i)" "i1 = i\<lparr>hs_clientHello := Some (hello_of i)\<rparr>"
    by (rule BuildClientHello_step [OF ends(1)]; use peer(1) in simp)+
  obtain g sig where 2: "HandleClientHello P f1 nowR r =
      (Ok g, r\<lparr>hs_clientHello := Some (hello_of i), hs_serverHello := Some (reply_of r (hello_of i) sig)\<rparr>)"
    "ServerHelloFromFrame g = Ok (reply_of r (hello_of i) sig)" "server_hello_ok (reply_of r (hello_of i) sig)"
    "f_MsgType g = MsgServerHello" "length (f_Payload g) \<le> 65539"
    "p_ed_verify P (b_Ed25519Public (hs_localBundle r))
      (serverSignatureMessage (transcript_hash (hello_of i) (reply_of r (hello_of i) sig))
        (ch_EphPublic (hello_of i)) (hs_ephPublic r)
        (b_X25519StaticPublic (ch_IdentityBundle (hello_of i))) (b_X25519StaticPublic (hs_localBundle r))) sig"
    by (rule HandleClientHello_step [OF laws(2,3) ends(2) h1(1), of nowR])
       (use hello_of_ok [OF ends(1)] ok in \<open>auto simp: compatible_def\<close>)
  have g: "g = f2" "r1 = r\<lparr>hs_clientHello := Some (hello_of i), hs_serverHello := Some (reply_of r (hello_of i) sig)\<rparr>"
    using 2(1) peer(2) by simp_all
  let ?i = "i\<lparr>hs_clientHello := Some (hello_of i), hs_serverHello := Some (reply_of r (hello_of i) sig)\<rparr>"
  have 3: "HandleServerHello P f2 ?now i1 = (Ok (), ?i)"
    using HandleServerHello_step [OF ok 2(3,2)] 2(6) g(1) h1(2) by simp
  obtain f3 oi ro where 4: "BuildClientFinish P ?i = Ok f3" "Finalize P ?i = Ok oi"
    "HandleClientFinish P f3 r1 = Ok ro" "outputs_match i r oi ro"
    by (rule finish_step [OF P ok 2(3)]) (simp add: g(2))
  let ?cn = "(cl_conn c)\<lparr>cn_out := cn_out (cl_conn c) @ frame_bytes f1\<rparr>"
  have w1: "on_conn (writeFrame f1) (c, x) = (Ok (), (c\<lparr>cl_conn := ?cn\<rparr>, x))" for x
    by (rule writeFrame_client [OF c(1,2)])
  have rd: "on_conn readFrame (c\<lparr>cl_conn := ?cn\<rparr>, x) =
      (Ok f2, (c\<lparr>cl_conn := ?cn\<lparr>cn_in := rest\<rparr>\<rparr>, x))" for x
    using on_conn_readFrame [of f2 "c\<lparr>cl_conn := ?cn\<rparr>" rest x] c(1,3) 2(5) g(1) by (simp add: wire_ok_def)
  have w3: "on_conn (writeFrame f3) (c\<lparr>cl_conn := ?cn\<lparr>cn_in := rest\<rparr>\<rparr>, x) =
      (Ok (), (c\<lparr>cl_conn := ?cn\<lparr>cn_in := rest, cn_out := cn_out ?cn @ frame_bytes f3\<rparr>\<rparr>, x))" for x
    using writeFrame_client [of "c\<lparr>cl_conn := ?cn\<lparr>cn_in := rest\<rparr>\<rparr>" f3 x] c(1,2) by simp
  have type: "f_MsgType f2 = MsgServerHello" using 2(4) g(1) by simp
  have "\<exists>c' e' t. handshakeSecure P idn bundle trust pol (c, e) = (Ok (), (c', e')) \<and>
      cn_out (cl_conn c') = cn_out (cl_conn c) @ frame_bytes f1 @ frame_bytes f3 \<and>
      cn_in (cl_conn c') = rest \<and> cl_Session c' = Some (FromHandshakeOutput t oi)"
    by (simp add: handshakeSecure_def sbind_apply read_random_def e slift_def i peer(1) w1 rd type
        read_clock_def Now_def 3 4(1,2) w3 write_client_def) (rule exI, rule refl)
  then show ?thesis using 4(3) in_step_start [OF laws(1) 4(4)] by blast
qed

section \<open>Properties\<close>

text \<open>C5: the client's handshake against a responder it is compatible with. If the peer's answer to the
  client's hello is what the connection delivers, the handshake succeeds, the client has written its
  hello and a finish message that the responder accepts, and the two sessions that result are in step
  in both directions: what either seals, the other opens.\<close>

theorem client_handshake:
  assumes "primitives_correct P" "NewSecureInitiator P idn bundle trust pol rnd = Ok i"
    and "compatible P i r (unix_seconds (ev_clock e (ev_reads e))) nowR"
    and "BuildClientHello i = (Ok f1, i1)" "HandleClientHello P f1 nowR r = (Ok f2, r1)"
    and "\<not> cn_closed (cl_conn c)" "cn_faults (cl_conn c) = []" "cn_in (cl_conn c) = frame_bytes f2 @ rest"
    and "ev_random e = rnd # rs"
  shows "\<exists>c' e' f3 ro s. handshakeSecure P idn bundle trust pol (c, e) = (Ok (), (c', e')) \<and>
    cn_out (cl_conn c') = cn_out (cl_conn c) @ frame_bytes f1 @ frame_bytes f3 \<and>
    cn_in (cl_conn c') = rest \<and> HandleClientFinish P f3 r1 = Ok ro \<and> cl_Session c' = Some s \<and>
    in_step P s (FromHandshakeOutput u ro) \<and> in_step P (FromHandshakeOutput u ro) s"
  by (rule handshakeSecure_ok [OF assms])

definition sample_client :: "bytes \<Rightarrow> session_state option \<Rightarrow> client" where
  "sample_client b s = \<lparr>cl_conn = open_conn b, cl_Session = s, cl_LastHeartbeatSent = 0,
     cl_localIdentity = None, cl_localBundle = None, cl_trustStore = StrictTrustStore,
     cl_trustConfigured = False, cl_policy = DefaultHandshakePolicy\<rparr>"

theorem client_handshake_witness:
  "\<exists>b c e s. handshakeSecure sample (sample_keys 1) (sample_bundle 1)
      (Pin (id_ed25519Public (sample_keys 2)) StrictTrustStore) DefaultHandshakePolicy
      (sample_client b None, sample_env\<lparr>ev_random := [Some (replicate 32 33)]\<rparr>) = (Ok (), (c, e)) \<and>
    cl_Session c = Some s"
proof -
  obtain f g i r where x: "BuildClientHello (sample_party 1 2) = (Ok f, i)"
    "HandleClientHello sample f 100 (sample_party 2 1) = (Ok g, r)"
    by (rule sample_exchange)
  let ?e = "sample_env\<lparr>ev_random := [Some (replicate 32 33)]\<rparr>"
  have "compatible sample (sample_party 1 2) (sample_party 2 1)
      (unix_seconds (ev_clock ?e (ev_reads ?e))) 100"
    by (rule sample_compatible) (simp_all add: unix_seconds_def sample_env_def)
  from client_handshake [OF sample_correct sample_party_Ok(1) [of 1 2] this x, of "sample_client (frame_bytes g) None" "[]" "[]" 0]
  show ?thesis by (simp add: sample_client_def open_conn_def) blast
qed

lemma read_delivers:
  assumes "in_step P a s" "cl_Session c = Some s" "\<not> cn_closed (cl_conn c)"
    and "Session_EncryptFrame P t u f a = (Ok g, a')" "f_MsgType f \<noteq> MsgHeartbeat" "length (f_Payload g) < 2 ^ 32"
    and "\<forall>h\<in>set hbs. f_MsgType h = MsgHeartbeat \<and> length (f_Payload h) < 2 ^ 32"
    and "cn_in (cl_conn c) = concat (map frame_bytes hbs) @ frame_bytes g @ rest"
  obtains c' e' s' where "ReadEncrypted P (NewAppRouter i) (c, e) = (Ok f, (c', e'))"
    "cl_Session c' = Some s'" "in_step P a' s'" "cn_in (cl_conn c') = rest" "ev_store e' = ev_store e"
proof -
  have "f_MsgType g = f_MsgType f" using assms(4) by (simp add: Session_EncryptFrame_Ok_iff sealed_frame_def)
  then have "\<exists>c' e' s'. read_loop P (NewAppRouter i) (c, e) = (Ok f, (c', e')) \<and>
    cl_Session c' = Some s' \<and> in_step P a' s' \<and> cn_in (cl_conn c') = rest \<and> ev_store e' = ev_store e"
    using assms by (intro read_loop_record [where hbs = hbs and g = g and a = a and s = s and t = t and u = u])
      (simp_all add: wire_ok_def)
  then show ?thesis using that assms(2) by (auto simp: ReadEncrypted_def sbind_apply read_client_def)
qed

text \<open>C22: \<open>ReadEncrypted\<close> skips any number of heartbeats and returns the next record of the peer,
  opened; the sessions are in step again and what follows the record is still unread.\<close>

theorem read_next_record:
  assumes "in_step P a s" "cl_Session c = Some s" "\<not> cn_closed (cl_conn c)"
    and "Session_EncryptFrame P t u f a = (Ok g, a')" "f_MsgType f \<noteq> MsgHeartbeat" "length (f_Payload g) < 2 ^ 32"
    and "\<forall>h\<in>set hbs. f_MsgType h = MsgHeartbeat \<and> length (f_Payload h) < 2 ^ 32"
    and "cn_in (cl_conn c) = concat (map frame_bytes hbs) @ frame_bytes g @ rest"
  shows "\<exists>c' e' s'. ReadEncrypted P (NewAppRouter i) (c, e) = (Ok f, (c', e')) \<and>
    cl_Session c' = Some s' \<and> in_step P a' s' \<and> cn_in (cl_conn c') = rest"
  by (rule read_delivers [OF assms]) blast

lemma sample_record:
  defines "g \<equiv> sealed_frame sample sample_frame (sample_session 1)"
  shows "Session_EncryptFrame sample 0 0 sample_frame (sample_session 1) =
      (Ok g, after_seal sample 0 0 sample_frame (sample_session 1))"
    "length (f_Payload g) = 19" "f_MsgType sample_frame \<noteq> MsgHeartbeat"
  by (simp_all add: g_def sample_seals)
    (simp_all add: sealed_frame_def sample_def sample_frame_def frame_New_def MsgHeartbeat_def)

theorem read_next_record_witness:
  "\<exists>g c e. ReadEncrypted sample (NewAppRouter (Some 0))
      (sample_client (frame_bytes heartbeat_frame @ frame_bytes g) (Some (sample_session 2)), sample_env) =
    (Ok sample_frame, (c, e))"
proof -
  let ?g = "sealed_frame sample sample_frame (sample_session 1)"
  let ?c = "sample_client (frame_bytes heartbeat_frame @ frame_bytes ?g) (Some (sample_session 2))"
  have "\<forall>h\<in>set [heartbeat_frame]. f_MsgType h = MsgHeartbeat \<and> length (f_Payload h) < 2 ^ 32"
    by (simp add: heartbeat_frame_def frame_New_def)
  from read_next_record [OF sample_in_step _ _ sample_record(1,3) _ this, of ?c "[]" "Some 0" sample_env]
  show ?thesis using sample_record(2) by (fastforce simp: sample_client_def open_conn_def)
qed

text \<open>C33: whatever bytes arrive, a call of \<open>ReadEncrypted\<close> with the application router does not panic
  (a nil session or a short buffer is never used). If it fails, nothing of the session has changed
  but when it was last seen; if it gives a frame, the bytes consumed are heartbeats and one record,
  and the frame is what the session opened that record to.\<close>

theorem read_ends_cleanly:
  assumes "cl_Session c = Some s" "ReadEncrypted P (NewAppRouter i) (c, e) = (res, (c', e'))"
  shows "case res of
      Panic \<Rightarrow> False
    | Err err \<Rightarrow> (\<exists>t. cl_Session c' = Some (Touch t s))
    | Ok f \<Rightarrow> (\<exists>hbs g now t s'. cn_in (cl_conn c) = concat (map frame_bytes hbs) @ frame_bytes g @ cn_in (cl_conn c') \<and>
        list_all (\<lambda>h. f_MsgType h = MsgHeartbeat) hbs \<and> f_MsgType g \<noteq> MsgHeartbeat \<and>
        Session_DecryptFrame P now g (Touch t s) = (Ok f, s') \<and> cl_Session c' = Some s')"
proof -
  have "read_loop P (NewAppRouter i) (c, e) = (res, (c', e'))"
    using assms by (simp add: ReadEncrypted_def sbind_apply read_client_def)
  from read_loop_ends [OF _ this, of s] assms(1) show ?thesis by (simp add: read_ends_def)
qed

theorem read_ends_cleanly_witness:
  "\<exists>err c e t. ReadEncrypted sample (NewAppRouter (Some 0))
      (sample_client [1, 2, 0, 0, 0, 0, 1, 7] (Some (sample_session 2)), sample_env) = (Err err, (c, e)) \<and>
     cl_Session c = Some (Touch t (sample_session 2))"
proof -
  let ?g = "\<lparr>f_Version = 1, f_MsgType = 2, f_Flags = 0, f_Payload = [7]\<rparr>"
  let ?c = "sample_client [1, 2, 0, 0, 0, 0, 1, 7] (Some (sample_session 2))"
  obtain res c e where run: "ReadEncrypted sample (NewAppRouter (Some 0)) (?c, sample_env) = (res, (c, e))"
    by (cases "ReadEncrypted sample (NewAppRouter (Some 0)) (?c, sample_env)") auto
  have c: "cl_Session ?c = Some (sample_session 2)" by (simp add: sample_client_def)
  have "on_conn readFrame (?c, sample_env) = (Ok ?g, (?c\<lparr>cl_conn := (cl_conn ?c)\<lparr>cn_in := []\<rparr>\<rparr>, sample_env))"
    by (rule on_conn_readFrame)
      (simp_all add: wire_ok_def sample_client_def open_conn_def frame_bytes_eq be32_def)
  then have "\<not> is_Ok res"
    using run c
    by (auto simp: ReadEncrypted_def sbind_apply read_client_def read_loop.simps [of sample _ "(?c, sample_env)"]
        MsgHeartbeat_def decrypt_client_def read_clock_def Now_def on_session_def Session_DecryptFrame_Ok_iff
        opened_frame_def DecryptFrame_def is_Ok_iff split: prod.splits)
  with read_ends_cleanly [OF c run] run show ?thesis by (cases res) auto
qed

text \<open>C11: end to end. A frame that is not a heartbeat, sent by a client whose session is in step with
  another's over a connection that takes its writes, is what the other reads from the bytes written,
  whether or not the sender added a heartbeat.\<close>

theorem send_then_read:
  assumes "in_step P s r" "cl_Session c1 = Some s" "\<not> cn_closed (cl_conn c1)" "cn_faults (cl_conn c1) = []"
    and "\<not> encrypted f" "f_MsgType f \<noteq> MsgHeartbeat" "s_TxSequence s \<noteq> MaxUint64"
      "length (f_Payload (sealed_frame P f s)) < 2 ^ 32"
    and "cl_Session c2 = Some r" "\<not> cn_closed (cl_conn c2)"
  shows "\<exists>c1' e1' sent. SendEncrypted P f (c1, e1) = (Ok (), (c1', e1')) \<and>
    cn_out (cl_conn c1') = cn_out (cl_conn c1) @ sent \<and>
    (cn_in (cl_conn c2) = sent @ rest \<longrightarrow>
      (\<exists>c2' e2' s' r'. ReadEncrypted P (NewAppRouter i) (c2, e2) = (Ok f, (c2', e2')) \<and>
         cl_Session c1' = Some s' \<and> cl_Session c2' = Some r' \<and> in_step P s' r'))"
proof -
  let ?t = "ev_clock e1 (ev_reads e1)" and ?u = "ev_clock e1 (ev_reads e1 + 1)"
  let ?g = "sealed_frame P f s" and ?s = "after_seal P ?t ?u f s"
  have "length (s_TxKey s) = 32" "aead_correct P" using assms(1) by (auto simp: in_step_def paired_def)
  then have seal: "Session_EncryptFrame P ?t ?u f s = (Ok ?g, ?s)"
    using assms(5,7) by (simp add: Session_EncryptFrame_Ok_iff aead_correct_def)
  from SendEncrypted_ok [OF assms(2-4) refl refl seal] obtain c1' e1' hb where sent:
    "SendEncrypted P f (c1, e1) = (Ok (), (c1', e1'))" "cl_Session c1' = Some ?s"
    "cn_out (cl_conn c1') = cn_out (cl_conn c1) @ frame_bytes ?g @ hb" by blast
  have type: "f_MsgType ?g \<noteq> MsgHeartbeat" using assms(6) by (simp add: sealed_frame_def)
  have "\<exists>c2' e2' r'. read_loop P (NewAppRouter i) (c2, e2) = (Ok f, (c2', e2')) \<and>
      cl_Session c2' = Some r' \<and> in_step P ?s r' \<and> cn_in (cl_conn c2') = hb @ rest \<and> ev_store e2' = ev_store e2"
    if "cn_in (cl_conn c2) = (frame_bytes ?g @ hb) @ rest"
    using that assms(8-10) type
    by (intro read_loop_record [where hbs = "[]" and g = ?g and a = s and s = r and t = ?t and u = ?u, OF _ _ _ _ _ assms(1) _ seal])
      (simp_all add: wire_ok_def)
  then have "\<exists>c2' e2' s' r'. ReadEncrypted P (NewAppRouter i) (c2, e2) = (Ok f, (c2', e2')) \<and>
      cl_Session c1' = Some s' \<and> cl_Session c2' = Some r' \<and> in_step P s' r'"
    if "cn_in (cl_conn c2) = (frame_bytes ?g @ hb) @ rest"
    using that sent(2) assms(9) by (auto simp: ReadEncrypted_def sbind_apply read_client_def)
  with sent(1,3) show ?thesis by blast
qed

theorem send_then_read_witness:
  "\<exists>c e. SendEncrypted sample sample_frame (sample_client [] (Some (sample_session 1)), sample_env) = (Ok (), (c, e)) \<and>
     (\<exists>c2 e2. ReadEncrypted sample (NewAppRouter (Some 0))
        (sample_client (cn_out (cl_conn c)) (Some (sample_session 2)), sample_env) = (Ok sample_frame, (c2, e2)))"
proof -
  let ?c = "sample_client [] (Some (sample_session 1))"
  have c: "cl_Session ?c = Some (sample_session 1)" "\<not> cn_closed (cl_conn ?c)" "cn_faults (cl_conn ?c) = []"
    "cn_out (cl_conn ?c) = []" by (simp_all add: sample_client_def open_conn_def)
  have r: "cl_Session (sample_client b (Some (sample_session 2))) = Some (sample_session 2)"
    "\<not> cn_closed (cl_conn (sample_client b (Some (sample_session 2))))"
    "cn_in (cl_conn (sample_client b (Some (sample_session 2)))) = b" for b
    by (simp_all add: sample_client_def open_conn_def)
  have seq: "s_TxSequence (sample_session 1) \<noteq> MaxUint64" by (simp add: MaxUint64_def)
  have len: "length (f_Payload (sealed_frame sample sample_frame (sample_session 1))) < 2 ^ 32"
    using sample_record(2) by simp
  obtain c1 e1 where 1: "SendEncrypted sample sample_frame (?c, sample_env) = (Ok (), (c1, e1))"
    using send_then_read [OF sample_in_step c(1-3) sample_frame_plain sample_record(3) seq len r(1,2)] by blast
  from send_then_read [OF sample_in_step c(1-3) sample_frame_plain sample_record(3) seq len
      r(1) [of "cn_out (cl_conn c1)"] r(2) [of "cn_out (cl_conn c1)"], of sample_env "[]" "Some 0" sample_env] 1 c(4) r(3)
  show ?thesis by auto
qed

text \<open>C39: a record whose write fails part of the way is lost for good. The error is reported, but the
  session has already used up the record's number. The peer that was in step, reading what was
  delivered, gets an error and still waits for that number, and nothing the sender seals in any
  later run of its session carries it: a record the peer could open now would be none of them.\<close>

theorem failed_write_desynchronises:
  assumes "in_step P s r" "cl_Session c = Some s" "\<not> cn_closed (cl_conn c)"
    and "cn_faults (cl_conn c) = Some k # fs" "k < length (frame_bytes (sealed_frame P f s))"
      "length (f_Payload (sealed_frame P f s)) < 2 ^ 32"
    and "\<not> encrypted f" "s_TxSequence s \<noteq> MaxUint64"
    and "cl_Session c2 = Some r" "\<not> cn_closed (cl_conn c2)"
      "cn_in (cl_conn c2) = take k (frame_bytes (sealed_frame P f s))"
  shows "\<exists>c' e' s' err c2'. SendEncrypted P f (c, e) = (Err (ClientError IoWrite), (c', e')) \<and>
    cl_Session c' = Some s' \<and>
    cn_out (cl_conn c') = cn_out (cl_conn c) @ take k (frame_bytes (sealed_frame P f s)) \<and>
    ReadEncrypted P rt (c2, e2) = (Err (ClientError err), (c2', e2)) \<and>
    err \<in> {IoEOF, IoUnexpectedEOF} \<and> cl_Session c2' = Some r \<and>
    (\<forall>s'' l now g h r'. session_run P s' s'' l \<and> l_out l < 2 ^ 32 \<and>
       Session_DecryptFrame P now g r = (Ok h, r') \<longrightarrow>
       (\<forall>d\<in>set (l_sealed l). call_position (se_call d) \<noteq>
          call_position (open_call (\<lambda>P. Session_DecryptFrame P now g r) P)))"
proof -
  let ?t = "ev_clock e (ev_reads e)" and ?u = "ev_clock e (ev_reads e + 1)"
  let ?s = "after_seal P ?t ?u f s"
  have "length (s_TxKey s) = 32" "aead_correct P" using assms(1) by (auto simp: in_step_def paired_def)
  then have seal: "Session_EncryptFrame P ?t ?u f s = (Ok (sealed_frame P f s), ?s)"
    using assms(7,8) by (simp add: Session_EncryptFrame_Ok_iff aead_correct_def)
  obtain c' e' where sent: "SendEncrypted P f (c, e) = (Err (ClientError IoWrite), (c', e'))"
    "cl_Session c' = Some ?s"
    "cn_out (cl_conn c') = cn_out (cl_conn c) @ take k (frame_bytes (sealed_frame P f s))"
    using SendEncrypted_write_fails [OF assms(2-4) refl refl seal] by blast
  obtain err c2' where read: "ReadEncrypted P rt (c2, e2) = (Err (ClientError err), (c2', e2))"
    "err \<in> {IoEOF, IoUnexpectedEOF}" "cl_Session c2' = Some r"
    using ReadEncrypted_part [OF _ assms(9-11,5), of P rt e2] assms(6) by (auto simp: wire_ok_def)
  have number: "s_RxSequence r < s_TxSequence ?s" "s_RxEpoch r = s_TxEpoch ?s"
    using assms(1,8) MaxUint64_next [of "s_TxSequence s"]
    by (auto simp: in_step_def paired_def word_less_nat_alt)
  have "call_position (se_call d) \<noteq> call_position (open_call (\<lambda>P. Session_DecryptFrame P now g r) P)"
    if "session_run P ?s s'' l" "l_out l < 2 ^ 32" "d \<in> set (l_sealed l)"
      "Session_DecryptFrame P now g r = (Ok h, r')" for s'' l d now g h r'
    using passed_number [OF that(1-3) number(1)] number(2) open_call_eq [OF that(4)]
    by (simp add: call_position_def expected_open_def)
  with sent read show ?thesis by blast
qed

theorem failed_write_desynchronises_witness:
  "\<exists>c e s. SendEncrypted sample sample_frame ((sample_client [] (Some (sample_session 1)))
       \<lparr>cl_conn := (open_conn [])\<lparr>cn_faults := [Some 3]\<rparr>\<rparr>, sample_env) = (Err (ClientError IoWrite), (c, e)) \<and>
     cl_Session c = Some s \<and> length (cn_out (cl_conn c)) = 3"
proof -
  let ?c = "(sample_client [] (Some (sample_session 1)))\<lparr>cl_conn := (open_conn [])\<lparr>cn_faults := [Some 3]\<rparr>\<rparr>"
  let ?part = "take 3 (frame_bytes (sealed_frame sample sample_frame (sample_session 1)))"
  let ?c2 = "sample_client ?part (Some (sample_session 2))"
  have c: "cl_Session ?c = Some (sample_session 1)" "\<not> cn_closed (cl_conn ?c)"
    "cn_faults (cl_conn ?c) = Some 3 # []" "cn_out (cl_conn ?c) = []"
    by (simp_all add: sample_client_def open_conn_def)
  have c2: "cl_Session ?c2 = Some (sample_session 2)" "\<not> cn_closed (cl_conn ?c2)" "cn_in (cl_conn ?c2) = ?part"
    by (simp_all add: sample_client_def open_conn_def)
  have len: "3 < length (frame_bytes (sealed_frame sample sample_frame (sample_session 1)))"
    "length (f_Payload (sealed_frame sample sample_frame (sample_session 1))) < 2 ^ 32"
    using sample_record(2) by (simp_all add: length_frame_bytes)
  have seq: "s_TxSequence (sample_session 1) \<noteq> MaxUint64" by (simp add: MaxUint64_def)
  obtain c' e' s' where "SendEncrypted sample sample_frame (?c, sample_env) = (Err (ClientError IoWrite), (c', e'))"
    "cl_Session c' = Some s'" "cn_out (cl_conn c') = cn_out (cl_conn ?c) @ ?part"
    using failed_write_desynchronises [OF sample_in_step c(1-3) len sample_frame_plain seq c2] by blast
  moreover have "length ?part = 3" using len(1) by simp
  ultimately show ?thesis using c(4) by auto
qed

text \<open>C38: heartbeats are not authenticated. Any frame of the heartbeat type, encrypted or not and
  whatever its payload, refreshes the time the session was last seen and nothing else; and a record
  the peer sealed from a frame of that type is consumed without being opened, so the two sessions
  are out of step from then on.\<close>

theorem heartbeats_not_authenticated:
  assumes "cl_Session c = Some s" "\<not> cn_closed (cl_conn c)" "cn_in (cl_conn c) = frame_bytes h"
    and "f_MsgType h = MsgHeartbeat" "length (f_Payload h) < 2 ^ 32"
  shows "\<exists>c' e'. ReadEncrypted P (NewAppRouter i) (c, e) = (Err (ClientError IoEOF), (c', e')) \<and>
    cl_Session c' = Some (Touch (ev_clock e (ev_reads e)) s) \<and>
    (in_step P a s \<and> Session_EncryptFrame P t u f a = (Ok h, a') \<longrightarrow>
       \<not> in_step P a' (Touch (ev_clock e (ev_reads e)) s))"
proof -
  let ?c = "c\<lparr>cl_conn := (cl_conn c)\<lparr>cn_in := []\<rparr>\<rparr>" and ?s = "Touch (ev_clock e (ev_reads e)) s"
  obtain c1 e1 where hb: "handle_heartbeat (NewAppRouter i) h (?c, e) = (Ok (), (c1, e1))"
    "cl_Session c1 = Some ?s" "cn_in (cl_conn c1) = []" "cn_closed (cl_conn c1) = cn_closed (cl_conn ?c)"
    using handle_heartbeat_app [OF assms(4), of ?c s i e thesis] assms(1) by auto
  have "on_conn readFrame (c, e) = (Ok h, (?c, e))"
    using assms by (intro on_conn_readFrame) (simp_all add: wire_ok_def)
  then have "read_loop P (NewAppRouter i) (c, e) = read_loop P (NewAppRouter i) (c1, e1)"
    using assms(4) hb(1) by (simp add: read_loop.simps [of P _ "(c, e)"])
  also have "\<exists>c2. read_loop P (NewAppRouter i) (c1, e1) = (Err (ClientError IoEOF), (c2, e1)) \<and> cl_Session c2 = Some ?s"
    using hb assms(2)
    by (subst read_loop.simps) (simp add: on_conn_def readFrame_def sbind_apply ReadFull_def)
  finally have "\<exists>c2. ReadEncrypted P (NewAppRouter i) (c, e) = (Err (ClientError IoEOF), (c2, e1)) \<and> cl_Session c2 = Some ?s"
    using assms(1) by (simp add: ReadEncrypted_def sbind_apply read_client_def)
  moreover have "\<not> in_step P a' ?s" if "in_step P a s" "Session_EncryptFrame P t u f a = (Ok h, a')"
  proof -
    have "s_TxSequence a' = s_RxSequence s + 1"
      using that by (simp add: Session_EncryptFrame_Ok_iff in_step_def)
    then show ?thesis by (simp add: in_step_def Touch_def)
  qed
  ultimately show ?thesis by blast
qed

theorem heartbeats_not_authenticated_witness:
  "\<exists>c e. ReadEncrypted sample (NewAppRouter (Some 0))
      (sample_client (frame_bytes heartbeat_frame) (Some (sample_session 2)), sample_env) =
        (Err (ClientError IoEOF), (c, e)) \<and>
     cl_Session c = Some (Touch 0 (sample_session 2))"
proof -
  let ?c = "sample_client (frame_bytes heartbeat_frame) (Some (sample_session 2))"
  have "cl_Session ?c = Some (sample_session 2)" "\<not> cn_closed (cl_conn ?c)"
    "cn_in (cl_conn ?c) = frame_bytes heartbeat_frame" by (simp_all add: sample_client_def open_conn_def)
  moreover have "f_MsgType heartbeat_frame = MsgHeartbeat" "length (f_Payload heartbeat_frame) < 2 ^ 32"
    by (simp_all add: heartbeat_frame_def frame_New_def)
  moreover have "ev_clock sample_env (ev_reads sample_env) = 0" by (simp add: sample_env_def)
  ultimately show ?thesis
    using heartbeats_not_authenticated [of ?c "sample_session 2" heartbeat_frame sample "Some 0" sample_env]
    by (metis (no_types, lifting))
qed

end
