(* ===== verification/Example_Client.thy ===== *)
theory Example_Client
  imports Client
begin

text \<open>
  The demo client (\<open>cmd/example-client/main.go\<close>): dial, handshake, send one message, then read until
  an application message is in the inbox, a call fails, or three seconds are over. What it prints
  last is the result; the calls of \<open>panic\<close> are \<open>Panic\<close>. The address it dials only reaches
  \<open>net.Dial\<close>, whose result is an argument. The deferred \<open>Close\<close> runs last and its error is dropped.
  A channel of \<open>time.After\<close> that is ready is taken before the default branch, and it is ready once
  the clock has passed its deadline.

  The loop needs no fuel: every iteration that comes back to the top has read a frame off the
  connection, so the bytes still to be read are the measure.
\<close>

datatype demo_result = NoResponse | ReadFailed go_error | DispatchFailed go_error | Received message

definition demo_deadline :: duration where "demo_deadline = 3 * second_ns"

text \<open>A method of the inbox, on the heap of the environment.\<close>

definition on_store :: "(store, 'a) go_method \<Rightarrow> 'a client_method" where
  "on_store m ce = (case ce of (c, e) \<Rightarrow>
     (case m (ev_store e) of (r, st) \<Rightarrow> (r, (c, e\<lparr>ev_store := st\<rparr>))))"

section \<open>Every read consumes input\<close>

lemma decrypt_client_in:
  "cn_in (cl_conn (fst (snd (decrypt_client P raw ce)))) = cn_in (cl_conn (fst ce))"
  by (simp add: decrypt_client_def sbind_def read_client_def read_clock_def Now_def on_session_def
      sfail_def slift_def split: prod.splits outcome.splits option.splits)

lemma read_loop_shorter:
  "read_loop P r ce = (Ok f, ce') \<Longrightarrow>
     length (cn_in (cl_conn (fst ce'))) < length (cn_in (cl_conn (fst ce)))"
proof (induction P r ce arbitrary: ce' rule: read_loop.induct)
  case (1 P r ce)
  obtain raw ce1 where read: "on_conn readFrame ce = (Ok raw, ce1)"
    using "1.prems" by (simp add: read_loop.simps [of P r ce] split: prod.splits outcome.splits)
  note less = on_conn_readFrame_shorter [OF read]
  show ?case
  proof (cases "f_MsgType raw = MsgHeartbeat")
    case True
    obtain ce2 where hb: "handle_heartbeat r raw ce1 = (Ok (), ce2)" "read_loop P r ce2 = (Ok f, ce')"
      using "1.prems" True
      by (auto simp: read_loop.simps [of P r ce] read split: prod.splits outcome.splits)
    have "length (cn_in (cl_conn (fst ce'))) < length (cn_in (cl_conn (fst ce2)))"
      by (rule "1.IH" [OF read [symmetric] refl True hb(1) [symmetric] refl hb(2)])
    moreover have "cn_in (cl_conn (fst ce2)) = cn_in (cl_conn (fst ce1))"
      using handle_heartbeat_in [of r raw ce1] hb(1) by simp
    ultimately show ?thesis using less by simp
  next
    case False
    then have "decrypt_client P raw ce1 = (Ok f, ce')" using "1.prems" by (simp add: read_loop.simps [of P r ce] read)
    then show ?thesis using less decrypt_client_in [of P raw ce1] by simp
  qed
qed

lemma ReadEncrypted_shorter:
  "ReadEncrypted P r ce = (Ok f, ce') \<Longrightarrow>
     length (cn_in (cl_conn (fst ce'))) < length (cn_in (cl_conn (fst ce)))"
  by (auto simp: ReadEncrypted_def sbind_apply read_client_def sfail_def
      split: option.splits dest: read_loop_shorter)

lemma dispatch_client_in:
  "cn_in (cl_conn (fst (snd (dispatch_client r f ce)))) = cn_in (cl_conn (fst ce))"
  by (simp add: dispatch_client_def split: prod.splits)

lemma on_store_in: "cn_in (cl_conn (fst (snd (on_store m ce)))) = cn_in (cl_conn (fst ce))"
  by (simp add: on_store_def split: prod.splits)

lemma read_clock_in: "cn_in (cl_conn (fst (snd (read_clock ce)))) = cn_in (cl_conn (fst ce))"
  by (simp add: read_clock_def split: prod.splits)

section \<open>The program\<close>

function demo_loop :: "primitives \<Rightarrow> inbox \<Rightarrow> time \<Rightarrow> client \<times> env \<Rightarrow> demo_result outcome \<times> client \<times> env" where
  "demo_loop P i start ce =
     (case read_clock ce of
       (Ok now, ce) \<Rightarrow>
         if demo_deadline \<le> time_since now start then (Ok NoResponse, ce)
         else (case ReadEncrypted P (NewAppRouter i) ce of
           (Err err, ce) \<Rightarrow> (Ok (ReadFailed err), ce)
         | (Panic, ce) \<Rightarrow> (Panic, ce)
         | (Ok f, ce) \<Rightarrow> (case dispatch_client (NewAppRouter i) f ce of
             (Err err, ce) \<Rightarrow> (Ok (DispatchFailed err), ce)
           | (Panic, ce) \<Rightarrow> (Panic, ce)
           | (Ok _, ce) \<Rightarrow> (case on_store (Inbox_Pop i) ce of
               (Ok (Some msg), ce) \<Rightarrow> (Ok (Received msg), ce)
             | (Ok None, ce) \<Rightarrow> demo_loop P i start ce
             | (Err err, ce) \<Rightarrow> (Err err, ce)
             | (Panic, ce) \<Rightarrow> (Panic, ce))))
     | (Err err, ce) \<Rightarrow> (Err err, ce)
     | (Panic, ce) \<Rightarrow> (Panic, ce))"
  by pat_completeness auto

lemma demo_iteration_shorter:
  assumes "(a, c1, e1) = read_clock ce" "(Ok f, c2, e2) = ReadEncrypted P r (c1, e1)"
    and "(b, c3, e3) = dispatch_client r f (c2, e2)" "(d, c4, e4) = on_store m (c3, e3)"
  shows "length (cn_in (cl_conn c4)) < length (cn_in (cl_conn (fst ce)))"
proof -
  have "cn_in (cl_conn c1) = cn_in (cl_conn (fst ce))" "cn_in (cl_conn c3) = cn_in (cl_conn c2)"
    "cn_in (cl_conn c4) = cn_in (cl_conn c3)"
    using read_clock_in [of ce] dispatch_client_in [of r f "(c2, e2)"] on_store_in [of m "(c3, e3)"]
    unfolding assms(1,3,4) [symmetric] by simp_all
  with ReadEncrypted_shorter [OF assms(2) [symmetric]] show ?thesis by simp
qed

termination demo_loop
proof (relation "measure (\<lambda>(P, i, start, ce). length (cn_in (cl_conn (fst ce))))", goal_cases)
  case (2 P i start ce a ce1 now b ce2 f d ce3 u g ce4 x)
  then show ?case
    using demo_iteration_shorter [of a "fst ce1" "snd ce1" ce f "fst ce2" "snd ce2" P "NewAppRouter i" d
      "fst ce3" "snd ce3" g "fst ce4" "snd ce4" "Inbox_Pop i"] by simp
qed simp

declare demo_loop.simps [simp del]

definition demo_main :: "primitives \<Rightarrow> conn option \<Rightarrow> env \<Rightarrow> demo_result outcome \<times> client option \<times> env" where
  "demo_main P dialled e =
     (case NewInbox (ev_store e) of (i, st) \<Rightarrow>
      (case Dial dialled (e\<lparr>ev_store := st\<rparr>) of
        (Err _, e) \<Rightarrow> (Panic, None, e)
      | (Panic, e) \<Rightarrow> (Panic, None, e)
      | (Ok c, e) \<Rightarrow>
          (case (case Client_Handshake P (c, e) of
              (Err _, ce) \<Rightarrow> (Panic, ce)
            | (Panic, ce) \<Rightarrow> (Panic, ce)
            | (Ok _, (c, e)) \<Rightarrow>
                (case NewMessenger (ev_store e) of (m, st) \<Rightarrow>
                 case BuildFrame 1 AppTypeData (str ''hi from go'') m of ((_, f), m) \<Rightarrow>
                 (case SendEncrypted P f (c, e\<lparr>ev_store := st\<rparr>) of
                   (Err _, ce) \<Rightarrow> (Panic, ce)
                 | (Panic, ce) \<Rightarrow> (Panic, ce)
                 | (Ok _, ce) \<Rightarrow>
                     sbind read_clock (\<lambda>start. demo_loop P i start) ce))) of
            (r, (c, e)) \<Rightarrow> (r, Some (snd (Client_Close c)), e))))"

section \<open>Properties\<close>

text \<open>C12: from the application of one peer to the application of the other. The loop of the demo client
  reports the first application message the peer has sealed and sent, when it comes before the
  deadline, whatever heartbeats come before it; the sessions are in step again, the inbox is empty
  again, and what follows the message is unread.\<close>

theorem demo_receives_message:
  assumes "in_step P a s" "cl_Session c = Some s" "\<not> cn_closed (cl_conn c)"
    and "length (m_Payload m) \<le> 8388608" "Session_EncryptFrame P t u (Message_ToFrame m) a = (Ok g, a')"
      "length (f_Payload g) < 2 ^ 32"
    and "\<forall>h\<in>set hbs. f_MsgType h = MsgHeartbeat \<and> length (f_Payload h) < 2 ^ 32"
    and "cn_in (cl_conn c) = concat (map frame_bytes hbs) @ frame_bytes g @ rest"
    and "st_queue (ev_store e) q = []" "time_since (ev_clock e (ev_reads e)) start < demo_deadline"
  shows "\<exists>c' e' s'. demo_loop P (Some q) start (c, e) = (Ok (Received m), (c', e')) \<and>
    cl_Session c' = Some s' \<and> in_step P a' s' \<and> cn_in (cl_conn c') = rest \<and> st_queue (ev_store e') q = []"
proof -
  have m: "message_valid m" using assms(4) by (simp add: message_valid_def maxAppPayload_nat)
  have mt: "f_MsgType (Message_ToFrame m) \<noteq> MsgHeartbeat"
    by (simp add: ToFrame_header message_types_differ)
  let ?e = "snd (Now e)"
  have clock: "read_clock (c, e) = (Ok (ev_clock e (ev_reads e)), (c, ?e))"
    by (simp add: read_clock_def Now_def)
  obtain c1 e1 s1 where read: "ReadEncrypted P (NewAppRouter (Some q)) (c, ?e) = (Ok (Message_ToFrame m), (c1, e1))"
    "cl_Session c1 = Some s1" "in_step P a' s1" "cn_in (cl_conn c1) = rest" "ev_store e1 = ev_store ?e"
    by (rule read_delivers [OF assms(1-3,5) mt assms(6-8)])
  then have st: "st_queue (ev_store e1) q = []" using assms(9) by (simp add: Now_def)
  obtain e2 t2 where "Dispatch (NewAppRouter (Some q)) (Message_ToFrame m) (e1, Some s1) = (Ok (), (e2, Some (Touch t2 s1)))"
    and e2: "st_queue (ev_store e2) q = [m]"
    using st Dispatch_delivers [OF m, of q e1 "Some s1"]
    by (auto simp: NewAppRouter_def touch_session_def Now_def push_ref_def Inbox_Push_def)
  then have disp: "dispatch_client (NewAppRouter (Some q)) (Message_ToFrame m) (c1, e1) =
      (Ok (), (c1\<lparr>cl_Session := Some (Touch t2 s1)\<rparr>, e2))"
    by (simp add: dispatch_client_def read(2))
  obtain e3 where pop: "on_store (Inbox_Pop (Some q)) (c1\<lparr>cl_Session := Some (Touch t2 s1)\<rparr>, e2) =
      (Ok (Some m), (c1\<lparr>cl_Session := Some (Touch t2 s1)\<rparr>, e3))" "st_queue (ev_store e3) q = []"
    using e2 by (auto simp: on_store_def Inbox_Pop_def)
  have "demo_loop P (Some q) start (c, e) = (Ok (Received m), (c1\<lparr>cl_Session := Some (Touch t2 s1)\<rparr>, e3))"
    using assms(10) by (simp add: demo_loop.simps clock read(1) disp pop(1))
  then show ?thesis using in_step_Touch [OF read(3)] read(4) pop(2) by simp
qed

lemma sample_message:
  defines "m \<equiv> NewMessage 1 2 3 [4]"
  defines "f \<equiv> Message_ToFrame m"
  shows "Session_EncryptFrame sample 0 0 f (sample_session 1) =
      (Ok (sealed_frame sample f (sample_session 1)), after_seal sample 0 0 f (sample_session 1))"
    "length (f_Payload (sealed_frame sample f (sample_session 1))) < 2 ^ 32" "length (m_Payload m) \<le> 8388608"
proof -
  have "\<not> encrypted f" by (simp add: f_def Message_ToFrame_def frame_New_def encrypted_def)
  moreover have "s_TxSequence (sample_session 1) \<noteq> MaxUint64" by (simp add: MaxUint64_def)
  ultimately show "Session_EncryptFrame sample 0 0 f (sample_session 1) =
      (Ok (sealed_frame sample f (sample_session 1)), after_seal sample 0 0 f (sample_session 1))"
    by (simp add: Session_EncryptFrame_Ok_iff sample_def)
  show "length (f_Payload (sealed_frame sample f (sample_session 1))) < 2 ^ 32" "length (m_Payload m) \<le> 8388608"
    by (simp_all add: sealed_frame_def sample_def f_def m_def NewMessage_def Message_ToFrame_def frame_New_def)
      (simp add: message_bytes_eq [unfolded message_bytes_def])
qed

theorem demo_receives_message_witness:
  "\<exists>c e. demo_loop sample (Some 0) 0
      (sample_client (frame_bytes heartbeat_frame @
          frame_bytes (sealed_frame sample (Message_ToFrame (NewMessage 1 2 3 [4])) (sample_session 1)))
        (Some (sample_session 2)), sample_env) = (Ok (Received (NewMessage 1 2 3 [4])), (c, e))"
proof -
  let ?g = "sealed_frame sample (Message_ToFrame (NewMessage 1 2 3 [4])) (sample_session 1)"
  let ?c = "sample_client (frame_bytes heartbeat_frame @ frame_bytes ?g) (Some (sample_session 2))"
  have hb: "\<forall>h\<in>set [heartbeat_frame]. f_MsgType h = MsgHeartbeat \<and> length (f_Payload h) < 2 ^ 32"
    by (simp add: heartbeat_frame_def frame_New_def)
  have c: "cl_Session ?c = Some (sample_session 2)" "\<not> cn_closed (cl_conn ?c)"
    "cn_in (cl_conn ?c) = concat (map frame_bytes [heartbeat_frame]) @ frame_bytes ?g @ []"
    by (simp_all add: sample_client_def open_conn_def)
  have e: "st_queue (ev_store sample_env) 0 = []"
    "time_since (ev_clock sample_env (ev_reads sample_env)) 0 < demo_deadline"
    by (simp_all add: sample_env_def time_since_def demo_deadline_def second_ns_def)
  from demo_receives_message [OF sample_in_step c(1,2) sample_message(3,1,2) hb c(3) e] show ?thesis by blast
qed

end
