(* ===== verification/Spec2Isabelle.thy ===== *)
theory Spec2Isabelle
  imports Example_Client
begin

text \<open>
  A model of \<^bold>\<open>shadowlark-go\<close>, the Go client library of the Shadowlark relay, and the proofs of
  what it promises. The library sets up an authenticated, encrypted channel over a byte stream: a
  handshake in three messages between parties that have pinned each other's keys, sessions that
  seal and open records, frames that carry everything, and application messages sorted into
  channels and inboxes.

  \<^bold>\<open>Parts and theories.\<close> Each theory models the Go code named here, function by function, under the
  names of the source (with a prefix where two packages share a name).

  \<^item> \<open>Prelude\<close>: Go's integers, errors and panics (\<open>outcome\<close>), state-passing methods and shared lemmas.
    \<open>Go_Text\<close>: the text functions of the standard library the code calls. \<open>Sha256\<close>: SHA-256.
    \<open>Primitives\<close>: the cryptography that is not in the repository, as a record of functions.
  \<^item> \<open>Codec\<close> (\<open>binary/encoder.go\<close>, \<open>binary/decoder.go\<close>): the primitive readers and writers.
    Lemmas: each reader against its writer, no read leaves the buffer or panics; the locales
    \<open>codec\<close> and \<open>exact_codec\<close> state the contract of a format and are interpreted for every format.
  \<^item> \<open>Frame\<close> (\<open>transport/frame/frame.go\<close>): the envelope of every message.
  \<^item> \<open>App_Message\<close>, \<open>App_Inbox\<close> (\<open>app/app.go\<close>): messages, acknowledgements and chunks; inboxes,
    messengers and subscriber sets. Lemmas: round trips; the calls on an inbox answer as a plain list
    does, and each channel is a first-in first-out queue; a subscriber set lists a set.
  \<^item> \<open>Cipher\<close> (\<open>crypto/cipher.go\<close>): nonces, additional data, rekeying, one encrypted frame.
  \<^item> \<open>Identity\<close>, \<open>Handshake_Messages\<close>, \<open>Handshake\<close> (\<open>transport/handshake/handshake.go\<close>): key pairs,
    pins and signed bundles; the three messages; the two endpoints. Lemmas: which bytes are accepted,
    what acceptance implies, that honest parties agree, that no input makes a handler panic.
  \<^item> \<open>Replay_Window\<close>, \<open>Session\<close>, \<open>Record_Calls\<close>, \<open>Session_Trace\<close>, \<open>Secure_Channel\<close>
    (\<open>transport/session/session.go\<close>): the replay bitmap against the set of numbers it stands for; the
    operations of a session; the calls of the AEAD they make, read off the operations themselves;
    runs of a session as a step relation with a log of these calls; two sessions over an honest and
    over a hostile network.
  \<^item> \<open>Router\<close> (\<open>transport/router/router.go\<close>): handlers and dispatch.
  \<^item> \<open>Env_Config\<close>, \<open>Client_IO\<close>, \<open>Client\<close> (\<open>transport/tcp/client.go\<close>): configuration from the
    environment, frames on a connection, the client.
  \<^item> \<open>Example_Client\<close> (\<open>cmd/example-client/main.go\<close>): the demo program.

  \<^bold>\<open>State.\<close> Every Go struct is a record with its fields. A method takes the state and returns an outcome and
  the state it leaves, so a failing call shows what it has changed already. Pointers that are
  shared (an inbox and its copies) are references into a store; a pointer that may be nil is an
  \<open>option\<close>. The clock, the random source, the process's environment variables and the inbox store are one
  record \<open>env\<close>, threaded through the client; readings of the clock are arbitrary.

  \<^bold>\<open>Parameters and hypotheses.\<close> ChaCha20-Poly1305, X25519, HKDF and Ed25519 are fields of the record \<open>primitives\<close>. A
  property names the documented behaviour it needs: that opening undoes sealing (\<open>aead_correct\<close>),
  that a signature verifies under its own key (\<open>signature_correct\<close>), that two key pairs agree
  (\<open>dh_correct\<close>), that HKDF yields 64 bytes (\<open>hkdf_correct\<close>). Nothing is assumed unforgeable in general,
  since a law over all ciphertexts contradicts that opening undoes sealing. Where a property is about an
  attacker, its hypothesis is about the run at hand: \<open>unforged\<close> says that every record the receiver
  opened in it was sealed in it, \<open>genuine_only\<close> that the server hello is accepted also when only the
  signatures of given responder calls count, \<open>collision_free\<close> that two given transcripts have the
  same hash only when they are the same. The record \<open>sample\<close> satisfies all four laws, and every witness that needs
  primitives uses it.

  \<^bold>\<open>Bounds.\<close> Buffers are shorter than \<open>2 ^ 62\<close> bytes where position arithmetic matters; Go cannot allocate
  more. Rekeys are counted below \<open>2 ^ 32\<close> where the width of the epoch matters. No definition uses
  fuel: a connection holds the finitely many bytes the peer sends before it closes, and the loops of
  \<open>ReadEncrypted\<close> and of the demo program consume them, which is their measure. A peer that stays
  silent or sends heartbeats for ever, on which the Go loop does not come back, is therefore not in
  the model, and no property claims that reading returns against one.

  \<^bold>\<open>Order of interest.\<close> The handshake (\<open>handshake_agreement\<close>, \<open>matching_views\<close>), the channel
  (\<open>hostile_network_prefix\<close>, \<open>nonces_never_repeat\<close>, \<open>records_never_accepted_twice\<close>), the client
  (\<open>client_handshake\<close>, \<open>send_then_read\<close>, \<open>read_ends_cleanly\<close>) and the formats (\<open>client_hello_frame_exact\<close>,
  \<open>frame_decode_exact\<close>). Some properties record behaviour a caller should know about:
  \<open>window_distance_panics\<close>, \<open>set_replay_mode_forgets\<close>, \<open>heartbeats_not_authenticated\<close>,
  \<open>failed_write_desynchronises\<close>, \<open>wire_limits_not_enforced\<close>, \<open>rekey_limits_not_signed\<close>.

  \<^bold>\<open>Not modelled.\<close> The text of error messages (one constructor stands for each); the interleaving of
  threads inside a mutex; the network below a connection; sharing of a trust store's map between
  copies of the struct; the tests. \<open>GenerateIdentityKeypair\<close> and the reader of \<open>bool\<close> values are modelled and not used
  by the properties.
\<close>

end
